(* ===== verification/Prelude.thy ===== *)
theory Prelude
  imports Main "HOL-Library.Char_ord" "HOL-Library.List_Lexorder"
begin

text \<open>
  Shared vocabulary of the development: the collections of simplification rules the
  component theories add to, Python values that the service passes around as plain data
  (JSON documents, decimal text), and the generic facts on lists and sorting that more
  than one component uses.

  Conventions.  A Python \<open>str\<close> is a HOL \<open>string\<close>; the order on strings is the
  lexicographic order on code points (theories Char_ord and List_Lexorder), which is what
  Python's \<open>sorted\<close> and SQLite's BINARY collation use.  A \<open>frozenset[str]\<close> is a
  \<open>string set\<close>, a \<open>tuple\<close> or \<open>list\<close> is a HOL list, an \<open>int\<close> is an
  \<open>int\<close>.  A JSON document is a value of the datatype \<open>json\<close>.
\<close>

named_theorems tx_simps \<open>unfolding rules of the transaction combinators\<close>
named_theorems repo_simps \<open>what a repository operation returns on a table\<close>
named_theorems frame \<open>which tables and fields an operation leaves alone\<close>
named_theorems wf_intro \<open>well-formedness preservation\<close>

section \<open>JSON values\<close>

text \<open>\<open>JFloat m n\<close> is the finite float \<open>m / 2 ^ n\<close>; every double that is a number has this form.\<close>

datatype json =
    JNull
  | JBool bool
  | JInt int
  | JFloat int nat
  | JStr string
  | JArr "json list"
  | JObj "(string \<times> json) list"

type_synonym dict = "(string \<times> json) list"

abbreviation JStrs :: "string list \<Rightarrow> json" where
  "JStrs xs \<equiv> JArr (map JStr xs)"

text \<open>
  The service stores documents as JSON text.  Such a text is represented by the document it
  denotes: \<open>json.dumps(obj, sort_keys=True)\<close> puts the members of every object in the order
  of their keys, and \<open>json.loads\<close> of such a text gives that document back.
\<close>

fun dumps_json :: "json \<Rightarrow> json" where
  "dumps_json (JArr xs) = JArr (map dumps_json xs)"
| "dumps_json (JObj d) = JObj (sort_key fst (map (\<lambda>(k, v). (k, dumps_json v)) d))"
| "dumps_json v = v"

lemma dumps_JStrs [simp]: "dumps_json (JStrs xs) = JStrs xs"
  by (simp add: comp_def)

text \<open>\<open>d.get(k)\<close> and \<open>d.pop(k, None)\<close> on a dict held as an association list.\<close>

definition dict_get :: "dict \<Rightarrow> string \<Rightarrow> json option" where
  "dict_get d k = map_of d k"

definition dict_pop :: "dict \<Rightarrow> string \<Rightarrow> json option \<times> dict" where
  "dict_pop d k = (map_of d k, filter (\<lambda>(k', _). k' \<noteq> k) d)"

text \<open>
  \<open>{**d, **e}\<close>: the entries of the second dict win.  The first dict keeps the position
  of a key it already has; only lookups matter to the service.
\<close>

definition dict_merge :: "dict \<Rightarrow> dict \<Rightarrow> dict" where
  "dict_merge d e = filter (\<lambda>(k, _). k \<notin> fst ` set e) d @ e"

lemma map_of_filter_key:
  "map_of (filter (\<lambda>(k, _). P k) d) k = (if P k then map_of d k else None)"
  by (induction d) auto

lemma dict_get_merge:
  "dict_get (dict_merge d e) k = (case dict_get e k of Some v \<Rightarrow> Some v | None \<Rightarrow> dict_get d k)"
proof (cases "map_of e k")
  case None
  then have "k \<notin> fst ` set e" by (simp add: map_of_eq_None_iff)
  with None show ?thesis
    by (simp add: dict_get_def dict_merge_def map_add_def map_of_filter_key split: option.splits)
next
  case (Some v)
  then have "k \<in> fst ` set e" using image_iff map_of_SomeD by fastforce
  with Some show ?thesis
    by (simp add: dict_get_def dict_merge_def map_add_def map_of_filter_key)
qed

lemma dict_pop_get:
  "dict_get (snd (dict_pop d k)) k' = (if k' = k then None else dict_get d k')"
  using map_of_filter_key [of "\<lambda>x. x \<noteq> k" d k'] by (simp add: dict_get_def dict_pop_def)

section \<open>Decimal text\<close>

text \<open>\<open>str(n)\<close> for a Python int, and zero-padded digits as in \<open>f"{n:02d}"\<close>.\<close>

definition digit_char :: "nat \<Rightarrow> char" where
  "digit_char n = char_of (48 + n mod 10)"

fun pad_digits :: "nat \<Rightarrow> nat \<Rightarrow> string" where
  "pad_digits 0 n = []"
| "pad_digits (Suc w) n = pad_digits w (n div 10) @ [digit_char n]"

fun show_nat :: "nat \<Rightarrow> string" where
  "show_nat n = (if n < 10 then [digit_char n] else show_nat (n div 10) @ [digit_char n])"

declare show_nat.simps [simp del]

definition show_int :: "int \<Rightarrow> string" where
  "show_int i = (if i < 0 then CHR ''-'' # show_nat (nat (- i)) else show_nat (nat i))"

fun join :: "string \<Rightarrow> string list \<Rightarrow> string" where
  "join sep [] = []"
| "join sep [x] = x"
| "join sep (x # y # ys) = x @ sep @ join sep (y # ys)"

section \<open>Lists, filters, sorting\<close>

text \<open>\<open>sorted(s)\<close> on a set or a generator of strings.\<close>

abbreviation sorted_of :: "string set \<Rightarrow> string list" where
  "sorted_of \<equiv> sorted_list_of_set"

text \<open>\<open>ORDER BY a, b LIMIT n\<close>: a stable sort followed by a prefix.\<close>

lemma set_take_sort_key: "set (take n (sort_key f xs)) \<subseteq> set xs"
  using set_take_subset by fastforce

lemma distinct_take_sort_key: "distinct xs \<Longrightarrow> distinct (take n (sort_key f xs))"
  by simp

lemma distinct_map_filter_key:
  "distinct (map f xs) \<Longrightarrow> distinct (map f (filter P xs))"
  by (simp add: distinct_map_filter)

lemma distinct_map_sort_key:
  "distinct (map f xs) \<Longrightarrow> distinct (map f (sort_key g xs))"
  by (simp add: distinct_map)

lemma distinct_map_take:
  "distinct (map f xs) \<Longrightarrow> distinct (map f (take n xs))"
  by (simp add: take_map [symmetric])

text \<open>A row lookup by key: the first row whose key matches.\<close>

definition find_row :: "('r \<Rightarrow> 'k) \<Rightarrow> 'k \<Rightarrow> 'r list \<Rightarrow> 'r option" where
  "find_row key k rows = List.find (\<lambda>r. key r = k) rows"

lemma find_row_Some: "find_row key k rows = Some r \<Longrightarrow> r \<in> set rows \<and> key r = k"
  by (auto simp: find_row_def find_Some_iff)

lemma find_row_None: "find_row key k rows = None \<longleftrightarrow> k \<notin> key ` set rows"
  by (auto simp: find_row_def find_None_iff)

lemma find_row_Nil [simp]: "find_row key k [] = None"
  by (simp add: find_row_def)

lemma find_row_Cons [simp]:
  "find_row key k (r # rs) = (if key r = k then Some r else find_row key k rs)"
  by (simp add: find_row_def)

lemma find_row_append [simp]:
  "find_row key k (xs @ ys) = (case find_row key k xs of Some r \<Rightarrow> Some r | None \<Rightarrow> find_row key k ys)"
  by (induction xs) auto

lemma find_row_distinct:
  "distinct (map key rows) \<Longrightarrow> r \<in> set rows \<Longrightarrow> find_row key (key r) rows = Some r"
  by (induction rows) (auto simp: rev_image_eqI)

text \<open>\<open>UPDATE t SET ... WHERE key = k\<close> on a table held as a list of rows.\<close>

definition update_rows :: "('r \<Rightarrow> bool) \<Rightarrow> ('r \<Rightarrow> 'r) \<Rightarrow> 'r list \<Rightarrow> 'r list" where
  "update_rows P f rows = map (\<lambda>r. if P r then f r else r) rows"

lemma update_rows_Nil [simp]: "update_rows P f [] = []"
  by (simp add: update_rows_def)

lemma update_rows_Cons [simp]:
  "update_rows P f (r # rs) = (if P r then f r else r) # update_rows P f rs"
  by (simp add: update_rows_def)

lemma length_update_rows [simp]: "length (update_rows P f rows) = length rows"
  by (simp add: update_rows_def)

lemma map_key_update_rows:
  "(\<And>r. key (f r) = key r) \<Longrightarrow> map key (update_rows P f rows) = map key rows"
  by (induction rows) auto

lemma find_row_update_rows:
  assumes "\<And>r. key (f r) = key r"
  shows "find_row key k (update_rows (\<lambda>r. key r = k') f rows) =
    (if k = k' then map_option f (find_row key k rows) else find_row key k rows)"
  using assms by (induction rows) auto

lemma set_update_rows:
  "r \<in> set (update_rows P f rows) \<Longrightarrow> \<exists>r0 \<in> set rows. r = (if P r0 then f r0 else r0)"
  by (auto simp: update_rows_def)

text \<open>\<open>INSERT ... ON CONFLICT(key) DO UPDATE\<close>: replace in place, or append.\<close>

definition upsert_row :: "('r \<Rightarrow> 'k) \<Rightarrow> ('r \<Rightarrow> 'r \<Rightarrow> 'r) \<Rightarrow> 'r \<Rightarrow> 'r list \<Rightarrow> 'r list" where
  "upsert_row key merge r rows =
     (if key r \<in> key ` set rows
      then update_rows (\<lambda>old. key old = key r) (\<lambda>old. merge old r) rows
      else rows @ [r])"

lemma find_row_upsert:
  assumes "\<And>old. key (merge old r) = key old"
  shows "find_row key k (upsert_row key merge r rows) =
    (if k = key r
     then Some (case find_row key k rows of Some old \<Rightarrow> merge old r | None \<Rightarrow> r)
     else find_row key k rows)"
proof (cases "key r \<in> key ` set rows")
  case True
  then have "find_row key (key r) rows \<noteq> None" by (simp add: find_row_None)
  with True show ?thesis
    by (auto simp: upsert_row_def find_row_update_rows assms)
next
  case False
  then have "find_row key (key r) rows = None" by (simp add: find_row_None)
  with False show ?thesis
    by (auto simp: upsert_row_def split: option.splits)
qed

lemma map_key_upsert:
  assumes "\<And>old. key (merge old r) = key old"
  shows "map key (upsert_row key merge r rows) =
    (if key r \<in> key ` set rows then map key rows else map key rows @ [key r])"
  using assms by (simp add: upsert_row_def map_key_update_rows)

lemma distinct_upsert:
  assumes "\<And>old. key (merge old r) = key old" and "distinct (map key rows)"
  shows "distinct (map key (upsert_row key merge r rows))"
  using assms by (simp add: map_key_upsert)

lemma set_upsert:
  "x \<in> set (upsert_row key merge r rows) \<Longrightarrow>
   x \<in> set rows \<or> x = r \<or> (\<exists>old \<in> set rows. key old = key r \<and> x = merge old r)"
  by (auto simp: upsert_row_def update_rows_def split: if_splits)

text \<open>Sorting a dict by its keys does not change its lookups.\<close>

lemma map_of_sort_key:
  assumes "distinct (map fst d)" shows "map_of (sort_key fst d) = map_of d"
  using map_of_inject_set [OF distinct_map_sort_key [OF assms, of fst] assms] by simp

lemma dict_get_sort_key:
  "distinct (map fst d) \<Longrightarrow> dict_get (sort_key fst d) k = dict_get d k"
  by (simp add: dict_get_def map_of_sort_key)

section \<open>Reachable states\<close>

text \<open>
  A component with interleaved operations is a step relation with a set of initial states.  The
  locale states that a predicate is an inductive invariant of it, and its lemma carries the
  predicate to every reachable state.
\<close>

definition reachable :: "('s \<Rightarrow> bool) \<Rightarrow> ('s \<Rightarrow> 's \<Rightarrow> bool) \<Rightarrow> 's \<Rightarrow> bool" where
  "reachable init step s \<longleftrightarrow> (\<exists>s0. init s0 \<and> step\<^sup>*\<^sup>* s0 s)"

lemma reachable_init: "init s \<Longrightarrow> reachable init step s"
  by (auto simp: reachable_def)

lemma reachable_step: "reachable init step s \<Longrightarrow> step s t \<Longrightarrow> reachable init step t"
  unfolding reachable_def by (meson rtranclp.rtrancl_into_rtrancl)

locale inductive_invariant =
  fixes init :: "'s \<Rightarrow> bool" and step :: "'s \<Rightarrow> 's \<Rightarrow> bool" and inv :: "'s \<Rightarrow> bool"
  assumes inv_init: "init s \<Longrightarrow> inv s"
    and inv_step: "inv s \<Longrightarrow> step s t \<Longrightarrow> inv t"
begin

lemma inv_steps: "step\<^sup>*\<^sup>* s t \<Longrightarrow> inv s \<Longrightarrow> inv t"
  by (induction rule: rtranclp_induct) (auto intro: inv_step)

lemma inv_reachable: "reachable init step s \<Longrightarrow> inv s"
  unfolding reachable_def using inv_init inv_steps by blast

end

end
