(* ===== verification/Errors.thy ===== *)
theory Errors
  imports Prelude
begin

text \<open>
  The exception hierarchy of \<open>domain/errors.py\<close>.  A Python class becomes a constructor of
  \<open>err_class\<close>, its base class is given by \<open>parent_class\<close>, and a class attribute is
  looked up along the base classes (\<open>mro\<close>), so that an attribute a class does not set is
  inherited as in Python.  A raised exception is a value of \<open>exn\<close>: a service error with
  its message and \<open>details\<close> dict, or an exception of the standard library or of the
  database driver.  Messages of errors raised by modelled code are left empty (\<open>err\<close>): no
  modelled code reads them.

  The lemmas show that the hierarchy is a tree of depth at most three below its root, that
  \<open>_iter_leaf_error_classes\<close> enumerates exactly the classes without subclasses, and what
  the start-up self-check accepts.
\<close>

section \<open>Classes\<close>

datatype err_class =
    MessageServiceError
  | ValidationError
  | UnknownPipelineTypeError
  | UnknownTagError
  | DuplicateStageIdError
  | UnknownTemplateError
  | MissingAggregationTemplateError
  | UnknownStageError
  | ContextSchemaViolationError
  | ContextSizeExceededError
  | RenderedSizeExceededError
  | DuplicateEmailError
  | InvalidEmailError
  | MalformedRequestError
  | DomainError
  | NotFoundError
  | RunNotFoundError
  | SubscriptionNotFoundError
  | UserNotFoundError
  | ForbiddenError
  | SubscriptionForbiddenError
  | PreconditionError
  | InvalidRunStateError
  | InvalidStateTransitionError
  | InvalidStageStateError
  | SelfProtectionError
  | InfrastructureError
  | PersistenceError
  | TemplateRenderError
  | EmailDeliveryError
  | EmailSizeExceededError
  | ConfigurationError

text \<open>All classes, in the order in which the module defines them.\<close>

definition all_classes :: "err_class list" where
  "all_classes =
     [MessageServiceError, ValidationError, UnknownPipelineTypeError, UnknownTagError,
      DuplicateStageIdError, UnknownTemplateError, MissingAggregationTemplateError,
      UnknownStageError, ContextSchemaViolationError, ContextSizeExceededError,
      RenderedSizeExceededError, DuplicateEmailError, InvalidEmailError,
      MalformedRequestError, DomainError, NotFoundError, RunNotFoundError,
      SubscriptionNotFoundError, UserNotFoundError, ForbiddenError,
      SubscriptionForbiddenError, PreconditionError, InvalidRunStateError,
      InvalidStateTransitionError, InvalidStageStateError, SelfProtectionError,
      InfrastructureError, PersistenceError, TemplateRenderError, EmailDeliveryError,
      EmailSizeExceededError, ConfigurationError]"

fun parent_class :: "err_class \<Rightarrow> err_class option" where
  "parent_class MessageServiceError = None"
| "parent_class ValidationError = Some MessageServiceError"
| "parent_class UnknownPipelineTypeError = Some ValidationError"
| "parent_class UnknownTagError = Some ValidationError"
| "parent_class DuplicateStageIdError = Some ValidationError"
| "parent_class UnknownTemplateError = Some ValidationError"
| "parent_class MissingAggregationTemplateError = Some ValidationError"
| "parent_class UnknownStageError = Some ValidationError"
| "parent_class ContextSchemaViolationError = Some ValidationError"
| "parent_class ContextSizeExceededError = Some ValidationError"
| "parent_class RenderedSizeExceededError = Some ValidationError"
| "parent_class DuplicateEmailError = Some ValidationError"
| "parent_class InvalidEmailError = Some ValidationError"
| "parent_class MalformedRequestError = Some ValidationError"
| "parent_class DomainError = Some MessageServiceError"
| "parent_class NotFoundError = Some DomainError"
| "parent_class RunNotFoundError = Some NotFoundError"
| "parent_class SubscriptionNotFoundError = Some NotFoundError"
| "parent_class UserNotFoundError = Some NotFoundError"
| "parent_class ForbiddenError = Some DomainError"
| "parent_class SubscriptionForbiddenError = Some ForbiddenError"
| "parent_class PreconditionError = Some DomainError"
| "parent_class InvalidRunStateError = Some PreconditionError"
| "parent_class InvalidStateTransitionError = Some PreconditionError"
| "parent_class InvalidStageStateError = Some PreconditionError"
| "parent_class SelfProtectionError = Some PreconditionError"
| "parent_class InfrastructureError = Some MessageServiceError"
| "parent_class PersistenceError = Some InfrastructureError"
| "parent_class TemplateRenderError = Some InfrastructureError"
| "parent_class EmailDeliveryError = Some InfrastructureError"
| "parent_class EmailSizeExceededError = Some EmailDeliveryError"
| "parent_class ConfigurationError = Some MessageServiceError"

text \<open>The number of base classes between a class and the root: the measure of \<open>mro\<close>.\<close>

definition class_depth :: "err_class \<Rightarrow> nat" where
  "class_depth c =
     (if c = MessageServiceError then 0
      else if c \<in> {ValidationError, DomainError, InfrastructureError, ConfigurationError} then 1
      else if parent_class c \<in> {Some ValidationError, Some DomainError, Some InfrastructureError}
      then 2 else 3)"

lemma class_depth_parent: "parent_class c = Some p \<Longrightarrow> class_depth p < class_depth c"
  by (cases c) (auto simp: class_depth_def)

function mro :: "err_class \<Rightarrow> err_class list" where
  "mro c = c # (case parent_class c of None \<Rightarrow> [] | Some p \<Rightarrow> mro p)"
  by pat_completeness auto
termination
  by (relation "measure class_depth") (auto simp: class_depth_parent)

declare mro.simps [simp del]

definition isinstance :: "err_class \<Rightarrow> err_class \<Rightarrow> bool" where
  "isinstance c d \<longleftrightarrow> d \<in> set (mro c)"

section \<open>Class attributes\<close>

fun own_error_code :: "err_class \<Rightarrow> string option" where
  "own_error_code UnknownPipelineTypeError = Some ''ERROR_CODE_UNKNOWN_PIPELINE_TYPE''"
| "own_error_code UnknownTagError = Some ''ERROR_CODE_UNKNOWN_TAG''"
| "own_error_code DuplicateStageIdError = Some ''ERROR_CODE_DUPLICATE_STAGE_ID''"
| "own_error_code UnknownTemplateError = Some ''ERROR_CODE_UNKNOWN_TEMPLATE''"
| "own_error_code MissingAggregationTemplateError =
     Some ''ERROR_CODE_MISSING_AGGREGATION_TEMPLATE''"
| "own_error_code UnknownStageError = Some ''ERROR_CODE_UNKNOWN_STAGE''"
| "own_error_code ContextSchemaViolationError = Some ''ERROR_CODE_CONTEXT_SCHEMA_VIOLATION''"
| "own_error_code ContextSizeExceededError = Some ''ERROR_CODE_CONTEXT_SIZE_EXCEEDED''"
| "own_error_code RenderedSizeExceededError = Some ''ERROR_CODE_RENDERED_SIZE_EXCEEDED''"
| "own_error_code MalformedRequestError = Some ''ERROR_CODE_MALFORMED_REQUEST''"
| "own_error_code RunNotFoundError = Some ''ERROR_CODE_RUN_NOT_FOUND''"
| "own_error_code InvalidRunStateError = Some ''ERROR_CODE_INVALID_RUN_STATE''"
| "own_error_code InvalidStateTransitionError = Some ''ERROR_CODE_INVALID_RUN_STATE''"
| "own_error_code InvalidStageStateError = Some ''ERROR_CODE_INVALID_STAGE_STATE''"
| "own_error_code InfrastructureError = Some ''ERROR_CODE_INTERNAL''"
| "own_error_code ConfigurationError = Some ''ERROR_CODE_INTERNAL''"
| "own_error_code DomainError = None"
| "own_error_code PersistenceError = None"
| "own_error_code TemplateRenderError = None"
| "own_error_code EmailDeliveryError = None"
| "own_error_code EmailSizeExceededError = None"
| "own_error_code _ = Some ''ERROR_CODE_UNSPECIFIED''"

fun own_http_status :: "err_class \<Rightarrow> int option" where
  "own_http_status MessageServiceError = Some 500"
| "own_http_status ValidationError = Some 422"
| "own_http_status NotFoundError = Some 404"
| "own_http_status ForbiddenError = Some 403"
| "own_http_status PreconditionError = Some 409"
| "own_http_status InfrastructureError = Some 500"
| "own_http_status ConfigurationError = Some 500"
| "own_http_status _ = None"

text \<open>Attribute lookup: the first class along the base classes that sets it.\<close>

fun first_some :: "('a \<Rightarrow> 'b option) \<Rightarrow> 'a list \<Rightarrow> 'b option" where
  "first_some f [] = None"
| "first_some f (x # xs) = (case f x of Some y \<Rightarrow> Some y | None \<Rightarrow> first_some f xs)"

definition error_code :: "err_class \<Rightarrow> string" where
  "error_code c = (case first_some own_error_code (mro c) of Some s \<Rightarrow> s | None \<Rightarrow> [])"

definition http_status :: "err_class \<Rightarrow> int" where
  "http_status c = (case first_some own_http_status (mro c) of Some n \<Rightarrow> n | None \<Rightarrow> 0)"

section \<open>Raised exceptions\<close>

datatype py_exc = ValueError | RuntimeError | IntegrityError | OSError | AuthenticationError
  | CancelledError | DriverError

datatype exn = Err err_class string dict | PyExc py_exc string

abbreviation err :: "err_class \<Rightarrow> dict \<Rightarrow> exn" where
  "err c d \<equiv> Err c [] d"

fun exn_is :: "exn \<Rightarrow> err_class \<Rightarrow> bool" where
  "exn_is (Err c m d) k = isinstance c k"
| "exn_is (PyExc p m) k = False"

fun exn_message :: "exn \<Rightarrow> string" where
  "exn_message (Err c m d) = m"
| "exn_message (PyExc p m) = m"

fun exn_details :: "exn \<Rightarrow> dict" where
  "exn_details (Err c m d) = d"
| "exn_details (PyExc p m) = []"

text \<open>
  Sequencing of code that may raise: \<open>and_then\<close> runs the continuation on a returned value,
  \<open>map_res\<close> is a comprehension whose body may raise, \<open>check\<close> is a guard.
\<close>

definition and_then :: "exn + 'a \<Rightarrow> ('a \<Rightarrow> exn + 'b) \<Rightarrow> exn + 'b" where
  "and_then r k = (case r of Inl e \<Rightarrow> Inl e | Inr x \<Rightarrow> k x)"

fun map_res :: "('a \<Rightarrow> exn + 'b) \<Rightarrow> 'a list \<Rightarrow> exn + 'b list" where
  "map_res f [] = Inr []"
| "map_res f (x # xs) = and_then (f x) (\<lambda>y. and_then (map_res f xs) (\<lambda>ys. Inr (y # ys)))"

definition check :: "bool \<Rightarrow> exn \<Rightarrow> (exn + 'a) \<Rightarrow> exn + 'a" where
  "check bad e k = (if bad then Inl e else k)"

lemma and_then_simps [simp]: "and_then (Inl e) k = Inl e" "and_then (Inr x) k = k x"
  by (simp_all add: and_then_def)

lemma and_then_Inr: "and_then r k = Inr y \<longleftrightarrow> (\<exists>x. r = Inr x \<and> k x = Inr y)"
  by (cases r) auto

lemma and_then_Inl:
  "and_then r k = Inl e \<longleftrightarrow> r = Inl e \<or> (\<exists>x. r = Inr x \<and> k x = Inl e)"
  by (cases r) auto

lemma check_Inr: "check bad e k = Inr x \<longleftrightarrow> \<not> bad \<and> k = Inr x"
  by (simp add: check_def)

lemma check_Inl: "check bad e k = Inl d \<longleftrightarrow> (if bad then d = e else k = Inl d)"
  by (auto simp: check_def)

lemma map_res_all: "(\<And>x. x \<in> set xs \<Longrightarrow> f x = Inr (g x)) \<Longrightarrow> map_res f xs = Inr (map g xs)"
  by (induction xs) auto

lemma map_res_Inr: "map_res f xs = Inr ys \<Longrightarrow> list_all2 (\<lambda>x y. f x = Inr y) xs ys"
  by (induction xs arbitrary: ys) (auto simp: and_then_Inr)

lemma map_res_mem: "map_res f xs = Inr ys \<Longrightarrow> y \<in> set ys \<Longrightarrow> \<exists>x \<in> set xs. f x = Inr y"
  by (induction xs arbitrary: ys) (auto simp: and_then_Inr)

lemma map_res_result: "map_res f xs = Inr ys \<Longrightarrow> x \<in> set xs \<Longrightarrow> \<exists>y \<in> set ys. f x = Inr y"
  by (induction xs arbitrary: ys) (auto simp: and_then_Inr)

lemma map_res_Inl: "map_res f xs = Inl e \<Longrightarrow> \<exists>x \<in> set xs. f x = Inl e"
  by (induction xs) (auto simp: and_then_Inl)

section \<open>The start-up self-check\<close>

definition subclasses :: "err_class \<Rightarrow> err_class list" where
  "subclasses c = filter (\<lambda>d. parent_class d = Some c) all_classes"

lemma class_depth_subclasses: "d \<in> set (subclasses c) \<Longrightarrow> 3 - class_depth d < 3 - class_depth c"
proof -
  assume "d \<in> set (subclasses c)"
  then have "class_depth c < class_depth d" by (simp add: subclasses_def class_depth_parent)
  moreover have "class_depth d \<le> 3" by (simp add: class_depth_def)
  ultimately show ?thesis by simp
qed

text \<open>
  \<open>_visit\<close>: a depth-first walk with the set of visited classes and the leaves found so far.
\<close>

function visit :: "err_class \<Rightarrow> err_class set \<times> err_class list \<Rightarrow> err_class set \<times> err_class list"
where
  "visit c (seen, leaves) =
     (if c \<in> seen then (seen, leaves)
      else if subclasses c = [] then (insert c seen, leaves @ [c])
      else fold visit (subclasses c) (insert c seen, leaves))"
  by pat_completeness auto
termination
  by (relation "measure (\<lambda>(c, _). 3 - class_depth c)") (auto simp: class_depth_subclasses)

declare visit.simps [simp del]

definition iter_leaf_error_classes :: "err_class list" where
  "iter_leaf_error_classes = snd (visit MessageServiceError ({}, []))"

text \<open>
  The self-check takes the names of the proto enum and returns the codes no class uses, or
  raises for the first leaf class whose code the enum lacks.
\<close>

fun used_codes :: "string set \<Rightarrow> err_class list \<Rightarrow> exn + string list" where
  "used_codes proto [] = Inr []"
| "used_codes proto (c # cs) =
     (if error_code c \<notin> proto
      then Inl (err ConfigurationError
             [(''error_code'', JStr (error_code c)), (''proto_codes'', JStrs (sorted_of proto))])
      else case used_codes proto cs of Inl e \<Rightarrow> Inl e | Inr ks \<Rightarrow> Inr (error_code c # ks))"

definition assert_error_codes_match_proto_enum :: "string set \<Rightarrow> exn + string list" where
  "assert_error_codes_match_proto_enum proto =
     (case used_codes proto iter_leaf_error_classes of
        Inl e \<Rightarrow> Inl e
      | Inr ks \<Rightarrow> Inr (sorted_of (proto - set ks)))"

section \<open>Facts about the hierarchy\<close>

lemma mro_unfold:
  "mro c = c # (case parent_class c of None \<Rightarrow> [] | Some p \<Rightarrow> mro p)"
  by (rule mro.simps)

lemma isinstance_refl [simp]: "isinstance c c"
  by (simp add: isinstance_def mro_unfold [of c])

lemma isinstance_step: "isinstance c d \<longleftrightarrow> c = d \<or> (\<exists>p. parent_class c = Some p \<and> isinstance p d)"
  by (auto simp: isinstance_def mro_unfold [of c] split: option.splits)

lemma isinstance_trans: "isinstance c d \<Longrightarrow> isinstance d k \<Longrightarrow> isinstance c k"
proof (induction c rule: mro.induct)
  case (1 c)
  then show ?case using isinstance_step [of c d] isinstance_step [of c k] by auto
qed

lemma isinstance_parent: "isinstance c d \<Longrightarrow> parent_class d = Some p \<Longrightarrow> isinstance c p"
  using isinstance_trans isinstance_step [of d p] by auto

lemma isinstance_root [simp]: "isinstance c MessageServiceError"
  by (cases c) (simp_all add: isinstance_def mro_unfold)

lemma in_all_classes: "c \<in> set all_classes"
  by (cases c) (simp_all add: all_classes_def)

lemma subclasses_iff: "d \<in> set (subclasses c) \<longleftrightarrow> parent_class d = Some c"
  by (simp add: subclasses_def in_all_classes)

section \<open>Properties\<close>

lemma leaf_classes:
  "iter_leaf_error_classes =
     [UnknownPipelineTypeError, UnknownTagError, DuplicateStageIdError,
      UnknownTemplateError, MissingAggregationTemplateError, UnknownStageError,
      ContextSchemaViolationError, ContextSizeExceededError, RenderedSizeExceededError,
      DuplicateEmailError, InvalidEmailError, MalformedRequestError, RunNotFoundError,
      SubscriptionNotFoundError, UserNotFoundError, SubscriptionForbiddenError,
      InvalidRunStateError, InvalidStateTransitionError, InvalidStageStateError,
      SelfProtectionError, PersistenceError, TemplateRenderError, EmailSizeExceededError,
      ConfigurationError]"
  unfolding iter_leaf_error_classes_def
  by (simp add: visit.simps subclasses_def all_classes_def)

lemma leaf_iff: "c \<in> set iter_leaf_error_classes \<longleftrightarrow> (\<forall>d. parent_class d \<noteq> Some c)"
proof -
  have "(\<forall>d. parent_class d \<noteq> Some c) \<longleftrightarrow> subclasses c = []"
    using subclasses_iff [of _ c] by (metis list.set_intros(1) neq_Nil_conv set_empty2 empty_iff)
  also have "\<dots> \<longleftrightarrow> c \<in> set iter_leaf_error_classes"
    by (cases c) (simp_all add: leaf_classes subclasses_def all_classes_def)
  finally show ?thesis by blast
qed

lemma used_codes_all: "\<forall>c \<in> set cs. error_code c \<in> proto \<Longrightarrow> used_codes proto cs = Inr (map error_code cs)"
  by (induction cs) auto

lemma used_codes_in: "used_codes proto cs = Inr ks \<Longrightarrow> \<forall>c \<in> set cs. error_code c \<in> proto"
  by (induction cs arbitrary: ks) (auto split: sum.splits if_splits)

text \<open>
  The start-up self-check passes exactly when the proto enum has the code of every error
  class without subclasses, wherever in the hierarchy the class stands and whether it sets the
  code or inherits it; it then returns the sorted codes of the enum that no such class uses.
\<close>

theorem self_check_result:
  "assert_error_codes_match_proto_enum proto = Inr unused \<longleftrightarrow>
   (\<forall>c. (\<forall>d. parent_class d \<noteq> Some c) \<longrightarrow> error_code c \<in> proto) \<and>
   unused = sorted_of (proto - error_code ` {c. \<forall>d. parent_class d \<noteq> Some c})"
proof -
  have leaves: "set iter_leaf_error_classes = {c. \<forall>d. parent_class d \<noteq> Some c}"
    using leaf_iff by blast
  have "assert_error_codes_match_proto_enum proto = Inr unused \<longleftrightarrow>
    (\<forall>c \<in> set iter_leaf_error_classes. error_code c \<in> proto) \<and>
    unused = sorted_of (proto - error_code ` set iter_leaf_error_classes)"
  proof (cases "used_codes proto iter_leaf_error_classes")
    case (Inl e)
    then have "\<not> (\<forall>c \<in> set iter_leaf_error_classes. error_code c \<in> proto)"
      using used_codes_all [of iter_leaf_error_classes proto] by auto
    with Inl show ?thesis by (simp add: assert_error_codes_match_proto_enum_def)
  next
    case (Inr ks)
    then have all: "\<forall>c \<in> set iter_leaf_error_classes. error_code c \<in> proto" by (rule used_codes_in)
    then have "ks = map error_code iter_leaf_error_classes"
      using used_codes_all [OF all] Inr by simp
    with Inr all show ?thesis by (auto simp: assert_error_codes_match_proto_enum_def)
  qed
  then show ?thesis unfolding leaves by auto
qed

theorem self_check_result_witness:
  "assert_error_codes_match_proto_enum (error_code ` UNIV) =
     Inr (sorted_of (error_code ` UNIV - error_code ` {c. \<forall>d. parent_class d \<noteq> Some c}))"
  using self_check_result [of "error_code ` UNIV"] by blast

end
