(* ===== verification/Regex.thy ===== *)
theory Regex
  imports Prelude
begin

text \<open>
  The fragment of Python's \<open>re\<close> the service uses: character classes, literals, sequence,
  option, bounded repetition and the greedy repetition of a class.  \<open>rx_run r s\<close> lists
  the remainders of \<open>s\<close> after a prefix matched by \<open>r\<close>.  \<open>re_match r s\<close> is
  \<open>re.match(r"^...$", s)\<close>: the anchor \<open>$\<close> (without \<open>re.MULTILINE\<close>) matches at the
  end of the string and also just before a newline that ends it, so \<open>re_match\<close> accepts a
  trailing newline, as Python does.
\<close>

datatype rx =
    Cls "char \<Rightarrow> bool"
  | Lit string
  | Seq rx rx
  | Opt rx
  | Rep nat rx
  | Many "char \<Rightarrow> bool"
  | Some1 "char \<Rightarrow> bool"

fun many :: "(char \<Rightarrow> bool) \<Rightarrow> string \<Rightarrow> string list" where
  "many P [] = [[]]"
| "many P (c # cs) = (if P c then many P cs @ [c # cs] else [c # cs])"

fun strip_prefix :: "string \<Rightarrow> string \<Rightarrow> string list" where
  "strip_prefix [] s = [s]"
| "strip_prefix (p # ps) [] = []"
| "strip_prefix (p # ps) (c # cs) = (if p = c then strip_prefix ps cs else [])"

fun repeat_run :: "nat \<Rightarrow> (string \<Rightarrow> string list) \<Rightarrow> string \<Rightarrow> string list" where
  "repeat_run 0 f s = [s]"
| "repeat_run (Suc n) f s = concat (map (repeat_run n f) (f s))"

primrec rx_run :: "rx \<Rightarrow> string \<Rightarrow> string list" where
  "rx_run (Cls P) s = (case s of [] \<Rightarrow> [] | c # cs \<Rightarrow> if P c then [cs] else [])"
| "rx_run (Lit l) s = strip_prefix l s"
| "rx_run (Seq a b) s = concat (map (rx_run b) (rx_run a s))"
| "rx_run (Opt r) s = rx_run r s @ [s]"
| "rx_run (Rep n r) s = repeat_run n (rx_run r) s"
| "rx_run (Many P) s = many P s"
| "rx_run (Some1 P) s = (case s of [] \<Rightarrow> [] | c # cs \<Rightarrow> if P c then many P cs else [])"

abbreviation newline :: string where
  "newline \<equiv> [CHR 0x0A]"

definition re_match :: "rx \<Rightarrow> string \<Rightarrow> bool" where
  "re_match r s \<longleftrightarrow> (\<exists>rest \<in> set (rx_run r s). rest = [] \<or> rest = newline)"

text \<open>The class of strings a pattern describes, without the anchors' newline.\<close>

definition re_fullmatch :: "rx \<Rightarrow> string \<Rightarrow> bool" where
  "re_fullmatch r s \<longleftrightarrow> [] \<in> set (rx_run r s)"

section \<open>Character classes\<close>

definition is_digit :: "char \<Rightarrow> bool" where
  "is_digit c \<longleftrightarrow> CHR ''0'' \<le> c \<and> c \<le> CHR ''9''"

definition is_lower :: "char \<Rightarrow> bool" where
  "is_lower c \<longleftrightarrow> CHR ''a'' \<le> c \<and> c \<le> CHR ''z''"

definition is_upper :: "char \<Rightarrow> bool" where
  "is_upper c \<longleftrightarrow> CHR ''A'' \<le> c \<and> c \<le> CHR ''Z''"

definition is_lower_hex :: "char \<Rightarrow> bool" where
  "is_lower_hex c \<longleftrightarrow> is_digit c \<or> (CHR ''a'' \<le> c \<and> c \<le> CHR ''f'')"

section \<open>Locality: a run never looks behind the match\<close>

text \<open>
  Every remainder is a suffix, and matching a prefix of the input leaves the same remainder
  with the tail appended.
\<close>

lemma many_suffix: "rest \<in> set (many P s) \<Longrightarrow> \<exists>pre. s = pre @ rest \<and> (\<forall>c \<in> set pre. P c)"
proof (induction s)
  case Nil
  then show ?case by simp
next
  case (Cons c cs)
  show ?case
  proof (cases "rest = c # cs")
    case True
    then show ?thesis by (intro exI [of _ "[]"]) simp
  next
    case False
    with Cons.prems have "P c" and "rest \<in> set (many P cs)"
      by (auto split: if_splits)
    with Cons.IH obtain pre where "cs = pre @ rest" and "\<forall>c \<in> set pre. P c" by blast
    with \<open>P c\<close> show ?thesis by (intro exI [of _ "c # pre"]) simp
  qed
qed

lemma many_append: "\<forall>c \<in> set pre. P c \<Longrightarrow> rest \<in> set (many P (pre @ rest))"
proof (induction pre)
  case Nil
  then show ?case by (cases rest) auto
next
  case (Cons c cs)
  then show ?case by simp
qed

lemma many_iff:
  "rest \<in> set (many P s) \<longleftrightarrow> (\<exists>pre. s = pre @ rest \<and> (\<forall>c \<in> set pre. P c))"
  using many_suffix many_append by blast

lemma strip_prefix_iff: "rest \<in> set (strip_prefix p s) \<longleftrightarrow> s = p @ rest"
  by (induction p s rule: strip_prefix.induct) auto

lemma Cls_iff: "rest \<in> set (rx_run (Cls P) s) \<longleftrightarrow> (\<exists>c. s = c # rest \<and> P c)"
  by (auto split: list.splits if_splits)

lemma repeat_Cls_iff:
  "rest \<in> set (repeat_run n (rx_run (Cls P)) s) \<longleftrightarrow>
   (\<exists>pre. s = pre @ rest \<and> length pre = n \<and> (\<forall>c \<in> set pre. P c))"
proof (induction n arbitrary: s)
  case 0
  then show ?case by auto
next
  case (Suc n)
  show ?case
  proof (cases s)
    case Nil
    then show ?thesis by simp
  next
    case (Cons c cs)
    then show ?thesis
      using Suc.IH [of cs] by (auto simp: Cons_eq_append_conv length_Suc_conv)
  qed
qed

lemma Rep_Cls_iff:
  "rest \<in> set (rx_run (Rep n (Cls P)) s) \<longleftrightarrow>
   (\<exists>pre. s = pre @ rest \<and> length pre = n \<and> (\<forall>c \<in> set pre. P c))"
  using repeat_Cls_iff by simp

lemma Seq_iff:
  "rest \<in> set (rx_run (Seq a b) s) \<longleftrightarrow> (\<exists>mid \<in> set (rx_run a s). rest \<in> set (rx_run b mid))"
  by auto

lemma Lit_iff: "rest \<in> set (rx_run (Lit l) s) \<longleftrightarrow> s = l @ rest"
  by (simp add: strip_prefix_iff)

text \<open>Introduction rules that walk a concrete concatenation from left to right.\<close>

lemma rx_SeqI: "mid \<in> set (rx_run a s) \<Longrightarrow> rest \<in> set (rx_run b mid) \<Longrightarrow> rest \<in> set (rx_run (Seq a b) s)"
  unfolding Seq_iff by (rule bexI)

lemma rx_Rep_SeqI:
  assumes "length pre = n" and "\<And>c. c \<in> set pre \<Longrightarrow> P c" and "rest \<in> set (rx_run b t)"
  shows "rest \<in> set (rx_run (Seq (Rep n (Cls P)) b) (pre @ t))"
proof (rule rx_SeqI [OF _ assms(3)])
  show "t \<in> set (rx_run (Rep n (Cls P)) (pre @ t))"
    unfolding Rep_Cls_iff using assms(1,2) by blast
qed

lemma rx_Lit_SeqI: "rest \<in> set (rx_run b t) \<Longrightarrow> rest \<in> set (rx_run (Seq (Lit l) b) (l @ t))"
  by (rule rx_SeqI [of t]) (simp_all only: Lit_iff)

lemma rx_Lit_Some1_OptI:
  assumes "pre \<noteq> []" and "\<And>c. c \<in> set pre \<Longrightarrow> P c" and "rest \<in> set (rx_run b t)"
  shows "rest \<in> set (rx_run (Seq (Opt (Seq (Lit l) (Some1 P))) b) (l @ pre @ t))"
proof -
  have "t \<in> set (rx_run (Some1 P) (pre @ t))"
    using assms(1,2) by (cases pre) (auto simp: many_iff)
  then have "t \<in> set (rx_run (Seq (Lit l) (Some1 P)) (l @ pre @ t))"
    by (rule rx_Lit_SeqI)
  then have "t \<in> set (rx_run (Opt (Seq (Lit l) (Some1 P))) (l @ pre @ t))"
    unfolding rx_run.simps(4) set_append by (rule UnI1)
  then show ?thesis using assms(3) by (rule rx_SeqI)
qed

lemma rx_Lit_endI: "[] \<in> set (rx_run (Lit l) l)"
  unfolding Lit_iff by simp

lemmas rx_intros = rx_Rep_SeqI rx_Lit_SeqI rx_Lit_Some1_OptI rx_Lit_endI

lemma re_match_fullmatch: "re_fullmatch r s \<Longrightarrow> re_match r s"
  by (auto simp: re_fullmatch_def re_match_def)

text \<open>
  A pattern that is local in the input (its remainders grow with an appended tail) accepts
  a string followed by a newline exactly when it accepts the string.
\<close>

definition rx_local :: "rx \<Rightarrow> bool" where
  "rx_local r \<longleftrightarrow> (\<forall>s rest. rest \<in> set (rx_run r s) \<longleftrightarrow>
      (\<exists>pre. s = pre @ rest \<and> [] \<in> set (rx_run r pre)))"

lemma rx_localI:
  assumes "\<And>s rest. rest \<in> set (rx_run r s) \<longleftrightarrow> (\<exists>pre. s = pre @ rest \<and> Q pre)"
  shows "rx_local r"
proof -
  have "[] \<in> set (rx_run r pre) \<longleftrightarrow> Q pre" for pre
    by (subst assms) simp
  with assms show ?thesis by (simp add: rx_local_def)
qed

lemma rx_local_Lit: "rx_local (Lit l)"
  by (rule rx_localI [where Q = "\<lambda>pre. pre = l"]) (auto simp: strip_prefix_iff)

lemma rx_local_Rep_Cls: "rx_local (Rep n (Cls P))"
  by (rule rx_localI [where Q = "\<lambda>pre. length pre = n \<and> (\<forall>c \<in> set pre. P c)"])
     (simp only: Rep_Cls_iff)

lemma rx_local_Many: "rx_local (Many P)"
  by (rule rx_localI [where Q = "\<lambda>pre. \<forall>c \<in> set pre. P c"]) (simp add: many_iff)

lemma rx_local_Some1: "rx_local (Some1 P)"
proof (rule rx_localI [where Q = "\<lambda>pre. pre \<noteq> [] \<and> (\<forall>c \<in> set pre. P c)"])
  fix s rest
  show "rest \<in> set (rx_run (Some1 P) s) \<longleftrightarrow>
    (\<exists>pre. s = pre @ rest \<and> pre \<noteq> [] \<and> (\<forall>c \<in> set pre. P c))"
  proof (cases s)
    case Nil
    then show ?thesis by simp
  next
    case (Cons c cs)
    then show ?thesis by (auto simp: many_iff Cons_eq_append_conv)
  qed
qed

lemma rx_localD:
  "rx_local r \<Longrightarrow> rest \<in> set (rx_run r s) \<longleftrightarrow> (\<exists>pre. s = pre @ rest \<and> [] \<in> set (rx_run r pre))"
  unfolding rx_local_def by blast

lemma rx_local_Seq:
  assumes a: "rx_local a" and b: "rx_local b"
  shows "rx_local (Seq a b)"
proof (rule rx_localI [where
      Q = "\<lambda>pre. \<exists>p q. pre = p @ q \<and> [] \<in> set (rx_run a p) \<and> [] \<in> set (rx_run b q)"])
  fix s rest
  have A: "mid \<in> set (rx_run a s) \<longleftrightarrow> (\<exists>p. s = p @ mid \<and> [] \<in> set (rx_run a p))" for mid
    by (rule rx_localD [OF a])
  have B: "rest \<in> set (rx_run b mid) \<longleftrightarrow> (\<exists>q. mid = q @ rest \<and> [] \<in> set (rx_run b q))" for mid
    by (rule rx_localD [OF b])
  have "rest \<in> set (rx_run (Seq a b) s) \<longleftrightarrow> (\<exists>p q. s = p @ q @ rest \<and>
      [] \<in> set (rx_run a p) \<and> [] \<in> set (rx_run b q))"
    unfolding Seq_iff Bex_def A B by blast
  then show "rest \<in> set (rx_run (Seq a b) s) \<longleftrightarrow> (\<exists>pre. s = pre @ rest \<and>
    (\<exists>p q. pre = p @ q \<and> [] \<in> set (rx_run a p) \<and> [] \<in> set (rx_run b q)))"
    by fastforce
qed

lemma re_match_local:
  assumes "rx_local r"
  shows "re_match r s \<longleftrightarrow> re_fullmatch r s \<or> (\<exists>t. s = t @ newline \<and> re_fullmatch r t)"
proof -
  have "newline \<in> set (rx_run r s) \<longleftrightarrow> (\<exists>t. s = t @ newline \<and> [] \<in> set (rx_run r t))"
    by (rule rx_localD [OF assms])
  then show ?thesis unfolding re_match_def re_fullmatch_def by blast
qed

end
