(* ===== verification/Ids.thy ===== *)
theory Ids
  imports Errors Regex
begin

text \<open>
  \<open>domain/ids.py\<close>.  The four identifier types are \<open>NewType\<close>s over \<open>str\<close> and
  \<open>int\<close> and exist for the type checker only, so they are type synonyms.
  \<open>new_run_id\<close> draws from \<open>uuid.uuid4()\<close> and is an argument of the use case that calls
  it.  The lemmas characterise the strings \<open>validate_run_id_str\<close> accepts by a decidable
  description (\<open>canonical_uuid\<close>): length 36, dashes at four positions, lower-case
  hexadecimal digits elsewhere.
\<close>

type_synonym run_id = string
type_synonym stage_id = string
type_synonym subscription_id = int
type_synonym user_id = int

definition run_id_rx :: rx where
  "run_id_rx =
     Seq (Rep 8 (Cls is_lower_hex)) (Seq (Lit ''-'')
     (Seq (Rep 4 (Cls is_lower_hex)) (Seq (Lit ''-'')
     (Seq (Rep 4 (Cls is_lower_hex)) (Seq (Lit ''-'')
     (Seq (Rep 4 (Cls is_lower_hex)) (Seq (Lit ''-'')
     (Rep 12 (Cls is_lower_hex)))))))))"

definition run_id_pattern_text :: string where
  "run_id_pattern_text =
     ''^[0-9a-f]{8}-[0-9a-f]{4}-[0-9a-f]{4}-[0-9a-f]{4}-[0-9a-f]{12}$''"

definition validate_run_id_str :: "string \<Rightarrow> exn + run_id" where
  "validate_run_id_str value =
     (if \<not> re_match run_id_rx value
      then Inl (err MalformedRequestError
             [(''run_id'', JStr value), (''expected_pattern'', JStr run_id_pattern_text)])
      else Inr value)"

section \<open>What the pattern accepts\<close>

text \<open>The layout of a canonical UUID text: which positions hold a dash.\<close>

definition dash_positions :: "nat set" where
  "dash_positions = {8, 13, 18, 23}"

definition canonical_uuid :: "string \<Rightarrow> bool" where
  "canonical_uuid s \<longleftrightarrow> length s = 36 \<and>
     (\<forall>i < 36. if i \<in> dash_positions then s ! i = CHR ''-'' else is_lower_hex (s ! i))"

lemma rx_local_run_id: "rx_local run_id_rx"
  unfolding run_id_rx_def
  by (intro rx_local_Seq rx_local_Lit rx_local_Rep_Cls)

text \<open>Matching a group of a class followed by more: split the input after the group.\<close>

lemma run_Rep_Seq:
  "[] \<in> set (rx_run (Seq (Rep n (Cls P)) b) s) \<longleftrightarrow>
   n \<le> length s \<and> (\<forall>c \<in> set (take n s). P c) \<and> [] \<in> set (rx_run b (drop n s))"
proof -
  have "(\<exists>mid. (\<exists>pre. s = pre @ mid \<and> length pre = n \<and> (\<forall>c \<in> set pre. P c)) \<and> [] \<in> set (rx_run b mid))
    \<longleftrightarrow> n \<le> length s \<and> (\<forall>c \<in> set (take n s). P c) \<and> [] \<in> set (rx_run b (drop n s))"
    (is "?L \<longleftrightarrow> ?R")
  proof
    assume ?L then show ?R by auto
  next
    assume ?R then show ?L
      by (intro exI [of _ "drop n s"] conjI exI [of _ "take n s"]) auto
  qed
  then show ?thesis unfolding Seq_iff Bex_def Rep_Cls_iff .
qed

lemma run_Lit_Seq:
  "[] \<in> set (rx_run (Seq (Lit l) b) s) \<longleftrightarrow>
   take (length l) s = l \<and> [] \<in> set (rx_run b (drop (length l) s))"
proof -
  have "(\<exists>mid. s = l @ mid \<and> [] \<in> set (rx_run b mid)) \<longleftrightarrow>
    take (length l) s = l \<and> [] \<in> set (rx_run b (drop (length l) s))" (is "?L \<longleftrightarrow> ?R")
  proof
    assume ?L then show ?R by auto
  next
    assume ?R then show ?L by (metis append_take_drop_id)
  qed
  then show ?thesis unfolding Seq_iff Bex_def Lit_iff .
qed

lemma run_Rep_end:
  "[] \<in> set (rx_run (Rep n (Cls P)) s) \<longleftrightarrow> length s = n \<and> (\<forall>c \<in> set s. P c)"
  unfolding Rep_Cls_iff by auto

lemma ball_set_take_drop:
  "n + k \<le> length s \<Longrightarrow> (\<forall>c \<in> set (take n (drop k s)). P c) \<longleftrightarrow> (\<forall>i. k \<le> i \<and> i < k + n \<longrightarrow> P (s ! i))"
proof
  assume n: "n + k \<le> length s" and all: "\<forall>c \<in> set (take n (drop k s)). P c"
  show "\<forall>i. k \<le> i \<and> i < k + n \<longrightarrow> P (s ! i)"
  proof (intro allI impI)
    fix i assume i: "k \<le> i \<and> i < k + n"
    then have "take n (drop k s) ! (i - k) = s ! i" and "i - k < length (take n (drop k s))"
      using n by auto
    then show "P (s ! i)" using all nth_mem by metis
  qed
next
  assume n: "n + k \<le> length s" and all: "\<forall>i. k \<le> i \<and> i < k + n \<longrightarrow> P (s ! i)"
  show "\<forall>c \<in> set (take n (drop k s)). P c"
    using n all by (auto simp: in_set_conv_nth)
qed

lemma take_drop_dash:
  "k < length s \<Longrightarrow> take (Suc 0) (drop k s) = [c] \<longleftrightarrow> s ! k = c"
  by (simp add: take_Suc_conv_app_nth [of 0] hd_drop_conv_nth)

lemma all_less_36:
  "(\<forall>i < (36::nat). P i) \<longleftrightarrow>
   (\<forall>i. i < 8 \<longrightarrow> P i) \<and> P 8 \<and> (\<forall>i. 9 \<le> i \<and> i < 13 \<longrightarrow> P i) \<and> P 13 \<and>
   (\<forall>i. 14 \<le> i \<and> i < 18 \<longrightarrow> P i) \<and> P 18 \<and> (\<forall>i. 19 \<le> i \<and> i < 23 \<longrightarrow> P i) \<and> P 23 \<and>
   (\<forall>i. 24 \<le> i \<and> i < 36 \<longrightarrow> P i)" (is "?L \<longleftrightarrow> ?R")
proof
  assume ?L then show ?R by auto
next
  assume r: ?R
  show ?L
  proof (intro allI impI)
    fix i :: nat assume "i < 36"
    then consider "i < 8" | "i = 8" | "9 \<le> i \<and> i < 13" | "i = 13" | "14 \<le> i \<and> i < 18"
      | "i = 18" | "19 \<le> i \<and> i < 23" | "i = 23" | "24 \<le> i \<and> i < 36"
      by linarith
    then show "P i" using r by cases auto
  qed
qed

lemma run_id_fullmatch: "re_fullmatch run_id_rx s \<longleftrightarrow> canonical_uuid s"
proof (cases "length s = 36")
  case False
  then have "\<not> re_fullmatch run_id_rx s"
    unfolding re_fullmatch_def run_id_rx_def run_Rep_Seq run_Lit_Seq run_Rep_end by auto
  with False show ?thesis by (simp add: canonical_uuid_def)
next
  case True
  have one: "length ''-'' = 1" by simp
  have groups: "re_fullmatch run_id_rx s \<longleftrightarrow>
     (\<forall>c \<in> set (take 8 (drop 0 s)). is_lower_hex c) \<and> take 1 (drop 8 s) = ''-'' \<and>
     (\<forall>c \<in> set (take 4 (drop 9 s)). is_lower_hex c) \<and> take 1 (drop 13 s) = ''-'' \<and>
     (\<forall>c \<in> set (take 4 (drop 14 s)). is_lower_hex c) \<and> take 1 (drop 18 s) = ''-'' \<and>
     (\<forall>c \<in> set (take 4 (drop 19 s)). is_lower_hex c) \<and> take 1 (drop 23 s) = ''-'' \<and>
     (\<forall>c \<in> set (take 12 (drop 24 s)). is_lower_hex c)"
    unfolding re_fullmatch_def run_id_rx_def run_Rep_Seq run_Lit_Seq run_Rep_end one
    using True by simp
  have first: "(\<forall>c \<in> set (take 8 s). is_lower_hex c) \<longleftrightarrow> (\<forall>i < 8. is_lower_hex (s ! i))"
    using True ball_set_take_drop [of 8 0 s is_lower_hex] by simp
  have last: "(\<forall>c \<in> set (drop 24 s). is_lower_hex c) \<longleftrightarrow>
      (\<forall>i. 24 \<le> i \<and> i < 36 \<longrightarrow> is_lower_hex (s ! i))"
    using True ball_set_take_drop [of 12 24 s is_lower_hex] by simp
  show ?thesis
    unfolding groups canonical_uuid_def all_less_36
    using True by (simp add: ball_set_take_drop take_drop_dash dash_positions_def first last)
qed

lemma validate_run_id_str_Inr:
  "validate_run_id_str v = Inr r \<longleftrightarrow>
   r = v \<and> (canonical_uuid v \<or> (\<exists>t. v = t @ newline \<and> canonical_uuid t))"
  by (auto simp: validate_run_id_str_def re_match_local [OF rx_local_run_id] run_id_fullmatch)

section \<open>Properties\<close>

text \<open>
  \<open>validate_run_id_str\<close> returns its argument, and it accepts exactly the canonical
  lower-case UUID texts and, because \<open>$\<close> also matches before a newline that ends the
  string, those texts followed by one newline.
\<close>

theorem validate_run_id_str_accepts:
  "(case validate_run_id_str v of
      Inr r \<Rightarrow> r = v \<and> (canonical_uuid v \<or> (\<exists>t. v = t @ newline \<and> canonical_uuid t))
    | Inl e \<Rightarrow> exn_is e MalformedRequestError \<and> \<not> canonical_uuid v)"
proof (cases "validate_run_id_str v")
  case (Inr r)
  then show ?thesis using validate_run_id_str_Inr [of v r] by auto
next
  case (Inl e)
  then have "exn_is e MalformedRequestError"
    by (auto simp: validate_run_id_str_def split: if_splits)
  moreover have "\<not> canonical_uuid v" using Inl validate_run_id_str_Inr [of v v] by auto
  ultimately show ?thesis using Inl by simp
qed

end
