(* ===== verification/Clock.thy ===== *)
theory Clock
  imports Errors Regex
begin

text \<open>
  Timestamps (\<open>application/ports/clock.py\<close>).  A Python \<open>datetime\<close> is an instant in
  microseconds since 0001-01-01T00:00:00 UTC together with whether it carries a time zone;
  the offset itself only matters to the text form, which is always UTC.  \<open>iso_z\<close> is the
  fixed-width text form stored in every timestamp column.  The theorems show that this form
  is well-formed and that comparing two stored texts compares the instants: SQLite's TEXT
  comparison and \<open>ORDER BY\<close> on such columns are chronological, which is why the table
  rows of the later theories hold instants.
\<close>

datatype datetime = DT (dt_us: int) (dt_aware: bool)

text \<open>What the \<open>Clock\<close> port returns: a time-zone-aware UTC instant.\<close>

abbreviation utc :: "int \<Rightarrow> datetime" where
  "utc t \<equiv> DT t True"

lemma utc_dt_us [simp]: "dt_aware v \<Longrightarrow> utc (dt_us v) = v"
  by (cases v) simp

section \<open>The proleptic Gregorian calendar\<close>

definition is_leap :: "nat \<Rightarrow> bool" where
  "is_leap y \<longleftrightarrow> y mod 4 = 0 \<and> (y mod 100 \<noteq> 0 \<or> y mod 400 = 0)"

definition days_in_year :: "nat \<Rightarrow> nat" where
  "days_in_year y = (if is_leap y then 366 else 365)"

definition days_in_month :: "nat \<Rightarrow> nat \<Rightarrow> nat" where
  "days_in_month y m =
     (if m = 2 then (if is_leap y then 29 else 28)
      else if m = 4 \<or> m = 6 \<or> m = 9 \<or> m = 11 then 30 else 31)"

text \<open>Year and day within it, counting from year \<open>y\<close> on; likewise for the month.\<close>

function split_year :: "nat \<Rightarrow> nat \<Rightarrow> nat \<times> nat" where
  "split_year y d = (if d < days_in_year y then (y, d) else split_year (Suc y) (d - days_in_year y))"
  by pat_completeness auto
termination
  by (relation "measure (\<lambda>(y, d). d)") (auto simp: days_in_year_def split: if_splits)

declare split_year.simps [simp del]

function split_month :: "nat \<Rightarrow> nat \<Rightarrow> nat \<Rightarrow> nat \<times> nat" where
  "split_month y m d =
     (if 12 \<le> m \<or> d < days_in_month y m then (m, d)
      else split_month y (Suc m) (d - days_in_month y m))"
  by pat_completeness auto
termination
  by (relation "measure (\<lambda>(y, m, d). 12 - m)") auto

declare split_month.simps [simp del]

section \<open>\<open>iso_z\<close>\<close>

definition date_text :: "nat \<Rightarrow> string" where
  "date_text days =
     (let (y, yd) = split_year 1 days; (m, md) = split_month y 1 yd
      in pad_digits 4 y @ ''-'' @ pad_digits 2 m @ ''-'' @ pad_digits 2 (Suc md))"

text \<open>\<open>tod\<close> is the number of microseconds since midnight.\<close>

definition time_text :: "nat \<Rightarrow> string" where
  "time_text tod =
     (let s = tod div 1000000; mi = s div 60
      in pad_digits 2 (mi div 60) @ '':'' @ pad_digits 2 (mi mod 60) @ '':''
         @ pad_digits 2 (s mod 60) @ ''.'' @ pad_digits 6 (tod mod 1000000))"

definition us_per_day :: nat where
  "us_per_day = 86400000000"

definition iso_text :: "int \<Rightarrow> string" where
  "iso_text t =
     date_text (nat t div us_per_day) @ ''T'' @ time_text (nat t mod us_per_day) @ ''Z''"

definition iso_z :: "datetime \<Rightarrow> exn + string" where
  "iso_z v = (if \<not> dt_aware v then Inl (PyExc ValueError []) else Inr (iso_text (dt_us v)))"

text \<open>\<open>isoformat()\<close> of a UTC datetime: no fraction when it is zero, and the offset spelled out.\<close>

definition isoformat_text :: "int \<Rightarrow> string" where
  "isoformat_text t =
     (let tod = nat t mod us_per_day
      in date_text (nat t div us_per_day) @ ''T''
         @ (if tod mod 1000000 = 0 then take 8 (time_text tod) else time_text tod) @ ''+00:00'')"

text \<open>The instants a Python \<open>datetime\<close> can hold: years 1 to 9999.\<close>

definition representable :: "int \<Rightarrow> bool" where
  "representable t \<longleftrightarrow> 0 \<le> t \<and> fst (split_year 1 (nat t div us_per_day)) \<le> 9999"

definition iso_z_pattern :: rx where
  "iso_z_pattern =
     Seq (Rep 4 (Cls is_digit)) (Seq (Lit ''-'') (Seq (Rep 2 (Cls is_digit)) (Seq (Lit ''-'')
     (Seq (Rep 2 (Cls is_digit)) (Seq (Lit ''T'') (Seq (Rep 2 (Cls is_digit)) (Seq (Lit '':'')
     (Seq (Rep 2 (Cls is_digit)) (Seq (Lit '':'') (Seq (Rep 2 (Cls is_digit))
     (Seq (Opt (Seq (Lit ''.'') (Some1 is_digit))) (Lit ''Z''))))))))))))"

definition is_iso_z :: "string \<Rightarrow> bool" where
  "is_iso_z s = re_match iso_z_pattern s"

section \<open>Fixed-width digits\<close>

lemma length_pad_digits [simp]: "length (pad_digits w n) = w"
  by (induction w arbitrary: n) auto

lemma of_digit_char: "(of_char (digit_char n) :: nat) = 48 + n mod 10"
proof -
  have "48 + n mod 10 < 256" using mod_less_divisor [of 10 n] by linarith
  then show ?thesis by (simp add: digit_char_def)
qed

lemma digit_char_less: "a mod 10 < b mod 10 \<Longrightarrow> digit_char a < digit_char b"
  by (simp add: less_char_def of_digit_char)

lemma digit_char_digit: "is_digit (digit_char n)"
proof -
  have "n mod 10 < 10" by simp
  moreover have "(of_char (CHR ''0'') :: nat) = 48" and "(of_char (CHR ''9'') :: nat) = 57"
    by simp_all
  ultimately show ?thesis unfolding is_digit_def less_eq_char_def of_digit_char by linarith
qed

lemma pad_digits_digit: "c \<in> set (pad_digits w n) \<Longrightarrow> is_digit c"
  by (induction w arbitrary: n) (auto simp: digit_char_digit)

lemma lex_append:
  fixes x1 x2 y1 y2 :: "'a :: linorder list"
  assumes "length x1 = length x2"
  shows "x1 @ y1 < x2 @ y2 \<longleftrightarrow> x1 < x2 \<or> x1 = x2 \<and> y1 < y2"
  using assms by (induction x1 x2 rule: list_induct2) auto

lemma div_mod_less:
  fixes a b k :: nat
  assumes "a < b" and "0 < k"
  shows "a div k < b div k \<or> a div k = b div k \<and> a mod k < b mod k"
proof (cases "a div k = b div k")
  case True
  have "a = k * (a div k) + a mod k" and "b = k * (b div k) + b mod k" by simp_all
  with True assms(1) have "a mod k < b mod k" by (metis nat_add_left_cancel_less)
  with True show ?thesis by simp
next
  case False
  moreover have "a div k \<le> b div k" using assms(1) by (simp add: div_le_mono)
  ultimately show ?thesis by simp
qed

lemma pad_digits_less: "a < b \<Longrightarrow> b < 10 ^ w \<Longrightarrow> pad_digits w a < pad_digits w b"
proof (induction w arbitrary: a b)
  case 0
  then show ?case by simp
next
  case (Suc w)
  from Suc.prems(2) have bw: "b div 10 < 10 ^ w" by (simp add: less_mult_imp_div_less mult.commute)
  show ?case
  proof (cases "a div 10 < b div 10")
    case True
    with Suc.IH bw show ?thesis by (simp add: lex_append)
  next
    case False
    with div_mod_less [OF Suc.prems(1), of 10] have "a div 10 = b div 10" and "a mod 10 < b mod 10"
      by simp_all
    then show ?thesis by (simp add: lex_append digit_char_less)
  qed
qed

text \<open>A field of fixed width followed by anything compares as the numbers do.\<close>

lemma pad_digits_append_less:
  assumes "a < b \<or> a = b \<and> y1 < y2" and "b < 10 ^ w"
  shows "pad_digits w a @ y1 < pad_digits w b @ y2"
  using assms pad_digits_less [of a b w] by (auto simp: lex_append)

section \<open>The calendar is monotone\<close>

lemma split_year_less:
  "d1 < d2 \<Longrightarrow> fst (split_year y d1) < fst (split_year y d2) \<or>
     fst (split_year y d1) = fst (split_year y d2) \<and> snd (split_year y d1) < snd (split_year y d2)"
proof (induction y d2 arbitrary: d1 rule: split_year.induct)
  case (1 y d2)
  have ge: "y \<le> fst (split_year y d)" for y d
  proof (induction y d rule: split_year.induct)
    case (1 y d)
    then show ?case by (subst split_year.simps) (auto dest: Suc_leD)
  qed
  show ?case
  proof (cases "d2 < days_in_year y")
    case True
    with "1.prems" show ?thesis by (simp add: split_year.simps [of y])
  next
    case False
    then have d2: "split_year y d2 = split_year (Suc y) (d2 - days_in_year y)"
      by (subst split_year.simps) simp
    show ?thesis
    proof (cases "d1 < days_in_year y")
      case True
      then have "fst (split_year y d1) = y" by (subst split_year.simps) simp
      with d2 ge [of "Suc y" "d2 - days_in_year y"] show ?thesis by simp
    next
      case d1: False
      then have "split_year y d1 = split_year (Suc y) (d1 - days_in_year y)"
        by (subst split_year.simps) simp
      with d2 "1.IH" [OF False, of "d1 - days_in_year y"] "1.prems" d1 False show ?thesis
        by simp
    qed
  qed
qed

lemma split_year_bound: "snd (split_year y d) < days_in_year (fst (split_year y d))"
proof (induction y d rule: split_year.induct)
  case (1 y d)
  then show ?case by (subst (1 2) split_year.simps) auto
qed

lemma split_month_less:
  "d1 < d2 \<Longrightarrow> fst (split_month y m d1) < fst (split_month y m d2) \<or>
     fst (split_month y m d1) = fst (split_month y m d2)
     \<and> snd (split_month y m d1) < snd (split_month y m d2)"
proof (induction y m d2 arbitrary: d1 rule: split_month.induct)
  case (1 y m d2)
  have ge: "m \<le> fst (split_month y m d)" for m d
  proof (induction y m d rule: split_month.induct)
    case (1 y m d)
    then show ?case by (subst split_month.simps) (auto dest: Suc_leD)
  qed
  show ?case
  proof (cases "12 \<le> m \<or> d2 < days_in_month y m")
    case True
    with "1.prems" show ?thesis by (auto simp: split_month.simps [of y m])
  next
    case False
    then have d2: "split_month y m d2 = split_month y (Suc m) (d2 - days_in_month y m)"
      by (subst split_month.simps) simp
    show ?thesis
    proof (cases "d1 < days_in_month y m")
      case True
      then have "fst (split_month y m d1) = m" by (subst split_month.simps) simp
      with d2 ge [of "Suc m" "d2 - days_in_month y m"] show ?thesis by simp
    next
      case d1: False
      with False have "split_month y m d1 = split_month y (Suc m) (d1 - days_in_month y m)"
        by (subst split_month.simps) simp
      with d2 "1.IH" [OF False, of "d1 - days_in_month y m"] "1.prems" d1 False show ?thesis
        by simp
    qed
  qed
qed

lemma split_month_fst: "m \<le> 12 \<Longrightarrow> fst (split_month y m d) \<le> 12"
proof (induction y m d rule: split_month.induct)
  case (1 y m d)
  then show ?case by (subst split_month.simps) auto
qed

lemma days_in_month_le: "days_in_month y m \<le> 31"
  by (simp add: days_in_month_def)

lemma split_month_snd:
  "m \<le> 12 \<Longrightarrow> d < (\<Sum>k \<leftarrow> [m..<13]. days_in_month y k) \<Longrightarrow> snd (split_month y m d) < 31"
proof (induction y m d rule: split_month.induct)
  case (1 y m d)
  have le: "days_in_month y m \<le> 31" by (rule days_in_month_le)
  have sum: "(\<Sum>k \<leftarrow> [m..<13]. days_in_month y k) =
      days_in_month y m + (\<Sum>k \<leftarrow> [Suc m..<13]. days_in_month y k)"
    using "1.prems"(1) by (simp add: upt_conv_Cons)
  show ?case
  proof (cases "12 \<le> m \<or> d < days_in_month y m")
    case True
    have "d < 31"
    proof (cases "m = 12")
      case True
      with "1.prems"(2) le show ?thesis by (simp add: upt_conv_Cons)
    next
      case False
      with \<open>12 \<le> m \<or> d < days_in_month y m\<close> "1.prems"(1) le show ?thesis by simp
    qed
    with True show ?thesis by (subst split_month.simps) simp
  next
    case False
    moreover from False "1.prems" have "Suc m \<le> 12" by simp
    moreover from False "1.prems"(2) sum
    have "d - days_in_month y m < (\<Sum>k \<leftarrow> [Suc m..<13]. days_in_month y k)" by linarith
    ultimately have "snd (split_month y (Suc m) (d - days_in_month y m)) < 31"
      by (rule "1.IH")
    with False show ?thesis by (subst split_month.simps) simp
  qed
qed

lemma days_in_year_sum: "(\<Sum>k \<leftarrow> [1..<13]. days_in_month y k) = days_in_year y"
  by (simp add: upt_rec days_in_month_def days_in_year_def)

lemma month_day_bounds:
  assumes "d < days_in_year y"
  shows "fst (split_month y 1 d) \<le> 12" and "snd (split_month y 1 d) < 31"
proof -
  show "fst (split_month y 1 d) \<le> 12" by (rule split_month_fst) simp
  show "snd (split_month y 1 d) < 31"
    by (rule split_month_snd) (simp_all only: days_in_year_sum assms)
qed

section \<open>Text order is chronological order\<close>

lemma date_text_less:
  assumes "d1 < d2" and "fst (split_year 1 d2) \<le> 9999"
  shows "date_text d1 @ y1 < date_text d2 @ y2"
proof -
  obtain Y1 r1 Y2 r2 where y: "split_year 1 d1 = (Y1, r1)" "split_year 1 d2 = (Y2, r2)"
    by (meson surj_pair)
  obtain M1 D1 M2 D2 where m: "split_month Y1 1 r1 = (M1, D1)" "split_month Y2 1 r2 = (M2, D2)"
    by (meson surj_pair)
  have "Y1 < Y2 \<or> Y1 = Y2 \<and> r1 < r2" using split_year_less [OF assms(1), of 1] y by simp
  moreover have "r2 < days_in_year Y2" using split_year_bound [of 1 d2] y by simp
  moreover have "M2 \<le> 12" "D2 < 31" using month_day_bounds [OF calculation(2)] m by simp_all
  moreover have "M1 < M2 \<or> M1 = M2 \<and> D1 < D2" if "Y1 = Y2" "r1 < r2"
    using split_month_less [OF that(2), of Y1 1] m that(1) by simp
  ultimately show ?thesis using assms(2) y m
    by (auto simp: date_text_def intro!: pad_digits_append_less)
qed

lemma four_fields_less:
  assumes "h1 < h2 \<or> h1 = h2 \<and> (m1 < m2 \<or> m1 = m2 \<and> (s1 < s2 \<or> s1 = s2 \<and> u1 < u2))"
    and "h2 < 10 ^ 2" and "m2 < 10 ^ 2" and "s2 < 10 ^ 2" and "u2 < 10 ^ 6"
  shows "pad_digits 2 h1 @ '':'' @ pad_digits 2 m1 @ '':'' @ pad_digits 2 s1 @ ''.'' @ pad_digits 6 u1 @ y1
       < pad_digits 2 h2 @ '':'' @ pad_digits 2 m2 @ '':'' @ pad_digits 2 s2 @ ''.'' @ pad_digits 6 u2 @ y2"
  using assms(1) pad_digits_less [OF _ assms(2), of h1] pad_digits_less [OF _ assms(3), of m1]
    pad_digits_less [OF _ assms(4), of s1] pad_digits_less [OF _ assms(5), of u1]
  by (auto simp: lex_append)

lemma time_text_less:
  assumes "t1 < t2" and "t2 < us_per_day"
  shows "time_text t1 @ y1 < time_text t2 @ y2"
proof -
  define sa sb where "sa = t1 div 1000000" and "sb = t2 div 1000000"
  have "sa < sb \<or> sa = sb \<and> t1 mod 1000000 < t2 mod 1000000"
    unfolding sa_def sb_def by (rule div_mod_less [OF assms(1)]) simp
  moreover have "sa div 60 < sb div 60 \<or> sa div 60 = sb div 60 \<and> sa mod 60 < sb mod 60"
    if "sa < sb"
    by (rule div_mod_less [OF that]) simp
  moreover have "sa div 60 div 60 < sb div 60 div 60 \<or>
      sa div 60 div 60 = sb div 60 div 60 \<and> sa div 60 mod 60 < sb div 60 mod 60"
    if "sa div 60 < sb div 60"
    by (rule div_mod_less [OF that]) simp
  ultimately have fields: "sa div 60 div 60 < sb div 60 div 60 \<or>
      sa div 60 div 60 = sb div 60 div 60 \<and> (sa div 60 mod 60 < sb div 60 mod 60 \<or>
      sa div 60 mod 60 = sb div 60 mod 60 \<and> (sa mod 60 < sb mod 60 \<or>
      sa mod 60 = sb mod 60 \<and> t1 mod 1000000 < t2 mod 1000000))"
    by metis
  have "sb < 60 * 60 * 24" using assms(2) by (simp add: sb_def us_per_day_def less_mult_imp_div_less)
  then have "sb div 60 < 60 * 24" by (simp add: less_mult_imp_div_less)
  then have h: "sb div 60 div 60 < 10 ^ 2" by (simp add: less_mult_imp_div_less)
  have "n mod 60 < 60" for n :: nat by simp
  then have sixty: "n mod 60 < 10 ^ 2" for n :: nat by (rule order.strict_trans) simp
  have "t2 mod 1000000 < 10 ^ 6" by simp
  from four_fields_less [OF fields h sixty sixty this] show ?thesis
    by (simp only: time_text_def Let_def append.assoc sa_def sb_def)
qed

lemma us_split: "nat t mod us_per_day < us_per_day"
  by (simp add: us_per_day_def)

lemma iso_text_strict:
  assumes "a < b" and "0 \<le> a" and "representable b"
  shows "iso_text a < iso_text b"
proof -
  let ?D = us_per_day
  have "nat a < nat b" using assms by simp
  then have "nat a div ?D < nat b div ?D \<or>
      nat a div ?D = nat b div ?D \<and> nat a mod ?D < nat b mod ?D"
    by (rule div_mod_less) (simp add: us_per_day_def)
  then show ?thesis
  proof
    assume "nat a div ?D < nat b div ?D"
    with assms(3) show ?thesis
      unfolding iso_text_def by (intro date_text_less) (simp_all add: representable_def)
  next
    assume eq: "nat a div ?D = nat b div ?D \<and> nat a mod ?D < nat b mod ?D"
    then have "time_text (nat a mod ?D) @ ''Z'' < time_text (nat b mod ?D) @ ''Z''"
      by (intro time_text_less us_split) simp
    with eq show ?thesis by (simp add: iso_text_def lex_append)
  qed
qed

lemma iso_text_less_iff:
  assumes "representable a" and "representable b"
  shows "iso_text a < iso_text b \<longleftrightarrow> a < b"
proof -
  have "0 \<le> a" and "0 \<le> b" using assms by (simp_all add: representable_def)
  with assms have "a < b \<Longrightarrow> iso_text a < iso_text b" and "b < a \<Longrightarrow> iso_text b < iso_text a"
    by (simp_all add: iso_text_strict)
  then show ?thesis by (metis less_irrefl less_trans linorder_neqE)
qed

lemma iso_text_inj: "representable a \<Longrightarrow> representable b \<Longrightarrow> iso_text a = iso_text b \<Longrightarrow> a = b"
  by (metis iso_text_less_iff less_irrefl linorder_neqE)

lemma length_date_text: "length (date_text d) = 10"
  by (simp add: date_text_def Let_def split: prod.splits)

lemma length_time_text: "length (time_text d) = 15"
  by (simp add: time_text_def Let_def)

lemma length_iso_text: "length (iso_text t) = 27"
  by (simp add: iso_text_def length_date_text length_time_text)

lemma iso_text_matches: "re_fullmatch iso_z_pattern (iso_text t)"
proof -
  obtain y yd m md where d: "split_year 1 (nat t div us_per_day) = (y, yd)" "split_month y 1 yd = (m, md)"
    by (meson surj_pair)
  have digit: "\<And>w n c. c \<in> set (pad_digits w n) \<Longrightarrow> is_digit c" by (rule pad_digits_digit)
  have six: "\<And>n. pad_digits 6 n \<noteq> []"
    by (metis length_pad_digits list.size(3) zero_neq_numeral)
  show ?thesis
    unfolding re_fullmatch_def iso_z_pattern_def iso_text_def date_text_def time_text_def d Let_def
      prod.case append.assoc
    by (intro rx_intros) (simp_all only: length_pad_digits digit six not_False_eq_True)
qed

section \<open>Properties\<close>

lemma representable_1: "representable 1"
  by (simp add: representable_def split_year.simps days_in_year_def is_leap_def us_per_day_def)

lemma representable_2: "representable 2"
  by (simp add: representable_def split_year.simps days_in_year_def is_leap_def us_per_day_def)

text \<open>
  On the instants a \<open>datetime\<close> can hold, comparing two stored timestamp texts
  compares the instants, and equal texts come from equal instants; every stored text has the
  same length and passes \<open>is_iso_z\<close>.
\<close>

theorem iso_z_faithful:
  assumes "representable a" and "representable b"
    and "iso_z (utc a) = Inr s" and "iso_z (utc b) = Inr t"
  shows "(s < t \<longleftrightarrow> a < b) \<and> (s = t \<longleftrightarrow> a = b) \<and> length s = length t \<and> is_iso_z s"
proof -
  have st: "s = iso_text a" "t = iso_text b" using assms(3,4) by (simp_all add: iso_z_def)
  show ?thesis
    using iso_text_less_iff [OF assms(1,2)] iso_text_inj [OF assms(1,2)] iso_text_matches [of a]
    by (auto simp: st length_iso_text is_iso_z_def intro: re_match_fullmatch)
qed

theorem iso_z_faithful_witness: "iso_text 1 < iso_text 2"
  using iso_z_faithful [OF representable_1 representable_2] by (simp add: iso_z_def)

end
