(* ===== verification/Enums.thy ===== *)
theory Enums
  imports Errors
begin

text \<open>
  The \<open>StrEnum\<close>s of the domain.  Each is a datatype with its members in definition order,
  its \<open>.value\<close>, and the lookup by value (\<open>RunState("SENT")\<close>), which raises
  \<open>ValueError\<close> for an unknown text.  The lookup is one generic function; the locale
  \<open>str_enum\<close> states what it needs (distinct values, all members listed) and proves that
  reading a value back gives the member, and every interpretation discharges this for one
  enum.  A constructor that two enums share is prefixed in one of them (\<open>STAGE_FAILED\<close>).
\<close>

definition enum_of_value :: "('a \<Rightarrow> string) \<Rightarrow> 'a list \<Rightarrow> string \<Rightarrow> exn + 'a" where
  "enum_of_value value members s =
     (case List.find (\<lambda>x. value x = s) members of
        Some x \<Rightarrow> Inr x
      | None \<Rightarrow> Inl (PyExc ValueError s))"

locale str_enum =
  fixes "value" :: "'a \<Rightarrow> string" and members :: "'a list"
  assumes distinct_values: "distinct (map value members)"
    and all_members: "x \<in> set members"
begin

lemma value_inject: "value x = value y \<longleftrightarrow> x = y"
  using distinct_values all_members by (metis distinct_map inj_onD)

lemma of_value_Inr: "enum_of_value value members s = Inr x \<longleftrightarrow> s = value x"
proof (cases "List.find (\<lambda>x. value x = s) members")
  case None
  then have "s \<noteq> value x" using all_members by (auto simp: find_None_iff)
  with None show ?thesis by (simp add: enum_of_value_def)
next
  case (Some y)
  then have "value y = s" by (auto simp: find_Some_iff)
  with Some show ?thesis using value_inject by (auto simp: enum_of_value_def)
qed

lemma of_value_value: "enum_of_value value members (value x) = Inr x"
  by (simp add: of_value_Inr)

lemma of_value_Inl: "enum_of_value value members s = Inl e \<longleftrightarrow>
    s \<notin> range value \<and> e = PyExc ValueError s"
proof (cases "enum_of_value value members s")
  case (Inl d)
  then have "d = PyExc ValueError s" by (auto simp: enum_of_value_def split: option.splits)
  moreover have "s \<notin> range value" using Inl of_value_value by force
  ultimately show ?thesis using Inl by auto
next
  case (Inr x)
  then have "s = value x" by (simp add: of_value_Inr)
  with Inr show ?thesis by simp
qed

end

section \<open>Run and stage states\<close>

datatype run_state = INITIATED | AGGREGATING | READY | SENDING | SENT | FAILED | ORPHANED

primrec run_state_value :: "run_state \<Rightarrow> string" where
  "run_state_value INITIATED = ''INITIATED''"
| "run_state_value AGGREGATING = ''AGGREGATING''"
| "run_state_value READY = ''READY''"
| "run_state_value SENDING = ''SENDING''"
| "run_state_value SENT = ''SENT''"
| "run_state_value FAILED = ''FAILED''"
| "run_state_value ORPHANED = ''ORPHANED''"

definition run_states :: "run_state list" where
  "run_states = [INITIATED, AGGREGATING, READY, SENDING, SENT, FAILED, ORPHANED]"

interpretation run_state_enum: str_enum run_state_value run_states
proof
  show "distinct (map run_state_value run_states)" by (simp add: run_states_def)
  show "x \<in> set run_states" for x by (cases x) (simp_all add: run_states_def)
qed

datatype stage_state = PENDING | IN_PROGRESS | SUBMITTED | ACCEPTED | RETRIED | TIMEOUT | STAGE_FAILED

primrec stage_state_value :: "stage_state \<Rightarrow> string" where
  "stage_state_value PENDING = ''PENDING''"
| "stage_state_value IN_PROGRESS = ''IN_PROGRESS''"
| "stage_state_value SUBMITTED = ''SUBMITTED''"
| "stage_state_value ACCEPTED = ''ACCEPTED''"
| "stage_state_value RETRIED = ''RETRIED''"
| "stage_state_value TIMEOUT = ''TIMEOUT''"
| "stage_state_value STAGE_FAILED = ''FAILED''"

definition stage_states :: "stage_state list" where
  "stage_states = [PENDING, IN_PROGRESS, SUBMITTED, ACCEPTED, RETRIED, TIMEOUT, STAGE_FAILED]"

interpretation stage_state_enum: str_enum stage_state_value stage_states
proof
  show "distinct (map stage_state_value stage_states)" by (simp add: stage_states_def)
  show "x \<in> set stage_states" for x by (cases x) (simp_all add: stage_states_def)
qed

section \<open>Enums of the aggregates\<close>

datatype attachment_mode = SINGLE_AGGREGATED | PER_STAGE

primrec attachment_mode_value :: "attachment_mode \<Rightarrow> string" where
  "attachment_mode_value SINGLE_AGGREGATED = ''SINGLE_AGGREGATED''"
| "attachment_mode_value PER_STAGE = ''PER_STAGE''"

definition attachment_modes :: "attachment_mode list" where
  "attachment_modes = [SINGLE_AGGREGATED, PER_STAGE]"

interpretation attachment_mode_enum: str_enum attachment_mode_value attachment_modes
proof
  show "distinct (map attachment_mode_value attachment_modes)" by (simp add: attachment_modes_def)
  show "x \<in> set attachment_modes" for x by (cases x) (simp_all add: attachment_modes_def)
qed

datatype email_body_position = BEFORE_STAGES_SUMMARY | AFTER_STAGES_SUMMARY

primrec email_body_position_value :: "email_body_position \<Rightarrow> string" where
  "email_body_position_value BEFORE_STAGES_SUMMARY = ''BEFORE_STAGES_SUMMARY''"
| "email_body_position_value AFTER_STAGES_SUMMARY = ''AFTER_STAGES_SUMMARY''"

definition email_body_positions :: "email_body_position list" where
  "email_body_positions = [BEFORE_STAGES_SUMMARY, AFTER_STAGES_SUMMARY]"

interpretation email_body_position_enum: str_enum email_body_position_value email_body_positions
proof
  show "distinct (map email_body_position_value email_body_positions)"
    by (simp add: email_body_positions_def)
  show "x \<in> set email_body_positions" for x by (cases x) (simp_all add: email_body_positions_def)
qed

datatype granularity = GLOBAL | PIPELINE | TAG

primrec granularity_value :: "granularity \<Rightarrow> string" where
  "granularity_value GLOBAL = ''GLOBAL''"
| "granularity_value PIPELINE = ''PIPELINE''"
| "granularity_value TAG = ''TAG''"

definition granularities :: "granularity list" where
  "granularities = [GLOBAL, PIPELINE, TAG]"

interpretation granularity_enum: str_enum granularity_value granularities
proof
  show "distinct (map granularity_value granularities)" by (simp add: granularities_def)
  show "x \<in> set granularities" for x by (cases x) (simp_all add: granularities_def)
qed

datatype audit_action =
    BEGIN_RUN | SUBMIT_STAGE_REPORT | FINALIZE_RUN | RUN_STATE_TRANSITION
  | STAGE_STATE_TRANSITION | SEND_REPORT | RESEND_REPORT | SWEEP_ORPHAN
  | DISPATCHER_ACTION_ABANDONED | PRUNE_REPORT | SUBSCRIBE | UNSUBSCRIBE
  | CREATE_USER | UPDATE_USER | LOGIN | LOGIN_FAILED | LOGOUT

primrec audit_action_value :: "audit_action \<Rightarrow> string" where
  "audit_action_value BEGIN_RUN = ''BEGIN_RUN''"
| "audit_action_value SUBMIT_STAGE_REPORT = ''SUBMIT_STAGE_REPORT''"
| "audit_action_value FINALIZE_RUN = ''FINALIZE_RUN''"
| "audit_action_value RUN_STATE_TRANSITION = ''RUN_STATE_TRANSITION''"
| "audit_action_value STAGE_STATE_TRANSITION = ''STAGE_STATE_TRANSITION''"
| "audit_action_value SEND_REPORT = ''SEND_REPORT''"
| "audit_action_value RESEND_REPORT = ''RESEND_REPORT''"
| "audit_action_value SWEEP_ORPHAN = ''SWEEP_ORPHAN''"
| "audit_action_value DISPATCHER_ACTION_ABANDONED = ''DISPATCHER_ACTION_ABANDONED''"
| "audit_action_value PRUNE_REPORT = ''PRUNE_REPORT''"
| "audit_action_value SUBSCRIBE = ''SUBSCRIBE''"
| "audit_action_value UNSUBSCRIBE = ''UNSUBSCRIBE''"
| "audit_action_value CREATE_USER = ''CREATE_USER''"
| "audit_action_value UPDATE_USER = ''UPDATE_USER''"
| "audit_action_value LOGIN = ''LOGIN''"
| "audit_action_value LOGIN_FAILED = ''LOGIN_FAILED''"
| "audit_action_value LOGOUT = ''LOGOUT''"

definition audit_actions :: "audit_action list" where
  "audit_actions = [BEGIN_RUN, SUBMIT_STAGE_REPORT, FINALIZE_RUN, RUN_STATE_TRANSITION,
     STAGE_STATE_TRANSITION, SEND_REPORT, RESEND_REPORT, SWEEP_ORPHAN,
     DISPATCHER_ACTION_ABANDONED, PRUNE_REPORT, SUBSCRIBE, UNSUBSCRIBE,
     CREATE_USER, UPDATE_USER, LOGIN, LOGIN_FAILED, LOGOUT]"

interpretation audit_action_enum: str_enum audit_action_value audit_actions
proof
  show "distinct (map audit_action_value audit_actions)" by (simp add: audit_actions_def)
  show "x \<in> set audit_actions" for x by (cases x) (simp_all add: audit_actions_def)
qed

datatype audit_outcome = SUCCESS | FAILURE

primrec audit_outcome_value :: "audit_outcome \<Rightarrow> string" where
  "audit_outcome_value SUCCESS = ''SUCCESS''"
| "audit_outcome_value FAILURE = ''FAILURE''"

definition audit_outcomes :: "audit_outcome list" where
  "audit_outcomes = [SUCCESS, FAILURE]"

interpretation audit_outcome_enum: str_enum audit_outcome_value audit_outcomes
proof
  show "distinct (map audit_outcome_value audit_outcomes)" by (simp add: audit_outcomes_def)
  show "x \<in> set audit_outcomes" for x by (cases x) (simp_all add: audit_outcomes_def)
qed

datatype template_kind = REPORT_FRAGMENT | AGGREGATION | EMAIL_BODY

primrec template_kind_value :: "template_kind \<Rightarrow> string" where
  "template_kind_value REPORT_FRAGMENT = ''REPORT_FRAGMENT''"
| "template_kind_value AGGREGATION = ''AGGREGATION''"
| "template_kind_value EMAIL_BODY = ''EMAIL_BODY''"

definition template_kinds :: "template_kind list" where
  "template_kinds = [REPORT_FRAGMENT, AGGREGATION, EMAIL_BODY]"

interpretation template_kind_enum: str_enum template_kind_value template_kinds
proof
  show "distinct (map template_kind_value template_kinds)" by (simp add: template_kinds_def)
  show "x \<in> set template_kinds" for x by (cases x) (simp_all add: template_kinds_def)
qed

end
