(* ===== verification/Lifecycle.thy ===== *)
theory Lifecycle
  imports Enums
begin

text \<open>
  The run and stage state machines of \<open>domain/state_machines\<close>.  Each module builds its
  \<open>TRANSITIONS\<close> dict at import: the explicit edges, then a loop over the non-terminal
  states that adds the failure sinks.  The definitions follow that construction, with a dict
  as a map.

  The locale \<open>lifecycle\<close> is the contract both machines offer their clients: terminal
  states have no successor, every other usable state can reach a terminal state in one step,
  and \<open>transition\<close> returns the target or raises.  The extension \<open>ranked_lifecycle\<close>
  adds a rank that every step increases, which bounds the length of a history.
\<close>

section \<open>Run states\<close>

definition run_terminal :: "run_state set" where
  "run_terminal = {SENT, FAILED, ORPHANED}"

definition run_non_terminal :: "run_state set" where
  "run_non_terminal = set run_states - run_terminal"

definition run_explicit :: "run_state \<rightharpoonup> run_state set" where
  "run_explicit = [INITIATED \<mapsto> {AGGREGATING}, AGGREGATING \<mapsto> {READY},
                   READY \<mapsto> {SENDING}, SENDING \<mapsto> {SENT}]"

text \<open>\<open>d.setdefault(src, set()).update(more)\<close>\<close>

definition setdefault_update :: "'s set \<Rightarrow> 's \<Rightarrow> ('s \<rightharpoonup> 's set) \<Rightarrow> ('s \<rightharpoonup> 's set)" where
  "setdefault_update more src d =
     d(src \<mapsto> (case d src of Some xs \<Rightarrow> xs | None \<Rightarrow> {}) \<union> more)"

definition run_transitions :: "run_state \<rightharpoonup> run_state set" where
  "run_transitions =
     fold (setdefault_update {FAILED, ORPHANED})
       (filter (\<lambda>s. s \<in> run_non_terminal) run_states) run_explicit"

text \<open>\<open>to_state in TRANSITIONS.get(from_state, frozenset())\<close>\<close>

definition run_can_transition :: "run_state \<Rightarrow> run_state \<Rightarrow> bool" where
  "run_can_transition from_state to_state =
     (to_state \<in> (case run_transitions from_state of Some ts \<Rightarrow> ts | None \<Rightarrow> {}))"

definition run_transition :: "run_state \<Rightarrow> run_state \<Rightarrow> string \<Rightarrow> exn + run_state" where
  "run_transition from_state to_state run_id =
     (if \<not> run_can_transition from_state to_state
      then Inl (err InvalidStateTransitionError
             [(''from_state'', JStr (run_state_value from_state)),
              (''to_state'', JStr (run_state_value to_state)),
              (''run_id'', JStr run_id)])
      else Inr to_state)"

section \<open>Stage states\<close>

definition stage_terminal :: "stage_state set" where
  "stage_terminal = {ACCEPTED, TIMEOUT, STAGE_FAILED}"

definition stage_non_terminal :: "stage_state set" where
  "stage_non_terminal = set stage_states - stage_terminal"

definition reserved_for_v2 :: "stage_state set" where
  "reserved_for_v2 = {IN_PROGRESS}"

definition stage_explicit :: "stage_state \<rightharpoonup> stage_state set" where
  "stage_explicit = [PENDING \<mapsto> {SUBMITTED}, SUBMITTED \<mapsto> {RETRIED, ACCEPTED},
                     RETRIED \<mapsto> {RETRIED, ACCEPTED}]"

definition stage_transitions :: "stage_state \<rightharpoonup> stage_state set" where
  "stage_transitions =
     fold (setdefault_update {TIMEOUT, STAGE_FAILED})
       (filter (\<lambda>s. s \<in> stage_non_terminal - reserved_for_v2) stage_states) stage_explicit"

definition stage_can_transition :: "stage_state \<Rightarrow> stage_state \<Rightarrow> bool" where
  "stage_can_transition from_state to_state =
     (to_state \<in> (case stage_transitions from_state of Some ts \<Rightarrow> ts | None \<Rightarrow> {}))"

definition stage_transition ::
  "stage_state \<Rightarrow> stage_state \<Rightarrow> string \<Rightarrow> string \<Rightarrow> exn + stage_state" where
  "stage_transition from_state to_state run_id stage_id =
     (if \<not> stage_can_transition from_state to_state
      then Inl (err InvalidStateTransitionError
             [(''from_state'', JStr (stage_state_value from_state)),
              (''to_state'', JStr (stage_state_value to_state)),
              (''run_id'', JStr run_id), (''stage_id'', JStr stage_id)])
      else Inr to_state)"

section \<open>The contract of a life cycle\<close>

locale lifecycle =
  fixes can :: "'s \<Rightarrow> 's \<Rightarrow> bool" and terminal :: "'s set" and usable :: "'s set"
  assumes terminal_final: "s \<in> terminal \<Longrightarrow> \<not> can s t"
    and usable_progress: "s \<in> usable - terminal \<Longrightarrow> \<exists>t \<in> terminal. can s t"
    and usable_closed: "can s t \<Longrightarrow> s \<in> usable \<and> t \<in> usable"
begin

text \<open>A history is a list of states in which each consecutive pair is a transition.\<close>

definition history :: "'s list \<Rightarrow> bool" where
  "history = successively can"

lemma terminal_ends_history:
  assumes "history (xs @ s # ys)" and "s \<in> terminal"
  shows "ys = []"
proof (cases ys)
  case Nil
  then show ?thesis .
next
  case (Cons t zs)
  with assms(1) have "can s t"
    by (simp add: history_def successively_append_iff)
  with assms(2) show ?thesis using terminal_final by blast
qed

lemma history_usable:
  assumes "history (s # t # xs)" shows "set (s # t # xs) \<subseteq> usable"
  using assms
proof (induction xs arbitrary: s t)
  case Nil
  then show ?case by (auto simp: history_def dest: usable_closed)
next
  case (Cons u us)
  then show ?case by (auto simp: history_def dest: usable_closed)
qed

lemma history_extends_to_terminal:
  assumes "history (xs @ [s])" and "s \<in> usable" and "s \<notin> terminal"
  obtains t where "t \<in> terminal" and "history (xs @ [s, t])"
proof -
  obtain t where "t \<in> terminal" and "can s t" using usable_progress assms(2,3) by blast
  with assms(1) that show thesis
    by (simp add: history_def successively_append_iff)
qed

end

locale ranked_lifecycle = lifecycle can terminal usable
  for can :: "'s \<Rightarrow> 's \<Rightarrow> bool" and terminal :: "'s set" and usable :: "'s set" +
  fixes rank :: "'s \<Rightarrow> nat" and max_rank :: nat
  assumes rank_increases: "can s t \<Longrightarrow> rank s < rank t"
    and rank_bound: "rank s \<le> max_rank"
begin

lemma history_ranks: "history (s # xs) \<Longrightarrow> rank s + length xs \<le> max_rank"
proof (induction xs arbitrary: s)
  case Nil
  then show ?case by (simp add: rank_bound)
next
  case (Cons t ts)
  from Cons.prems have "can s t" and "history (t # ts)" by (simp_all add: history_def)
  with Cons.IH [of t] rank_increases [of s t] show ?case by simp
qed

lemma history_length: "history xs \<Longrightarrow> length xs \<le> Suc max_rank"
  using history_ranks by (cases xs) fastforce+

lemma history_distinct: "history xs \<Longrightarrow> distinct xs"
proof -
  assume "history xs"
  then have "successively (\<lambda>s t. rank s < rank t) xs"
    unfolding history_def by (rule successively_mono) (rule rank_increases)
  then have "sorted_wrt (\<lambda>s t. rank s < rank t) xs"
    by (simp add: successively_conv_sorted_wrt transp_def)
  then show "distinct xs"
    by (induction xs) auto
qed

end

section \<open>Both machines keep the contract\<close>

lemma run_transitions_simps [simp]:
  "run_transitions INITIATED = Some {AGGREGATING, FAILED, ORPHANED}"
  "run_transitions AGGREGATING = Some {READY, FAILED, ORPHANED}"
  "run_transitions READY = Some {SENDING, FAILED, ORPHANED}"
  "run_transitions SENDING = Some {SENT, FAILED, ORPHANED}"
  "run_transitions SENT = None" "run_transitions FAILED = None" "run_transitions ORPHANED = None"
  by (auto simp: run_transitions_def run_states_def run_non_terminal_def run_terminal_def
      run_explicit_def setdefault_update_def)

lemma run_can_transition_iff:
  "run_can_transition s t \<longleftrightarrow> s \<notin> run_terminal \<and>
     (t \<in> {FAILED, ORPHANED} \<or> (s, t) \<in> {(INITIATED, AGGREGATING), (AGGREGATING, READY),
        (READY, SENDING), (SENDING, SENT)})"
  by (cases s) (auto simp: run_can_transition_def run_terminal_def)

lemma stage_transitions_simps [simp]:
  "stage_transitions PENDING = Some {SUBMITTED, TIMEOUT, STAGE_FAILED}"
  "stage_transitions SUBMITTED = Some {RETRIED, ACCEPTED, TIMEOUT, STAGE_FAILED}"
  "stage_transitions RETRIED = Some {RETRIED, ACCEPTED, TIMEOUT, STAGE_FAILED}"
  "stage_transitions IN_PROGRESS = None" "stage_transitions ACCEPTED = None"
  "stage_transitions TIMEOUT = None" "stage_transitions STAGE_FAILED = None"
  by (auto simp: stage_transitions_def stage_states_def stage_non_terminal_def
      stage_terminal_def reserved_for_v2_def stage_explicit_def setdefault_update_def)

lemma stage_can_transition_iff:
  "stage_can_transition s t \<longleftrightarrow>
     (s \<in> {PENDING, SUBMITTED, RETRIED} \<and> t \<in> {TIMEOUT, STAGE_FAILED}) \<or>
     (s = PENDING \<and> t = SUBMITTED) \<or> (s \<in> {SUBMITTED, RETRIED} \<and> t \<in> {RETRIED, ACCEPTED})"
  by (cases s) (auto simp: stage_can_transition_def)

primrec run_rank :: "run_state \<Rightarrow> nat" where
  "run_rank INITIATED = 0"
| "run_rank AGGREGATING = 1"
| "run_rank READY = 2"
| "run_rank SENDING = 3"
| "run_rank SENT = 4"
| "run_rank FAILED = 4"
| "run_rank ORPHANED = 4"

interpretation run_cycle:
  ranked_lifecycle run_can_transition run_terminal UNIV run_rank 4
proof
  show "s \<in> run_terminal \<Longrightarrow> \<not> run_can_transition s t" for s t
    by (simp add: run_can_transition_iff)
  show "\<exists>t \<in> run_terminal. run_can_transition s t" if "s \<in> UNIV - run_terminal" for s
    using that by (auto simp: run_can_transition_iff run_terminal_def)
  show "s \<in> UNIV \<and> t \<in> UNIV" for s t :: run_state by simp
  show "run_can_transition s t \<Longrightarrow> run_rank s < run_rank t" for s t
    by (cases s) (auto simp: run_can_transition_iff run_terminal_def)
  show "run_rank s \<le> 4" for s by (cases s) simp_all
qed

interpretation stage_cycle:
  lifecycle stage_can_transition stage_terminal "- reserved_for_v2"
proof
  show "s \<in> stage_terminal \<Longrightarrow> \<not> stage_can_transition s t" for s t
    by (auto simp: stage_can_transition_iff stage_terminal_def)
  show "\<exists>t \<in> stage_terminal. stage_can_transition s t"
    if "s \<in> - reserved_for_v2 - stage_terminal" for s
    using that by (cases s)
      (auto simp: stage_can_transition_iff stage_terminal_def reserved_for_v2_def)
  show "stage_can_transition s t \<Longrightarrow> s \<in> - reserved_for_v2 \<and> t \<in> - reserved_for_v2" for s t
    by (auto simp: stage_can_transition_iff reserved_for_v2_def)
qed

section \<open>What \<open>transition\<close> returns\<close>

lemma run_transition_Inr:
  "run_transition s t i = Inr u \<longleftrightarrow> u = t \<and> run_can_transition s t"
  by (auto simp: run_transition_def)

lemma run_transition_Inl:
  "run_transition s t i = Inl e \<Longrightarrow> \<not> run_can_transition s t \<and> exn_is e InvalidStateTransitionError"
  by (auto simp: run_transition_def split: if_splits)

lemma stage_transition_Inr:
  "stage_transition s t i j = Inr u \<longleftrightarrow> u = t \<and> stage_can_transition s t"
  by (auto simp: stage_transition_def)

section \<open>Properties\<close>

text \<open>
  A run passes through at most five states, no state twice, and nothing follows SENT,
  FAILED or ORPHANED; and from every state before those \<open>transition\<close> accepts the moves
  to FAILED and to ORPHANED.
\<close>

theorem run_history_bounded:
  assumes "successively run_can_transition hist"
  shows "length hist \<le> 5 \<and> distinct hist \<and>
    (\<forall>xs s ys. hist = xs @ s # ys \<and> s \<in> {SENT, FAILED, ORPHANED} \<longrightarrow> ys = []) \<and>
    (\<forall>s. s \<notin> {SENT, FAILED, ORPHANED} \<longrightarrow>
       run_transition s FAILED i = Inr FAILED \<and> run_transition s ORPHANED i = Inr ORPHANED)"
proof -
  have h: "run_cycle.history hist" using assms by (simp add: run_cycle.history_def)
  have "s \<in> {SENT, FAILED, ORPHANED} \<Longrightarrow> hist = xs @ s # ys \<Longrightarrow> ys = []" for xs s ys
    using run_cycle.terminal_ends_history [of xs s ys] h by (simp add: run_terminal_def)
  then show ?thesis
    using run_cycle.history_length [OF h] run_cycle.history_distinct [OF h]
    by (auto simp: run_transition_Inr run_can_transition_iff run_terminal_def)
qed

theorem run_history_bounded_witness:
  "distinct [INITIATED, AGGREGATING, READY, SENDING, SENT]"
proof -
  have "successively run_can_transition [INITIATED, AGGREGATING, READY, SENDING, SENT]"
    by (simp add: run_can_transition_iff run_terminal_def)
  from run_history_bounded [OF this] show ?thesis by blast
qed

text \<open>
  A stage in a terminal state accepts no transition, and every stage history from a state
  the service uses stays within those states (never \<open>IN_PROGRESS\<close>) and can be continued
  into a terminal state.
\<close>

theorem stage_history_completes:
  assumes "successively stage_can_transition (xs @ [s])" and "s \<noteq> IN_PROGRESS"
  shows "(s \<in> stage_terminal \<and> (\<forall>t i j. \<exists>e. stage_transition s t i j = Inl e)) \<or>
    (\<exists>t \<in> stage_terminal. successively stage_can_transition (xs @ [s, t]))"
proof (cases "s \<in> stage_terminal")
  case True
  then have "\<exists>e. stage_transition s t i j = Inl e" for t i j
    using stage_cycle.terminal_final [of s t] by (simp add: stage_transition_def)
  with True show ?thesis by blast
next
  case False
  have "stage_cycle.history (xs @ [s])" using assms(1) by (simp add: stage_cycle.history_def)
  moreover have "s \<in> - reserved_for_v2" using assms(2) by (simp add: reserved_for_v2_def)
  ultimately obtain t where "t \<in> stage_terminal" "stage_cycle.history (xs @ [s, t])"
    using False by (rule stage_cycle.history_extends_to_terminal)
  then show ?thesis by (auto simp: stage_cycle.history_def)
qed

theorem stage_history_completes_witness:
  "(PENDING \<in> stage_terminal \<and> (\<forall>t i j. \<exists>e. stage_transition PENDING t i j = Inl e)) \<or>
   (\<exists>t \<in> stage_terminal. successively stage_can_transition [PENDING, t])"
  using stage_history_completes [of "[]" PENDING] by simp

end
