(* ===== verification/Domain.thy ===== *)
theory Domain
  imports Ids Clock Lifecycle
begin

text \<open>
  The aggregates of \<open>domain/aggregates\<close>.  A frozen dataclass is a record, and its
  constructor, which runs \<open>__post_init__\<close>, is the function \<open>..._post_init\<close> on the
  record of the arguments: it returns the record or the \<open>ValueError\<close> of the first check
  that fails, in the order of the code.  Texts of \<open>ValueError\<close>s are left empty.

  The \<open>..._ok\<close> predicates collect what a constructed aggregate satisfies; the lemmas
  \<open>..._post_init_Inr\<close> show that the constructor accepts exactly those.
\<close>

abbreviation value_error :: exn where
  "value_error \<equiv> PyExc ValueError []"

section \<open>Template references and declared stages\<close>

record template_ref =
  tpl_name :: string
  tpl_version :: string

definition template_ref_post_init :: "template_ref \<Rightarrow> exn + template_ref" where
  "template_ref_post_init r =
     check (tpl_name r = []) value_error (check (tpl_version r = []) value_error (Inr r))"

definition template_ref_ok :: "template_ref \<Rightarrow> bool" where
  "template_ref_ok r \<longleftrightarrow> tpl_name r \<noteq> [] \<and> tpl_version r \<noteq> []"

lemma template_ref_post_init_Inr:
  "template_ref_post_init r = Inr r' \<longleftrightarrow> r' = r \<and> template_ref_ok r"
  by (auto simp: template_ref_post_init_def template_ref_ok_def check_Inr)

record declared_stage =
  ds_stage_id :: stage_id
  ds_stage_order :: int
  ds_template_ref :: template_ref

definition declared_stage_post_init :: "declared_stage \<Rightarrow> exn + declared_stage" where
  "declared_stage_post_init d = check (ds_stage_order d < 0) value_error (Inr d)"

definition declared_stage_ok :: "declared_stage \<Rightarrow> bool" where
  "declared_stage_ok d \<longleftrightarrow> 0 \<le> ds_stage_order d \<and> template_ref_ok (ds_template_ref d)"

section \<open>Run\<close>

record run =
  run_run_id :: run_id
  run_pipeline_type :: string
  run_tags :: "string set"
  run_declared_stages :: "declared_stage list"
  run_state :: run_state
  run_attachment_mode :: attachment_mode
  run_created_at :: datetime
  run_updated_at :: datetime
  run_aggregation_template_ref :: "template_ref option"
  run_subscription_predicate_tags :: "string set"

text \<open>The loop of \<open>__post_init__\<close> over the declared stages with its set of seen ids.\<close>

fun check_unique_ids :: "stage_id set \<Rightarrow> declared_stage list \<Rightarrow> exn option" where
  "check_unique_ids seen [] = None"
| "check_unique_ids seen (d # ds) =
     (if ds_stage_id d \<in> seen then Some value_error
      else check_unique_ids (insert (ds_stage_id d) seen) ds)"

definition run_post_init :: "run \<Rightarrow> exn + run" where
  "run_post_init r =
     check (\<not> dt_aware (run_created_at r)) value_error
     (check (\<not> dt_aware (run_updated_at r)) value_error
     (check (dt_us (run_updated_at r) < dt_us (run_created_at r)) value_error
     (check (run_attachment_mode r = SINGLE_AGGREGATED \<and> run_aggregation_template_ref r = None)
        value_error
     (case check_unique_ids {} (run_declared_stages r) of Some e \<Rightarrow> Inl e | None \<Rightarrow> Inr r))))"

definition declared_stage_ids :: "run \<Rightarrow> stage_id set" where
  "declared_stage_ids r = ds_stage_id ` set (run_declared_stages r)"

definition run_ok :: "run \<Rightarrow> bool" where
  "run_ok r \<longleftrightarrow> dt_aware (run_created_at r) \<and> dt_aware (run_updated_at r) \<and>
     dt_us (run_created_at r) \<le> dt_us (run_updated_at r) \<and>
     (run_attachment_mode r = SINGLE_AGGREGATED \<longrightarrow> run_aggregation_template_ref r \<noteq> None) \<and>
     distinct (map ds_stage_id (run_declared_stages r))"

lemma check_unique_ids_None:
  "check_unique_ids seen ds = None \<longleftrightarrow>
   distinct (map ds_stage_id ds) \<and> ds_stage_id ` set ds \<inter> seen = {}"
  by (induction seen ds rule: check_unique_ids.induct) auto

lemma run_post_init_Inr: "run_post_init r = Inr r' \<longleftrightarrow> r' = r \<and> run_ok r"
  using check_unique_ids_None [of "{}" "run_declared_stages r"]
  by (auto simp: run_post_init_def run_ok_def check_Inr not_less split: option.splits)

lemma check_unique_ids_error: "check_unique_ids seen ds = Some e \<Longrightarrow> e = value_error"
  by (induction seen ds rule: check_unique_ids.induct) (auto split: if_splits)

lemma run_post_init_Inl: "run_post_init r = Inl e \<longleftrightarrow> e = value_error \<and> \<not> run_ok r"
proof (cases "run_post_init r")
  case (Inl d)
  then have "d = value_error"
    by (auto simp: run_post_init_def check_Inl split: if_splits option.splits
        dest: check_unique_ids_error)
  moreover have "\<not> run_ok r" using Inl run_post_init_Inr [of r r] by auto
  ultimately show ?thesis using Inl by auto
next
  case (Inr r')
  then have "run_ok r" by (simp add: run_post_init_Inr)
  with Inr show ?thesis by simp
qed

section \<open>Stage\<close>

record stage =
  stage_run_id :: run_id
  stage_stage_id :: stage_id
  stage_state :: stage_state
  stage_template_ref :: template_ref
  stage_report_context :: "json option"
  stage_email_body_context :: "json option"
  stage_email_body_position :: "email_body_position option"
  stage_submitted_at :: "datetime option"

definition submission_states :: "stage_state set" where
  "submission_states = {SUBMITTED, ACCEPTED, RETRIED}"

definition stage_post_init :: "stage \<Rightarrow> exn + stage" where
  "stage_post_init s =
     check (case stage_submitted_at s of Some t \<Rightarrow> \<not> dt_aware t | None \<Rightarrow> False) value_error
     (check (stage_state s = PENDING \<and> stage_submitted_at s \<noteq> None) value_error
     (check (stage_state s \<in> submission_states \<and> stage_submitted_at s = None) value_error
     (check ((stage_email_body_position s = None) \<noteq> (stage_email_body_context s = None)) value_error
     (Inr s))))"

definition stage_ok :: "stage \<Rightarrow> bool" where
  "stage_ok s \<longleftrightarrow> (\<forall>t. stage_submitted_at s = Some t \<longrightarrow> dt_aware t) \<and>
     (stage_state s = PENDING \<longrightarrow> stage_submitted_at s = None) \<and>
     (stage_state s \<in> submission_states \<longrightarrow> stage_submitted_at s \<noteq> None) \<and>
     (stage_email_body_position s = None \<longleftrightarrow> stage_email_body_context s = None)"

lemma stage_post_init_Inr: "stage_post_init s = Inr s' \<longleftrightarrow> s' = s \<and> stage_ok s"
  by (auto simp: stage_post_init_def stage_ok_def check_Inr split: option.splits)

lemma stage_post_init_Inl: "stage_post_init s = Inl e \<longleftrightarrow> e = value_error \<and> \<not> stage_ok s"
  by (auto simp: stage_post_init_def stage_ok_def check_Inl split: option.splits if_splits)

section \<open>Subscription\<close>

record subscription =
  sub_subscription_id :: subscription_id
  sub_user_id :: user_id
  sub_granularity :: granularity
  sub_created_at :: datetime
  sub_target_value :: "string option"

definition subscription_post_init :: "subscription \<Rightarrow> exn + subscription" where
  "subscription_post_init s =
     check (\<not> dt_aware (sub_created_at s)) value_error
     (if sub_granularity s = GLOBAL
      then check (sub_target_value s \<noteq> None) value_error (Inr s)
      else check (sub_target_value s = None) value_error
           (check (sub_target_value s = Some []) value_error (Inr s)))"

definition target_ok :: "granularity \<Rightarrow> string option \<Rightarrow> bool" where
  "target_ok g t \<longleftrightarrow> (if g = GLOBAL then t = None else t \<noteq> None \<and> t \<noteq> Some [])"

lemma subscription_post_init_Inr:
  "subscription_post_init s = Inr s' \<longleftrightarrow>
   s' = s \<and> dt_aware (sub_created_at s) \<and> target_ok (sub_granularity s) (sub_target_value s)"
  by (auto simp: subscription_post_init_def target_ok_def check_Inr)

section \<open>Audit event\<close>

record audit_event =
  ae_timestamp :: datetime
  ae_action :: audit_action
  ae_actor :: string
  ae_resource :: string
  ae_outcome :: audit_outcome
  ae_details :: dict
  ae_audit_id :: "int option"

definition audit_event_post_init :: "audit_event \<Rightarrow> exn + audit_event" where
  "audit_event_post_init e =
     check (\<not> dt_aware (ae_timestamp e)) value_error
     (check (ae_actor e = []) value_error
     (check (ae_resource e = []) value_error (Inr e)))"

definition audit_event_ok :: "audit_event \<Rightarrow> bool" where
  "audit_event_ok e \<longleftrightarrow> dt_aware (ae_timestamp e) \<and> ae_actor e \<noteq> [] \<and> ae_resource e \<noteq> []"

lemma audit_event_post_init_Inr:
  "audit_event_post_init e = Inr e' \<longleftrightarrow> e' = e \<and> audit_event_ok e"
  by (auto simp: audit_event_post_init_def audit_event_ok_def check_Inr)

section \<open>User\<close>

record user =
  user_email :: string
  user_display_name :: string
  user_password_hash :: string
  user_created_at :: datetime
  user_user_id :: "user_id option"
  user_is_admin :: bool
  user_disabled :: bool

definition user_post_init :: "user \<Rightarrow> exn + user" where
  "user_post_init u =
     check (user_email u = []) value_error
     (check (user_display_name u = []) value_error
     (check (\<not> dt_aware (user_created_at u)) value_error (Inr u)))"

definition user_ok :: "user \<Rightarrow> bool" where
  "user_ok u \<longleftrightarrow> user_email u \<noteq> [] \<and> user_display_name u \<noteq> [] \<and> dt_aware (user_created_at u)"

lemma user_post_init_Inr: "user_post_init u = Inr u' \<longleftrightarrow> u' = u \<and> user_ok u"
  by (auto simp: user_post_init_def user_ok_def check_Inr)

section \<open>Session\<close>

text \<open>
  \<open>int(s, 16)\<close> accepts surrounding white space, a sign, the prefix \<open>0x\<close> and single
  underscores between digits; \<open>int16_ok\<close> tells whether it returns.
\<close>

definition py_space :: "char \<Rightarrow> bool" where
  "py_space c \<longleftrightarrow> (let n = (of_char c :: nat) in
     n = 32 \<or> (9 \<le> n \<and> n \<le> 13) \<or> (28 \<le> n \<and> n \<le> 31) \<or> n = 133 \<or> n = 160)"

definition py_strip :: "string \<Rightarrow> string" where
  "py_strip s = rev (dropWhile py_space (rev (dropWhile py_space s)))"

definition is_hex :: "char \<Rightarrow> bool" where
  "is_hex c \<longleftrightarrow> is_lower_hex c \<or> (CHR ''A'' \<le> c \<and> c \<le> CHR ''F'')"

fun hex_digits_ok :: "string \<Rightarrow> bool" where
  "hex_digits_ok [] = False"
| "hex_digits_ok [c] = is_hex c"
| "hex_digits_ok (c # d # cs) =
     (is_hex c \<and> (if d = CHR ''_'' then hex_digits_ok cs else hex_digits_ok (d # cs)))"

definition int16_ok :: "string \<Rightarrow> bool" where
  "int16_ok s =
     (let t = py_strip s;
          u = (if t \<noteq> [] \<and> (hd t = CHR ''+'' \<or> hd t = CHR ''-'') then tl t else t);
          v = (if take 2 u = ''0x'' \<or> take 2 u = ''0X'' then drop 2 u else u);
          w = (if v \<noteq> u \<and> v \<noteq> [] \<and> hd v = CHR ''_'' then tl v else v)
      in hex_digits_ok w)"

record session =
  ses_token_hash :: string
  ses_user_id :: user_id
  ses_created_at :: datetime
  ses_last_activity_at :: datetime

definition session_post_init :: "session \<Rightarrow> exn + session" where
  "session_post_init s =
     check (length (ses_token_hash s) \<noteq> 64) value_error
     (check (\<not> int16_ok (ses_token_hash s)) value_error
     (check (\<not> dt_aware (ses_created_at s)) value_error
     (check (\<not> dt_aware (ses_last_activity_at s)) value_error
     (check (dt_us (ses_last_activity_at s) < dt_us (ses_created_at s)) value_error (Inr s)))))"

definition session_ok :: "session \<Rightarrow> bool" where
  "session_ok s \<longleftrightarrow> length (ses_token_hash s) = 64 \<and> int16_ok (ses_token_hash s) \<and>
     dt_aware (ses_created_at s) \<and> dt_aware (ses_last_activity_at s) \<and>
     dt_us (ses_created_at s) \<le> dt_us (ses_last_activity_at s)"

lemma session_post_init_Inr: "session_post_init s = Inr s' \<longleftrightarrow> s' = s \<and> session_ok s"
  by (auto simp: session_post_init_def session_ok_def check_Inr)

text \<open>A token hash is the 64-digit hexadecimal form of a SHA-256 digest.\<close>

lemma hex_digits_all: "s \<noteq> [] \<Longrightarrow> \<forall>c \<in> set s. is_hex c \<and> c \<noteq> CHR ''_'' \<Longrightarrow> hex_digits_ok s"
  by (induction s rule: hex_digits_ok.induct) auto

section \<open>Template metadata\<close>

record template_metadata =
  tm_name :: string
  tm_version :: string
  tm_kind :: template_kind
  tm_source_path :: string
  tm_context_schema_path :: "string option"
  tm_description :: "string option"

definition template_metadata_post_init :: "template_metadata \<Rightarrow> exn + template_metadata" where
  "template_metadata_post_init m =
     check (tm_name m = []) value_error (check (tm_version m = []) value_error (Inr m))"

end
