(* ===== verification/Database.thy ===== *)
theory Database
  imports Domain
begin

text \<open>
  The SQLite database (\<open>infrastructure/persistence/migrations\<close>) and transactions on it.

  A table is the list of its rows in insertion order; an AUTOINCREMENT key is taken from a
  counter of the table.  A timestamp column holds the instant (theory Clock shows that the
  stored text is injective and ordered like the instants), a JSON column the document.  The
  CHECK, UNIQUE and FOREIGN KEY constraints that the code can run into are predicates
  \<open>..._accepts\<close> which the repositories test before a write, raising the driver's
  IntegrityError.

  A transaction body is a function of the database (\<open>'a tx\<close>).  It ends with a value and
  the new database, or with a raised exception whose writes are rolled back, or it commits
  explicitly and raises afterwards.  \<open>uow\<close> is \<open>async with uow_factory() as uow\<close>: theory
  Unit_Of_Work derives it from the lock, BEGIN, COMMIT and ROLLBACK protocol of the class.

  The locale \<open>table\<close> is the contract of one table: a lens into the database with a key.
\<close>

section \<open>Rows\<close>

record run_row =
  rr_run_id :: string
  rr_pipeline_type :: string
  rr_state :: string
  rr_attachment_mode :: string
  rr_agg_name :: "string option"
  rr_agg_version :: "string option"
  rr_tags :: json
  rr_declared_stages :: json
  rr_sub_tags :: json
  rr_created_at :: int
  rr_updated_at :: int

record stage_row =
  sr_run_id :: string
  sr_stage_id :: string
  sr_state :: string
  sr_template_name :: string
  sr_template_version :: string
  sr_report_context :: "json option"
  sr_email_body_context :: "json option"
  sr_submitted_at :: "int option"
  sr_email_body_position :: "string option"

record subscription_row =
  ur_subscription_id :: int
  ur_user_id :: int
  ur_granularity :: string
  ur_target_value :: "string option"
  ur_created_at :: int

record audit_row =
  ar_audit_id :: int
  ar_timestamp :: int
  ar_action :: string
  ar_actor :: string
  ar_resource :: string
  ar_outcome :: string
  ar_details :: json

record action_row =
  xr_action_id :: int
  xr_run_id :: string
  xr_action_name :: string
  xr_enqueued_at :: int
  xr_claimed_at :: "int option"
  xr_completed_at :: "int option"
  xr_attempts :: int
  xr_last_error :: "string option"

record user_row =
  wr_user_id :: int
  wr_email :: string
  wr_display_name :: string
  wr_disabled :: bool
  wr_created_at :: int
  wr_password_hash :: string
  wr_is_admin :: bool

record session_row =
  er_token_hash :: string
  er_user_id :: int
  er_created_at :: int
  er_last_activity_at :: int

record db =
  db_runs :: "run_row list"
  db_stages :: "stage_row list"
  db_subscriptions :: "subscription_row list"
  db_audit :: "audit_row list"
  db_actions :: "action_row list"
  db_users :: "user_row list"
  db_sessions :: "session_row list"
  db_next_subscription :: int
  db_next_audit :: int
  db_next_action :: int
  db_next_user :: int

definition empty_db :: db where
  "empty_db = \<lparr> db_runs = [], db_stages = [], db_subscriptions = [], db_audit = [],
     db_actions = [], db_users = [], db_sessions = [], db_next_subscription = 1,
     db_next_audit = 1, db_next_action = 1, db_next_user = 1 \<rparr>"

section \<open>Constraints of the schema\<close>

definition runs_accepts :: "run_row \<Rightarrow> bool" where
  "runs_accepts r \<longleftrightarrow>
     rr_state r \<in> {''INITIATED'', ''AGGREGATING'', ''READY'', ''SENDING'', ''SENT'', ''FAILED'',
       ''ORPHANED''} \<and>
     rr_attachment_mode r \<in> {''SINGLE_AGGREGATED'', ''PER_STAGE''} \<and>
     ((rr_attachment_mode r = ''PER_STAGE'' \<and> rr_agg_name r = None \<and> rr_agg_version r = None) \<or>
      (rr_attachment_mode r = ''SINGLE_AGGREGATED'' \<and> rr_agg_name r \<noteq> None \<and>
       rr_agg_version r \<noteq> None))"

definition stages_accepts :: "db \<Rightarrow> stage_row \<Rightarrow> bool" where
  "stages_accepts d r \<longleftrightarrow>
     sr_run_id r \<in> rr_run_id ` set (db_runs d) \<and>
     sr_state r \<in> {''PENDING'', ''SUBMITTED'', ''ACCEPTED'', ''RETRIED'', ''TIMEOUT'', ''FAILED''} \<and>
     ((sr_state r = ''PENDING'' \<and> sr_submitted_at r = None) \<or>
      (sr_state r \<noteq> ''PENDING'' \<and> sr_submitted_at r \<noteq> None)) \<and>
     (case sr_email_body_position r of
        None \<Rightarrow> True
      | Some p \<Rightarrow> p \<in> {''BEFORE_STAGES_SUMMARY'', ''AFTER_STAGES_SUMMARY''})"

definition subscriptions_accepts :: "db \<Rightarrow> subscription_row \<Rightarrow> bool" where
  "subscriptions_accepts d r \<longleftrightarrow>
     ur_user_id r \<in> wr_user_id ` set (db_users d) \<and>
     ur_granularity r \<in> {''GLOBAL'', ''PIPELINE'', ''TAG''} \<and>
     ((ur_granularity r = ''GLOBAL'' \<and> ur_target_value r = None) \<or>
      (ur_granularity r \<in> {''PIPELINE'', ''TAG''} \<and> ur_target_value r \<noteq> None)) \<and>
     (ur_target_value r \<noteq> None \<longrightarrow>
        (ur_user_id r, ur_granularity r, ur_target_value r)
          \<notin> (\<lambda>s. (ur_user_id s, ur_granularity s, ur_target_value s)) ` set (db_subscriptions d)) \<and>
     (ur_granularity r = ''GLOBAL'' \<longrightarrow>
        (ur_user_id r, ''GLOBAL'')
          \<notin> (\<lambda>s. (ur_user_id s, ur_granularity s)) ` set (db_subscriptions d))"

definition actions_accepts :: "db \<Rightarrow> action_row \<Rightarrow> bool" where
  "actions_accepts d r \<longleftrightarrow>
     xr_run_id r \<in> rr_run_id ` set (db_runs d) \<and>
     xr_action_name r \<in> {''SEND_PARTIAL_FLAGGED'', ''DISCARD_SILENTLY'', ''NOTIFY_SUBSCRIBERS'',
       ''NOTIFY_ADMINS''} \<and>
     (case xr_claimed_at r of None \<Rightarrow> True | Some c \<Rightarrow> xr_enqueued_at r \<le> c) \<and>
     (case xr_completed_at r of
        None \<Rightarrow> True
      | Some f \<Rightarrow> (case xr_claimed_at r of None \<Rightarrow> False | Some c \<Rightarrow> c \<le> f)) \<and>
     0 \<le> xr_attempts r"

definition sessions_accepts :: "db \<Rightarrow> session_row \<Rightarrow> bool" where
  "sessions_accepts d r \<longleftrightarrow>
     er_user_id r \<in> wr_user_id ` set (db_users d) \<and> length (er_token_hash r) = 64 \<and>
     er_created_at r \<le> er_last_activity_at r"

section \<open>Transactions\<close>

datatype 'a tx_result = Done 'a db | Raised exn | CommittedRaise exn db

type_synonym 'a tx = "db \<Rightarrow> 'a tx_result"

definition tx_return :: "'a \<Rightarrow> 'a tx" where
  "tx_return x d = Done x d"

definition tx_raise :: "exn \<Rightarrow> 'a tx" where
  "tx_raise e d = Raised e"

definition tx_bind :: "'a tx \<Rightarrow> ('a \<Rightarrow> 'b tx) \<Rightarrow> 'b tx" where
  "tx_bind m k d = (case m d of
     Done x d' \<Rightarrow> k x d' | Raised e \<Rightarrow> Raised e | CommittedRaise e d' \<Rightarrow> CommittedRaise e d')"

definition tx_then :: "'a tx \<Rightarrow> 'b tx \<Rightarrow> 'b tx" where
  "tx_then m k = tx_bind m (\<lambda>_. k)"

definition tx_read :: "(db \<Rightarrow> exn + 'a) \<Rightarrow> 'a tx" where
  "tx_read f d = (case f d of Inl e \<Rightarrow> Raised e | Inr x \<Rightarrow> Done x d)"

definition tx_lift :: "exn + 'a \<Rightarrow> 'a tx" where
  "tx_lift r = tx_read (\<lambda>_. r)"

definition tx_write :: "(db \<Rightarrow> db) \<Rightarrow> unit tx" where
  "tx_write f d = Done () (f d)"

definition tx_guard :: "bool \<Rightarrow> exn \<Rightarrow> unit tx" where
  "tx_guard bad e = (if bad then tx_raise e else tx_return ())"

definition tx_commit_raise :: "exn \<Rightarrow> 'a tx" where
  "tx_commit_raise e d = CommittedRaise e d"

text \<open>\<open>try: x = await read() except E: ...\<close> around a call that only reads.\<close>

definition tx_try :: "'a tx \<Rightarrow> (exn \<Rightarrow> 'b tx) \<Rightarrow> ('a \<Rightarrow> 'b tx) \<Rightarrow> 'b tx" where
  "tx_try m h k d = (case m d of
     Done x d' \<Rightarrow> k x d' | Raised e \<Rightarrow> h e d | CommittedRaise e d' \<Rightarrow> CommittedRaise e d')"

text \<open>\<open>for x in xs: await f(x)\<close>\<close>

fun tx_iter :: "('a \<Rightarrow> unit tx) \<Rightarrow> 'a list \<Rightarrow> unit tx" where
  "tx_iter f [] = tx_return ()"
| "tx_iter f (x # xs) = tx_then (f x) (tx_iter f xs)"

text \<open>\<open>async with uow_factory() as uow: body\<close>: the outcome and the database afterwards.\<close>

definition uow :: "'a tx \<Rightarrow> db \<Rightarrow> (exn + 'a) \<times> db" where
  "uow body d = (case body d of
     Done x d' \<Rightarrow> (Inr x, d') | Raised e \<Rightarrow> (Inl e, d) | CommittedRaise e d' \<Rightarrow> (Inl e, d'))"

lemmas tx_defs [tx_simps] = tx_return_def tx_raise_def tx_then_def tx_write_def tx_guard_def
  tx_commit_raise_def

lemma tx_bind_simps [tx_simps]:
  "m d = Done x d' \<Longrightarrow> tx_bind m k d = k x d'"
  "m d = Raised e \<Longrightarrow> tx_bind m k d = Raised e"
  "m d = CommittedRaise e d' \<Longrightarrow> tx_bind m k d = CommittedRaise e d'"
  by (simp_all add: tx_bind_def)

lemma tx_bind_Done:
  "tx_bind m k d = Done y d' \<longleftrightarrow> (\<exists>x d1. m d = Done x d1 \<and> k x d1 = Done y d')"
  by (auto simp: tx_bind_def split: tx_result.splits)

lemma tx_then_Done:
  "tx_then m k d = Done y d' \<longleftrightarrow> (\<exists>x d1. m d = Done x d1 \<and> k d1 = Done y d')"
  by (simp add: tx_then_def tx_bind_Done)

lemma tx_read_Done: "tx_read f d = Done x d' \<longleftrightarrow> f d = Inr x \<and> d' = d"
  by (auto simp: tx_read_def split: sum.splits)

lemma tx_lift_Done: "tx_lift r d = Done x d' \<longleftrightarrow> r = Inr x \<and> d' = d"
  by (simp add: tx_lift_def tx_read_Done)

lemma tx_guard_Done: "tx_guard bad e d = Done u d' \<longleftrightarrow> \<not> bad \<and> d' = d"
  by (auto simp: tx_guard_def tx_return_def tx_raise_def)

lemma uow_Inr: "uow body d = (Inr x, d') \<longleftrightarrow> body d = Done x d'"
  by (auto simp: uow_def split: tx_result.splits)

text \<open>
  What every step of a transaction keeps, the whole transaction keeps: \<open>keeps I m\<close> says that
  the body preserves \<open>I\<close> on the ways out that write to the database.
\<close>

definition keeps :: "(db \<Rightarrow> bool) \<Rightarrow> 'a tx \<Rightarrow> bool" where
  "keeps I m \<longleftrightarrow> (\<forall>d. I d \<longrightarrow>
     (case m d of Done x d' \<Rightarrow> I d' | Raised e \<Rightarrow> True | CommittedRaise e d' \<Rightarrow> I d'))"

lemma keeps_return [wf_intro]: "keeps I (tx_return x)"
  and keeps_raise [wf_intro]: "keeps I (tx_raise e)"
  and keeps_read [wf_intro]: "keeps I (tx_read f)"
  and keeps_lift [wf_intro]: "keeps I (tx_lift r)"
  and keeps_guard [wf_intro]: "keeps I (tx_guard bad e)"
  and keeps_commit [wf_intro]: "keeps I (tx_commit_raise e)"
  by (simp_all add: keeps_def tx_return_def tx_raise_def tx_read_def tx_lift_def tx_guard_def
      tx_commit_raise_def split: sum.splits)

lemma keeps_bind [wf_intro]: "keeps I m \<Longrightarrow> (\<And>x. keeps I (k x)) \<Longrightarrow> keeps I (tx_bind m k)"
proof (unfold keeps_def, intro allI impI)
  fix d assume m: "\<forall>d. I d \<longrightarrow>
      (case m d of Done x d' \<Rightarrow> I d' | Raised e \<Rightarrow> True | CommittedRaise e d' \<Rightarrow> I d')"
    and k: "\<And>x. \<forall>d. I d \<longrightarrow>
      (case k x d of Done x d' \<Rightarrow> I d' | Raised e \<Rightarrow> True | CommittedRaise e d' \<Rightarrow> I d')"
    and d: "I d"
  show "case tx_bind m k d of Done x d' \<Rightarrow> I d' | Raised e \<Rightarrow> True | CommittedRaise e d' \<Rightarrow> I d'"
  proof (cases "m d")
    case (Done x d1)
    then have "I d1" using spec [OF m, of d] d by simp
    then show ?thesis using spec [OF k [of x], of d1] Done by (simp add: tx_bind_def)
  next
    case (Raised e)
    then show ?thesis by (simp add: tx_bind_def)
  next
    case (CommittedRaise e d1)
    then show ?thesis using spec [OF m, of d] d by (simp add: tx_bind_def)
  qed
qed

lemma keeps_then [wf_intro]: "keeps I m \<Longrightarrow> keeps I k \<Longrightarrow> keeps I (tx_then m k)"
  unfolding tx_then_def by (rule keeps_bind)

lemma keeps_iter [wf_intro]: "(\<And>x. x \<in> set xs \<Longrightarrow> keeps I (f x)) \<Longrightarrow> keeps I (tx_iter f xs)"
  by (induction xs) (simp_all add: keeps_return keeps_then)

lemma keeps_write: "(\<And>d. I d \<Longrightarrow> I (f d)) \<Longrightarrow> keeps I (tx_write f)"
  by (simp add: keeps_def tx_write_def)

lemma keeps_uow: "keeps I body \<Longrightarrow> I d \<Longrightarrow> I (snd (uow body d))"
proof -
  assume "keeps I body" and d: "I d"
  then have "case body d of Done x d' \<Rightarrow> I d' | Raised e \<Rightarrow> True | CommittedRaise e d' \<Rightarrow> I d'"
    by (simp add: keeps_def)
  with d show ?thesis by (cases "body d") (simp_all add: uow_def)
qed

text \<open>A body without an explicit commit: when it raises, the database is as before.\<close>

definition plain :: "'a tx \<Rightarrow> bool" where
  "plain m \<longleftrightarrow> (\<forall>d e d'. m d \<noteq> CommittedRaise e d')"

named_theorems plain_intro \<open>bodies without an explicit commit\<close>

lemma plain_basic [plain_intro]:
  "plain (tx_return x)" "plain (tx_raise e)" "plain (tx_read f)" "plain (tx_lift r)"
  "plain (tx_guard bad e)" "plain (tx_write g)"
  by (simp_all add: plain_def tx_return_def tx_raise_def tx_read_def tx_lift_def tx_guard_def
      tx_write_def split: sum.splits)

lemma plain_bind [plain_intro]: "plain m \<Longrightarrow> (\<And>x. plain (k x)) \<Longrightarrow> plain (tx_bind m k)"
  by (auto simp: plain_def tx_bind_def split: tx_result.splits)

lemma plain_then [plain_intro]: "plain m \<Longrightarrow> plain k \<Longrightarrow> plain (tx_then m k)"
  unfolding tx_then_def by (rule plain_bind)

lemma plain_try [plain_intro]:
  "plain m \<Longrightarrow> (\<And>e. plain (h e)) \<Longrightarrow> (\<And>x. plain (k x)) \<Longrightarrow> plain (tx_try m h k)"
  by (auto simp: plain_def tx_try_def split: tx_result.splits)

lemma plain_if [plain_intro]: "plain m \<Longrightarrow> plain k \<Longrightarrow> plain (if b then m else k)"
  by simp

lemma plain_option [plain_intro]:
  "plain m \<Longrightarrow> (\<And>x. plain (k x)) \<Longrightarrow> plain (case y of None \<Rightarrow> m | Some x \<Rightarrow> k x)"
  by (cases y) simp_all

lemma plain_iter: "(\<And>x. plain (f x)) \<Longrightarrow> plain (tx_iter f xs)"
  by (induction xs) (simp_all add: plain_basic plain_then)

lemma plain_uow: "plain m \<Longrightarrow> (\<And>x d'. m d \<noteq> Done x d') \<Longrightarrow> \<exists>e. uow m d = (Inl e, d)"
  by (cases "m d") (force simp: plain_def uow_def)+

section \<open>Tables\<close>

locale table =
  fixes get :: "db \<Rightarrow> 'r list" and upd :: "('r list \<Rightarrow> 'r list) \<Rightarrow> db \<Rightarrow> db"
    and key :: "'r \<Rightarrow> 'k"
  assumes get_upd: "get (upd f d) = f (get d)"
begin

definition unique_keys :: "db \<Rightarrow> bool" where
  "unique_keys d \<longleftrightarrow> distinct (map key (get d))"

definition row_at :: "'k \<Rightarrow> db \<Rightarrow> 'r option" where
  "row_at k d = find_row key k (get d)"

lemma row_at_upsert:
  assumes "\<And>old. key (merge old r) = key old"
  shows "row_at k (upd (upsert_row key merge r) d) =
    (if k = key r
     then Some (case row_at k d of Some old \<Rightarrow> merge old r | None \<Rightarrow> r) else row_at k d)"
  using assms by (simp add: row_at_def get_upd find_row_upsert)

lemma unique_upsert:
  "unique_keys d \<Longrightarrow> (\<And>old. key (merge old r) = key old) \<Longrightarrow>
   unique_keys (upd (upsert_row key merge r) d)"
  by (simp add: unique_keys_def get_upd distinct_upsert)

lemma row_at_update:
  assumes "\<And>r. key (f r) = key r"
  shows "row_at k (upd (update_rows (\<lambda>r. key r = k') f) d) =
    (if k = k' then map_option f (row_at k d) else row_at k d)"
  using assms by (simp add: row_at_def get_upd find_row_update_rows)

lemma unique_update:
  "unique_keys d \<Longrightarrow> (\<And>r. key (f r) = key r) \<Longrightarrow> unique_keys (upd (update_rows P f) d)"
  by (simp add: unique_keys_def get_upd map_key_update_rows)

lemma unique_append:
  "unique_keys d \<Longrightarrow> row_at (key r) d = None \<Longrightarrow> unique_keys (upd (\<lambda>rs. rs @ [r]) d)"
  by (auto simp: unique_keys_def row_at_def get_upd find_row_None)

lemma unique_filter: "unique_keys d \<Longrightarrow> unique_keys (upd (filter P) d)"
  by (simp add: unique_keys_def get_upd distinct_map_filter)

lemma row_at_mem: "unique_keys d \<Longrightarrow> r \<in> set (get d) \<Longrightarrow> row_at (key r) d = Some r"
  by (simp add: unique_keys_def row_at_def find_row_distinct)

end

abbreviation stage_key :: "stage_row \<Rightarrow> string \<times> string" where
  "stage_key r \<equiv> (sr_run_id r, sr_stage_id r)"

interpretation runs: table db_runs db_runs_update rr_run_id
  by unfold_locales simp

interpretation stages: table db_stages db_stages_update stage_key
  by unfold_locales simp

interpretation subscriptions: table db_subscriptions db_subscriptions_update ur_subscription_id
  by unfold_locales simp

interpretation audits: table db_audit db_audit_update ar_audit_id
  by unfold_locales simp

interpretation actions: table db_actions db_actions_update xr_action_id
  by unfold_locales simp

interpretation users: table db_users db_users_update wr_user_id
  by unfold_locales simp

interpretation sessions: table db_sessions db_sessions_update er_token_hash
  by unfold_locales simp

end
