(* ===== verification/Repo_Run.thy ===== *)
theory Repo_Run
  imports Database
begin

text \<open>
  \<open>SqliteRunRepository\<close>.  \<open>run_to_params\<close> and \<open>row_to_run\<close> are the conversions
  between the aggregate and its row; the operations are transactions named after the methods.
  The lemmas give the round trip of the conversions, what each operation returns and raises,
  and what it leaves alone.
\<close>

section \<open>Conversions\<close>

text \<open>\<open>RunState(text)\<close> and the like inside \<open>try ... except ValueError: raise PersistenceError\<close>.\<close>

definition enum_or :: "dict \<Rightarrow> exn + 'a \<Rightarrow> exn + 'a" where
  "enum_or details r = (case r of Inl e \<Rightarrow> Inl (err PersistenceError details) | Inr x \<Rightarrow> Inr x)"

lemma enum_or_simps [simp]:
  "enum_or d (Inr x) = Inr x" "enum_or d (Inl e) = Inl (err PersistenceError d)"
  by (simp_all add: enum_or_def)

text \<open>A timestamp column: \<open>iso_z\<close> of an aware datetime, held as the instant.\<close>

definition iso_col :: "datetime \<Rightarrow> exn + int" where
  "iso_col v = and_then (iso_z v) (\<lambda>_. Inr (dt_us v))"

lemma iso_col_utc [simp]: "dt_aware v \<Longrightarrow> iso_col v = Inr (dt_us v)"
  by (simp add: iso_col_def iso_z_def)

definition declared_stage_payload :: "declared_stage \<Rightarrow> json" where
  "declared_stage_payload ds = JObj
     [(''stage_id'', JStr (ds_stage_id ds)),
      (''stage_order'', JInt (ds_stage_order ds)),
      (''report_template_name'', JStr (tpl_name (ds_template_ref ds))),
      (''report_template_version'', JStr (tpl_version (ds_template_ref ds)))]"

definition run_to_params :: "run \<Rightarrow> exn + run_row" where
  "run_to_params r =
     check (run_attachment_mode r = SINGLE_AGGREGATED \<and> run_aggregation_template_ref r = None)
       (PyExc RuntimeError [])
     (let agg = (if run_attachment_mode r = SINGLE_AGGREGATED
                 then run_aggregation_template_ref r else None)
      in and_then (iso_col (run_created_at r)) (\<lambda>created.
         and_then (iso_col (run_updated_at r)) (\<lambda>updated. Inr
           \<lparr> rr_run_id = run_run_id r, rr_pipeline_type = run_pipeline_type r,
             rr_state = run_state_value (run_state r),
             rr_attachment_mode = attachment_mode_value (run_attachment_mode r),
             rr_agg_name = map_option tpl_name agg,
             rr_agg_version = map_option tpl_version agg,
             rr_tags = dumps_json (JStrs (sorted_of (run_tags r))),
             rr_declared_stages =
               dumps_json (JArr (map declared_stage_payload (run_declared_stages r))),
             rr_sub_tags = dumps_json (JStrs (sorted_of (run_subscription_predicate_tags r))),
             rr_created_at = created, rr_updated_at = updated \<rparr>)))"

text \<open>
  Reading a JSON column back.  The code iterates over the loaded document and indexes its
  members; a document of another shape, which no code of the service writes, raises in Python
  and is a \<open>DriverError\<close> here.
\<close>

definition shape_error :: exn where
  "shape_error = PyExc DriverError []"

fun json_str :: "json \<Rightarrow> exn + string" where
  "json_str (JStr s) = Inr s"
| "json_str _ = Inl shape_error"

fun json_int :: "json \<Rightarrow> exn + int" where
  "json_int (JInt i) = Inr i"
| "json_int _ = Inl shape_error"

fun json_strs :: "json \<Rightarrow> exn + string list" where
  "json_strs (JArr xs) = map_res json_str xs"
| "json_strs _ = Inl shape_error"

fun json_member :: "json \<Rightarrow> string \<Rightarrow> exn + json" where
  "json_member (JObj d) k = (case dict_get d k of Some v \<Rightarrow> Inr v | None \<Rightarrow> Inl shape_error)"
| "json_member _ k = Inl shape_error"

definition load_declared_stage :: "json \<Rightarrow> exn + declared_stage" where
  "load_declared_stage item =
     and_then (and_then (json_member item ''stage_id'') json_str) (\<lambda>sid.
     and_then (and_then (json_member item ''stage_order'') json_int) (\<lambda>ord.
     and_then (and_then (json_member item ''report_template_name'') json_str) (\<lambda>n.
     and_then (and_then (json_member item ''report_template_version'') json_str) (\<lambda>v.
     and_then (template_ref_post_init \<lparr> tpl_name = n, tpl_version = v \<rparr>) (\<lambda>ref.
     declared_stage_post_init
       \<lparr> ds_stage_id = sid, ds_stage_order = ord, ds_template_ref = ref \<rparr>)))))"

fun load_declared_stages :: "json \<Rightarrow> exn + declared_stage list" where
  "load_declared_stages (JArr xs) = map_res load_declared_stage xs"
| "load_declared_stages _ = Inl shape_error"

text \<open>\<open>except ValueError as exc: raise PersistenceError(...)\<close> around a constructor.\<close>

definition aggregate_or :: "dict \<Rightarrow> exn + 'a \<Rightarrow> exn + 'a" where
  "aggregate_or details r = (case r of
     Inl e \<Rightarrow> if (\<exists>m. e = PyExc ValueError m) then Inl (err PersistenceError details) else Inl e
   | Inr x \<Rightarrow> Inr x)"

definition load_aggregation_ref :: "run_row \<Rightarrow> exn + template_ref option" where
  "load_aggregation_ref row = (case (rr_agg_name row, rr_agg_version row) of
     (Some n, Some v) \<Rightarrow>
       and_then (template_ref_post_init \<lparr> tpl_name = n, tpl_version = v \<rparr>) (\<lambda>r. Inr (Some r))
   | _ \<Rightarrow> Inr None)"

definition row_to_run :: "run_row \<Rightarrow> exn + run" where
  "row_to_run row =
     and_then (enum_or [(''run_id'', JStr (rr_run_id row)), (''state'', JStr (rr_state row))]
       (enum_of_value run_state_value run_states (rr_state row))) (\<lambda>state.
     and_then (enum_or [(''run_id'', JStr (rr_run_id row)),
         (''attachment_mode'', JStr (rr_attachment_mode row))]
       (enum_of_value attachment_mode_value attachment_modes (rr_attachment_mode row))) (\<lambda>mode.
     and_then (load_aggregation_ref row) (\<lambda>agg.
     and_then (json_strs (rr_tags row)) (\<lambda>tags.
     and_then (json_strs (rr_sub_tags row)) (\<lambda>sub_tags.
     and_then (load_declared_stages (rr_declared_stages row)) (\<lambda>declared.
     aggregate_or [(''run_id'', JStr (rr_run_id row)), (''reason'', JStr [])]
       (run_post_init
         \<lparr> run_run_id = rr_run_id row, run_pipeline_type = rr_pipeline_type row,
           run_tags = set tags, run_declared_stages = declared, run_state = state,
           run_attachment_mode = mode, run_created_at = utc (rr_created_at row),
           run_updated_at = utc (rr_updated_at row), run_aggregation_template_ref = agg,
           run_subscription_predicate_tags = set sub_tags \<rparr>)))))))"

section \<open>Operations\<close>

text \<open>\<open>ON CONFLICT(run_id) DO UPDATE\<close> keeps the stored \<open>created_at\<close>.\<close>

definition run_conflict :: "run_row \<Rightarrow> run_row \<Rightarrow> run_row" where
  "run_conflict old r = r\<lparr> rr_run_id := rr_run_id old, rr_created_at := rr_created_at old \<rparr>"

definition run_save :: "run \<Rightarrow> unit tx" where
  "run_save r =
     tx_bind (tx_lift (run_to_params r)) (\<lambda>row.
     tx_then (tx_guard (\<not> runs_accepts row) (PyExc IntegrityError []))
     (tx_write (db_runs_update (upsert_row rr_run_id run_conflict row))))"

definition run_get :: "run_id \<Rightarrow> run tx" where
  "run_get rid = tx_read (\<lambda>d.
     case find_row rr_run_id rid (db_runs d) of
       None \<Rightarrow> Inl (err RunNotFoundError [(''run_id'', JStr rid)])
     | Some row \<Rightarrow> row_to_run row)"

definition set_run_state :: "run_state \<Rightarrow> int \<Rightarrow> run_row \<Rightarrow> run_row" where
  "set_run_state st t row = row\<lparr> rr_state := run_state_value st, rr_updated_at := t \<rparr>"

definition run_update_state :: "run_id \<Rightarrow> run_state \<Rightarrow> datetime \<Rightarrow> unit tx" where
  "run_update_state rid st now =
     tx_bind (tx_lift (iso_col now)) (\<lambda>t.
     tx_bind (tx_read (\<lambda>d. Inr (filter (\<lambda>r. rr_run_id r = rid) (db_runs d)))) (\<lambda>matching.
     tx_then (tx_write (db_runs_update
       (update_rows (\<lambda>r. rr_run_id r = rid) (set_run_state st t))))
     (tx_guard (matching = []) (err RunNotFoundError
       [(''run_id'', JStr rid), (''new_state'', JStr (run_state_value st))]))))"

definition run_list_in_states :: "run_state set \<Rightarrow> run list tx" where
  "run_list_in_states sts = tx_read (\<lambda>d.
     if sts = {} then Inr []
     else map_res row_to_run
       (sort_key rr_updated_at (filter (\<lambda>r. rr_state r \<in> run_state_value ` sts) (db_runs d))))"

definition run_list_expired :: "datetime \<Rightarrow> run_state set \<Rightarrow> int \<Rightarrow> run list tx" where
  "run_list_expired cutoff sts limit = tx_read (\<lambda>d.
     check (limit < 1) value_error
     (if sts = {} then Inr []
      else and_then (iso_col cutoff) (\<lambda>c.
        map_res row_to_run (take (nat limit) (sort_key rr_updated_at
          (filter (\<lambda>r. rr_updated_at r \<le> c \<and> rr_state r \<in> run_state_value ` sts) (db_runs d)))))))"

text \<open>
  \<open>ORDER BY created_at DESC, run_id DESC\<close>: a stable sort by the second key and then by the
  first, reversed.
\<close>

definition run_list_paginated :: "run_state set \<Rightarrow> int \<Rightarrow> int \<Rightarrow> run list tx" where
  "run_list_paginated sts limit offset = tx_read (\<lambda>d.
     check (limit < 1) value_error
     (check (offset < 0) value_error
     (if sts = {} then Inr []
      else map_res row_to_run (take (nat limit) (drop (nat offset)
        (rev (sort_key rr_created_at (sort_key rr_run_id
          (filter (\<lambda>r. rr_state r \<in> run_state_value ` sts) (db_runs d))))))))))"

section \<open>Round trip\<close>

lemma load_declared_stage_payload:
  assumes "declared_stage_ok ds"
  shows "load_declared_stage (dumps_json (declared_stage_payload ds)) = Inr ds"
  using assms
  by (simp add: load_declared_stage_def declared_stage_payload_def dict_get_sort_key
      dict_get_def template_ref_post_init_def declared_stage_post_init_def declared_stage_ok_def
      template_ref_ok_def check_def comp_def split_beta)

lemma map_res_json_str [simp]: "map_res json_str (map JStr xs) = Inr xs"
  by (induction xs) simp_all

lemma json_strs_JStrs: "json_strs (JStrs xs) = Inr xs"
  by simp

text \<open>The runs the service can build: the aggregate invariants of the run and its parts.\<close>

definition run_storable :: "run \<Rightarrow> bool" where
  "run_storable r \<longleftrightarrow> run_ok r \<and> finite (run_tags r) \<and> finite (run_subscription_predicate_tags r) \<and>
     (\<forall>ds \<in> set (run_declared_stages r). declared_stage_ok ds) \<and>
     (\<forall>ref. run_aggregation_template_ref r = Some ref \<longrightarrow> template_ref_ok ref)"

definition drop_unused_ref :: "run \<Rightarrow> run" where
  "drop_unused_ref r =
     (if run_attachment_mode r = PER_STAGE then r\<lparr> run_aggregation_template_ref := None \<rparr> else r)"

lemma run_to_params_Inr: "run_ok r \<Longrightarrow> \<exists>row. run_to_params r = Inr row"
  by (auto simp: run_to_params_def run_ok_def check_def Let_def)

lemma load_aggregation_ref_params:
  assumes "run_to_params r = Inr row" and "run_storable r"
  shows "load_aggregation_ref row =
    Inr (if run_attachment_mode r = SINGLE_AGGREGATED then run_aggregation_template_ref r else None)"
  using assms
  by (cases "run_aggregation_template_ref r")
     (auto simp: run_to_params_def load_aggregation_ref_def run_storable_def run_ok_def check_def
       Let_def template_ref_post_init_def template_ref_ok_def)

lemma load_declared_stages_payload:
  assumes "\<forall>ds \<in> set dss. declared_stage_ok ds"
  shows "load_declared_stages (dumps_json (JArr (map declared_stage_payload dss))) = Inr dss"
  using assms by (induction dss) (simp_all add: load_declared_stage_payload)

lemma row_to_run_to_params:
  assumes "run_storable r" and "run_to_params r = Inr row"
  shows "row_to_run row = Inr (drop_unused_ref r)"
proof -
  have ok: "run_ok r" using assms(1) by (simp add: run_storable_def)
  have cols: "rr_run_id row = run_run_id r" "rr_pipeline_type row = run_pipeline_type r"
    "rr_state row = run_state_value (run_state r)"
    "rr_attachment_mode row = attachment_mode_value (run_attachment_mode r)"
    "rr_tags row = JStrs (sorted_of (run_tags r))"
    "rr_sub_tags row = JStrs (sorted_of (run_subscription_predicate_tags r))"
    "rr_declared_stages row = dumps_json (JArr (map declared_stage_payload (run_declared_stages r)))"
    "rr_created_at row = dt_us (run_created_at r)" "rr_updated_at row = dt_us (run_updated_at r)"
    using assms(2) ok
    by (auto simp: run_to_params_def run_ok_def check_def Let_def simp del: dumps_json.simps)
  have dss: "\<forall>ds \<in> set (run_declared_stages r). declared_stage_ok ds"
    and fin: "finite (run_tags r)" "finite (run_subscription_predicate_tags r)"
    using assms(1) by (auto simp: run_storable_def)
  have "run_ok (drop_unused_ref r)" using ok by (simp add: drop_unused_ref_def run_ok_def)
  then have init: "run_post_init (drop_unused_ref r) = Inr (drop_unused_ref r)"
    by (simp add: run_post_init_Inr)
  have times: "utc (dt_us (run_created_at r)) = run_created_at r"
    "utc (dt_us (run_updated_at r)) = run_updated_at r"
    using ok by (simp_all add: run_ok_def)
  have rec: "\<lparr> run_run_id = run_run_id r, run_pipeline_type = run_pipeline_type r,
      run_tags = run_tags r, run_declared_stages = run_declared_stages r,
      run_state = run_state r, run_attachment_mode = run_attachment_mode r,
      run_created_at = run_created_at r, run_updated_at = run_updated_at r,
      run_aggregation_template_ref =
        (if run_attachment_mode r = SINGLE_AGGREGATED then run_aggregation_template_ref r else None),
      run_subscription_predicate_tags = run_subscription_predicate_tags r \<rparr> = drop_unused_ref r"
    by (cases "run_attachment_mode r") (simp_all add: drop_unused_ref_def)
  show ?thesis
    unfolding row_to_run_def cols load_aggregation_ref_params [OF assms(2,1)]
      load_declared_stages_payload [OF dss] times
      run_state_enum.of_value_value attachment_mode_enum.of_value_value enum_or_simps
      and_then_simps json_strs_JStrs set_sorted_list_of_set [OF fin(1)]
      set_sorted_list_of_set [OF fin(2)] rec init
    by (simp add: aggregate_or_def)
qed

section \<open>What a readable row says\<close>

lemma aggregate_or_Inr: "aggregate_or d r = Inr x \<longleftrightarrow> r = Inr x"
  by (auto simp: aggregate_or_def split: sum.splits)

lemma enum_or_Inr: "enum_or d r = Inr x \<longleftrightarrow> r = Inr x"
  by (auto simp: enum_or_def split: sum.splits)

lemma row_to_run_Inr:
  assumes "row_to_run row = Inr r"
  shows "run_run_id r = rr_run_id row" "run_pipeline_type r = rr_pipeline_type row"
    "rr_state row = run_state_value (run_state r)"
    "run_created_at r = utc (rr_created_at row)" "run_updated_at r = utc (rr_updated_at row)"
    "run_ok r"
  using assms unfolding row_to_run_def
  by (auto simp: and_then_Inr aggregate_or_Inr enum_or_Inr run_state_enum.of_value_Inr
      run_post_init_Inr)

text \<open>
  Reading a row whose state and \<open>updated_at\<close> were overwritten: the run with these fields,
  unless the new time lies before \<open>created_at\<close>, when every reader of the row fails.
\<close>

lemma row_to_run_parts:
  assumes "row_to_run row = Inr r"
  shows "enum_of_value attachment_mode_value attachment_modes (rr_attachment_mode row)
           = Inr (run_attachment_mode r)"
    "load_aggregation_ref row = Inr (run_aggregation_template_ref r)"
    "load_declared_stages (rr_declared_stages row) = Inr (run_declared_stages r)"
    "\<exists>tags. json_strs (rr_tags row) = Inr tags \<and> run_tags r = set tags"
    "\<exists>tags. json_strs (rr_sub_tags row) = Inr tags \<and> run_subscription_predicate_tags r = set tags"
  using assms unfolding row_to_run_def
  by (auto simp: and_then_Inr aggregate_or_Inr enum_or_Inr run_post_init_Inr)

lemma row_to_run_set_state:
  assumes "row_to_run row = Inr r"
  shows "row_to_run (set_run_state st t row) =
    (if rr_created_at row \<le> t then Inr (r\<lparr> run_state := st, run_updated_at := utc t \<rparr>)
     else Inl (err PersistenceError [(''run_id'', JStr (rr_run_id row)), (''reason'', JStr [])]))"
proof -
  note facts = row_to_run_Inr [OF assms] and parts = row_to_run_parts [OF assms]
  obtain tags sub_tags where tags: "json_strs (rr_tags row) = Inr tags" "run_tags r = set tags"
    and sub_tags: "json_strs (rr_sub_tags row) = Inr sub_tags"
      "run_subscription_predicate_tags r = set sub_tags"
    using parts(4,5) by blast
  define r' where "r' = r\<lparr> run_state := st, run_updated_at := utc t \<rparr>"
  have load: "load_aggregation_ref (set_run_state st t row) = Inr (run_aggregation_template_ref r)"
    using parts(2) by (simp add: load_aggregation_ref_def set_run_state_def)
  have rec: "\<lparr> run_run_id = rr_run_id row, run_pipeline_type = rr_pipeline_type row,
      run_tags = set tags, run_declared_stages = run_declared_stages r, run_state = st,
      run_attachment_mode = run_attachment_mode r, run_created_at = utc (rr_created_at row),
      run_updated_at = utc t, run_aggregation_template_ref = run_aggregation_template_ref r,
      run_subscription_predicate_tags = set sub_tags \<rparr> = r'"
    using facts tags(2) sub_tags(2) by (cases r) (simp add: r'_def)
  have cols: "rr_state (set_run_state st t row) = run_state_value st"
    "rr_updated_at (set_run_state st t row) = t"
    "rr_attachment_mode (set_run_state st t row) = rr_attachment_mode row"
    "rr_tags (set_run_state st t row) = rr_tags row"
    "rr_sub_tags (set_run_state st t row) = rr_sub_tags row"
    "rr_declared_stages (set_run_state st t row) = rr_declared_stages row"
    "rr_run_id (set_run_state st t row) = rr_run_id row"
    "rr_pipeline_type (set_run_state st t row) = rr_pipeline_type row"
    "rr_created_at (set_run_state st t row) = rr_created_at row"
    by (simp_all add: set_run_state_def)
  have *: "row_to_run (set_run_state st t row) =
    aggregate_or [(''run_id'', JStr (rr_run_id row)), (''reason'', JStr [])] (run_post_init r')"
    unfolding row_to_run_def cols load parts(1,3) tags(1) sub_tags(1)
      run_state_enum.of_value_value enum_or_simps and_then_simps rec ..
  have ok: "run_ok r' \<longleftrightarrow> rr_created_at row \<le> t"
    using facts(4,6) by (simp add: r'_def run_ok_def)
  show ?thesis
  proof (cases "rr_created_at row \<le> t")
    case True
    then have "run_post_init r' = Inr r'" using ok by (simp add: run_post_init_Inr)
    with True show ?thesis by (simp add: * aggregate_or_def r'_def)
  next
    case False
    then have "run_post_init r' = Inl value_error" using ok by (simp add: run_post_init_Inl)
    with False show ?thesis by (simp add: * aggregate_or_def)
  qed
qed

section \<open>What the operations return\<close>

lemma run_get_Done [repo_simps]:
  "run_get rid d = Done r d' \<longleftrightarrow> d' = d \<and>
     (\<exists>row. find_row rr_run_id rid (db_runs d) = Some row \<and> row_to_run row = Inr r)"
  by (auto simp: run_get_def tx_read_Done split: option.splits)

lemma run_get_missing [repo_simps]:
  "find_row rr_run_id rid (db_runs d) = None \<Longrightarrow>
   run_get rid d = Raised (err RunNotFoundError [(''run_id'', JStr rid)])"
  by (simp add: run_get_def tx_read_def)

lemma run_get_id: "run_get rid d = Done r d' \<Longrightarrow> run_run_id r = rid"
  by (auto simp: run_get_Done dest: find_row_Some row_to_run_Inr(1))

lemma run_update_state_run [repo_simps]:
  assumes "find_row rr_run_id rid (db_runs d) = Some row"
  shows "run_update_state rid st (utc t) d =
    Done () (db_runs_update (update_rows (\<lambda>r. rr_run_id r = rid) (set_run_state st t)) d)"
proof -
  have "filter (\<lambda>r. rr_run_id r = rid) (db_runs d) \<noteq> []"
    using find_row_Some [OF assms] by (auto simp: filter_empty_conv)
  then show ?thesis
    by (simp add: run_update_state_def tx_simps tx_bind_def tx_lift_def tx_read_def)
qed

lemma run_update_state_missing [repo_simps]:
  assumes "find_row rr_run_id rid (db_runs d) = None"
  shows "run_update_state rid st (utc t) d = Raised (err RunNotFoundError
       [(''run_id'', JStr rid), (''new_state'', JStr (run_state_value st))])"
proof -
  have "filter (\<lambda>r. rr_run_id r = rid) (db_runs d) = []"
    using assms by (auto simp: find_row_None filter_empty_conv)
  then show ?thesis
    by (simp add: run_update_state_def tx_simps tx_bind_def tx_lift_def tx_read_def)
qed

lemma run_to_params_accepted:
  assumes "run_to_params r = Inr row"
  shows "runs_accepts row"
proof -
  have "rr_state row = run_state_value (run_state r)"
    using assms by (auto simp: run_to_params_def check_def Let_def and_then_Inr split: if_splits)
  then have "rr_state row \<in> {''INITIATED'', ''AGGREGATING'', ''READY'', ''SENDING'', ''SENT'',
      ''FAILED'', ''ORPHANED''}"
    by (cases "run_state r") simp_all
  moreover have "rr_attachment_mode row = attachment_mode_value (run_attachment_mode r)"
    and "rr_agg_name row = None \<longleftrightarrow> run_attachment_mode r = PER_STAGE"
    and "rr_agg_version row = None \<longleftrightarrow> run_attachment_mode r = PER_STAGE"
    using assms by (cases "run_attachment_mode r"; cases "run_aggregation_template_ref r";
      auto simp: run_to_params_def check_def Let_def and_then_Inr)+
  ultimately show ?thesis
    by (cases "run_attachment_mode r") (simp_all add: runs_accepts_def)
qed

lemma run_to_params_key: "run_to_params r = Inr row \<Longrightarrow> rr_run_id row = run_run_id r"
  by (auto simp: run_to_params_def check_def Let_def and_then_Inr split: if_splits)

lemma run_save_run [repo_simps]:
  assumes "run_to_params r = Inr row"
  shows "run_save r d = Done () (db_runs_update (upsert_row rr_run_id run_conflict row) d)"
  using run_to_params_accepted [OF assms] assms
  by (simp add: run_save_def tx_simps tx_bind_def tx_lift_def tx_read_def)

text \<open>Saving a run under a new id, then reading it, returns the run.\<close>

lemma run_get_after_save:
  assumes "run_storable r" and "find_row rr_run_id (run_run_id r) (db_runs d) = None"
    and "run_save r d = Done () d'"
  shows "run_get (run_run_id r) d' = Done (drop_unused_ref r) d'"
proof -
  obtain row where row: "run_to_params r = Inr row"
    using assms(1) run_to_params_Inr [of r] by (auto simp: run_storable_def)
  have "d' = db_runs_update (upsert_row rr_run_id run_conflict row) d"
    using assms(3) run_save_run [OF row] by simp
  moreover have "rr_run_id (run_conflict old row) = rr_run_id old" for old
    by (simp add: run_conflict_def)
  ultimately have "find_row rr_run_id (run_run_id r) (db_runs d') = Some row"
    using assms(2) run_to_params_key [OF row] by (simp add: find_row_upsert)
  then show ?thesis using row_to_run_to_params [OF assms(1) row] by (simp add: run_get_Done)
qed

lemma run_plain [plain_intro]:
  "plain (run_get rid)" "plain (run_save r)" "plain (run_update_state rid st now)"
  "plain (run_list_in_states sts)" "plain (run_list_expired now sts n)"
  "plain (run_list_paginated sts n m)"
  unfolding run_get_def run_save_def run_update_state_def run_list_in_states_def
    run_list_expired_def run_list_paginated_def
  by (intro plain_intro)+

section \<open>Well-formed run tables\<close>

text \<open>Unique ids, and every row reads back as a run.\<close>

definition runs_wf :: "db \<Rightarrow> bool" where
  "runs_wf d \<longleftrightarrow> runs.unique_keys d \<and> (\<forall>row \<in> set (db_runs d). \<exists>r. row_to_run row = Inr r)"

lemma runs_wf_save:
  assumes "runs_wf d" and "run_storable r" and "run_to_params r = Inr row"
    and "find_row rr_run_id (run_run_id r) (db_runs d) = None"
  shows "runs_wf (db_runs_update (upsert_row rr_run_id run_conflict row) d)"
proof -
  have new: "rr_run_id row \<notin> rr_run_id ` set (db_runs d)"
    using assms(4) run_to_params_key [OF assms(3)] by (simp add: find_row_None)
  then show ?thesis
    using assms(1) row_to_run_to_params [OF assms(2,3)]
    by (auto simp: runs_wf_def upsert_row_def runs.unique_keys_def)
qed

lemma runs_wf_set_state:
  assumes "runs_wf d"
    and "\<And>row. find_row rr_run_id rid (db_runs d) = Some row \<Longrightarrow> rr_created_at row \<le> t"
  shows "runs_wf (db_runs_update (update_rows (\<lambda>r. rr_run_id r = rid) (set_run_state st t)) d)"
proof -
  have key: "rr_run_id (set_run_state st t r) = rr_run_id r" for r by (simp add: set_run_state_def)
  have "\<exists>r. row_to_run row = Inr r"
    if row: "row \<in> set (update_rows (\<lambda>r. rr_run_id r = rid) (set_run_state st t) (db_runs d))" for row
  proof -
    from set_update_rows [OF row] obtain row0 where row0: "row0 \<in> set (db_runs d)"
      and eq: "row = (if rr_run_id row0 = rid then set_run_state st t row0 else row0)" by blast
    from row0 assms(1) obtain r0 where r0: "row_to_run row0 = Inr r0" by (auto simp: runs_wf_def)
    show ?thesis
    proof (cases "rr_run_id row0 = rid")
      case False
      with eq r0 show ?thesis by simp
    next
      case True
      have "find_row rr_run_id (rr_run_id row0) (db_runs d) = Some row0"
        using runs.row_at_mem [of d row0] assms(1) row0 by (simp add: runs_wf_def runs.row_at_def)
      with True assms(2) have "rr_created_at row0 \<le> t" by simp
      with True eq row_to_run_set_state [OF r0] show ?thesis by simp
    qed
  qed
  moreover have "runs.unique_keys (db_runs_update (update_rows (\<lambda>r. rr_run_id r = rid)
      (set_run_state st t)) d)"
    using runs.unique_update [of d "set_run_state st t"] assms(1) key by (simp add: runs_wf_def)
  ultimately show ?thesis by (simp add: runs_wf_def)
qed

section \<open>Properties\<close>

definition sample_stored_run :: run where
  "sample_stored_run =
     \<lparr> run_run_id = ''r1'', run_pipeline_type = ''nightly'', run_tags = {''qa''},
       run_declared_stages = [], run_state = INITIATED, run_attachment_mode = PER_STAGE,
       run_created_at = utc 5, run_updated_at = utc 5, run_aggregation_template_ref = None,
       run_subscription_predicate_tags = {''qa''} \<rparr>"

lemma sample_stored_run_ok: "run_storable sample_stored_run"
  by (simp add: run_storable_def run_ok_def sample_stored_run_def)



text \<open>
  \<open>update_state\<close> with a clock that has stepped back behind the run's creation succeeds,
  and from then on every read of the run fails with PersistenceError, whatever its new state.
\<close>

theorem update_state_clock_regression:
  assumes "run_get rid d = Done r d" and "now < dt_us (run_created_at r)"
  shows "\<exists>d'. run_update_state rid st (utc now) d = Done () d' \<and>
    (\<exists>e. run_get rid d' = Raised e \<and> exn_is e PersistenceError)"
proof -
  obtain row where row: "find_row rr_run_id rid (db_runs d) = Some row" "row_to_run row = Inr r"
    using assms(1) by (auto simp: run_get_Done)
  have "now < rr_created_at row" using assms(2) row_to_run_Inr(4) [OF row(2)] by simp
  then have "row_to_run (set_run_state st now row) = Inl (err PersistenceError
      [(''run_id'', JStr (rr_run_id row)), (''reason'', JStr [])])"
    using row_to_run_set_state [OF row(2)] by simp
  then show ?thesis
    using row(1) by (simp add: run_update_state_run [OF row(1)] run_get_def tx_read_def
        find_row_update_rows set_run_state_def [of st now])
qed

theorem update_state_clock_regression_witness:
  "\<exists>d r d'. run_get ''r1'' d = Done r d \<and> run_update_state ''r1'' READY (utc 4) d = Done () d' \<and>
     (\<exists>e. run_get ''r1'' d' = Raised e \<and> exn_is e PersistenceError)"
proof -
  obtain row where row: "run_to_params sample_stored_run = Inr row"
    using run_to_params_Inr [of sample_stored_run] sample_stored_run_ok
    by (auto simp: run_storable_def)
  define d where "d = db_runs_update (upsert_row rr_run_id run_conflict row) empty_db"
  have "run_get (run_run_id sample_stored_run) d = Done (drop_unused_ref sample_stored_run) d"
    unfolding d_def
    by (rule run_get_after_save [OF sample_stored_run_ok _ run_save_run [OF row]])
       (simp add: empty_db_def)
  then have "run_get ''r1'' d = Done (drop_unused_ref sample_stored_run) d"
    by (simp add: sample_stored_run_def)
  moreover have "4 < dt_us (run_created_at (drop_unused_ref sample_stored_run))"
    by (simp add: drop_unused_ref_def sample_stored_run_def)
  ultimately show ?thesis using update_state_clock_regression by blast
qed

end
