(* ===== verification/Repo_Stage.thy ===== *)
theory Repo_Stage
  imports Repo_Run
begin

text \<open>
  \<open>SqliteStageRepository\<close>: conversions between the \<open>Stage\<close> aggregate and its row, and
  the operations.  The lemmas give the round trip and what the operations return and raise.
  The schema rejects two kinds of stage the aggregate allows (\<open>IN_PROGRESS\<close>, and a timed-out
  or failed stage that was never submitted), so \<open>stage_storable\<close> is stronger than
  \<open>stage_ok\<close>.
\<close>

section \<open>Conversions\<close>

definition iso_col_opt :: "datetime option \<Rightarrow> exn + int option" where
  "iso_col_opt v = (case v of
     None \<Rightarrow> Inr None
   | Some t \<Rightarrow> and_then (iso_col t) (\<lambda>i. Inr (Some i)))"

definition stage_to_params :: "stage \<Rightarrow> exn + stage_row" where
  "stage_to_params s =
     and_then (iso_col_opt (stage_submitted_at s)) (\<lambda>submitted. Inr
       \<lparr> sr_run_id = stage_run_id s, sr_stage_id = stage_stage_id s,
         sr_state = stage_state_value (stage_state s),
         sr_template_name = tpl_name (stage_template_ref s),
         sr_template_version = tpl_version (stage_template_ref s),
         sr_report_context = stage_report_context s,
         sr_email_body_context = stage_email_body_context s,
         sr_submitted_at = submitted,
         sr_email_body_position =
           map_option email_body_position_value (stage_email_body_position s) \<rparr>)"

definition load_position :: "stage_row \<Rightarrow> exn + email_body_position option" where
  "load_position row = (case sr_email_body_position row of
     None \<Rightarrow> Inr None
   | Some p \<Rightarrow> and_then (enum_or [(''run_id'', JStr (sr_run_id row)),
         (''stage_id'', JStr (sr_stage_id row)), (''email_body_position'', JStr p)]
       (enum_of_value email_body_position_value email_body_positions p)) (\<lambda>x. Inr (Some x)))"

definition row_to_stage :: "stage_row \<Rightarrow> exn + stage" where
  "row_to_stage row =
     and_then (enum_or [(''run_id'', JStr (sr_run_id row)), (''stage_id'', JStr (sr_stage_id row)),
         (''state'', JStr (sr_state row))]
       (enum_of_value stage_state_value stage_states (sr_state row))) (\<lambda>state.
     and_then (load_position row) (\<lambda>position.
     aggregate_or [(''run_id'', JStr (sr_run_id row)), (''stage_id'', JStr (sr_stage_id row)),
         (''reason'', JStr [])]
       (and_then (template_ref_post_init
          \<lparr> tpl_name = sr_template_name row, tpl_version = sr_template_version row \<rparr>) (\<lambda>ref.
        stage_post_init
          \<lparr> stage_run_id = sr_run_id row, stage_stage_id = sr_stage_id row, stage_state = state,
            stage_template_ref = ref, stage_report_context = sr_report_context row,
            stage_email_body_context = sr_email_body_context row,
            stage_email_body_position = position,
            stage_submitted_at = map_option utc (sr_submitted_at row) \<rparr>))))"

section \<open>Operations\<close>

definition stage_conflict :: "stage_row \<Rightarrow> stage_row \<Rightarrow> stage_row" where
  "stage_conflict old r = r\<lparr> sr_run_id := sr_run_id old, sr_stage_id := sr_stage_id old \<rparr>"

definition stage_save :: "stage \<Rightarrow> unit tx" where
  "stage_save s =
     tx_bind (tx_lift (stage_to_params s)) (\<lambda>row.
     tx_then (tx_read (\<lambda>d. if stages_accepts d row then Inr () else Inl (PyExc IntegrityError [])))
     (tx_write (db_stages_update (upsert_row stage_key stage_conflict row))))"

definition stage_get :: "run_id \<Rightarrow> stage_id \<Rightarrow> stage tx" where
  "stage_get rid sid = tx_read (\<lambda>d.
     case find_row stage_key (rid, sid) (db_stages d) of
       None \<Rightarrow> Inl (err UnknownStageError [(''run_id'', JStr rid), (''stage_id'', JStr sid)])
     | Some row \<Rightarrow> row_to_stage row)"

definition stage_list_by_run :: "run_id \<Rightarrow> stage list tx" where
  "stage_list_by_run rid = tx_read (\<lambda>d.
     map_res row_to_stage (filter (\<lambda>r. sr_run_id r = rid) (db_stages d)))"

definition set_stage_state :: "stage_state \<Rightarrow> int option \<Rightarrow> stage_row \<Rightarrow> stage_row" where
  "set_stage_state st t row = row\<lparr> sr_state := stage_state_value st, sr_submitted_at := t \<rparr>"

definition stage_update_state :: "run_id \<Rightarrow> stage_id \<Rightarrow> stage_state \<Rightarrow> datetime \<Rightarrow> unit tx" where
  "stage_update_state rid sid st now =
     tx_bind (tx_lift (if st = PENDING then Inr None else iso_col_opt (Some now))) (\<lambda>t.
     tx_bind (tx_read (\<lambda>d.
       (case find_row stage_key (rid, sid) (db_stages d) of
          None \<Rightarrow> Inl (err UnknownStageError [(''run_id'', JStr rid), (''stage_id'', JStr sid),
                    (''new_state'', JStr (stage_state_value st))])
        | Some row \<Rightarrow> if stages_accepts d (set_stage_state st t row) then Inr ()
                      else Inl (PyExc IntegrityError [])))) (\<lambda>_.
     tx_write (db_stages_update
       (update_rows (\<lambda>r. stage_key r = (rid, sid)) (set_stage_state st t)))))"

definition stage_list_pending_by_run :: "run_id \<Rightarrow> stage_id list tx" where
  "stage_list_pending_by_run rid = tx_read (\<lambda>d. Inr (map sr_stage_id
     (filter (\<lambda>r. sr_run_id r = rid \<and> sr_state r = stage_state_value PENDING) (db_stages d))))"

section \<open>Round trip\<close>

definition stage_storable :: "stage \<Rightarrow> bool" where
  "stage_storable s \<longleftrightarrow> stage_ok s \<and> template_ref_ok (stage_template_ref s) \<and>
     stage_state s \<noteq> IN_PROGRESS \<and>
     (stage_state s \<noteq> PENDING \<longrightarrow> stage_submitted_at s \<noteq> None)"

lemma stage_to_params_Inr: "stage_ok s \<Longrightarrow> \<exists>row. stage_to_params s = Inr row"
  by (cases "stage_submitted_at s")
     (auto simp: stage_to_params_def iso_col_opt_def stage_ok_def)

lemma load_position_value:
  "sr_email_body_position row = map_option email_body_position_value p \<Longrightarrow> load_position row = Inr p"
  by (cases p) (simp_all add: load_position_def email_body_position_enum.of_value_value)

lemma row_to_stage_to_params:
  assumes ok: "stage_ok s" and ref: "template_ref_ok (stage_template_ref s)"
    and row: "stage_to_params s = Inr row"
  shows "row_to_stage row = Inr s"
proof -
  have time: "map_option utc (sr_submitted_at row) = stage_submitted_at s"
    using row ok by (cases "stage_submitted_at s")
      (auto simp: stage_to_params_def iso_col_opt_def stage_ok_def)
  have cols: "sr_run_id row = stage_run_id s" "sr_stage_id row = stage_stage_id s"
    "sr_state row = stage_state_value (stage_state s)"
    "sr_template_name row = tpl_name (stage_template_ref s)"
    "sr_template_version row = tpl_version (stage_template_ref s)"
    "sr_report_context row = stage_report_context s"
    "sr_email_body_context row = stage_email_body_context s"
    "sr_email_body_position row = map_option email_body_position_value (stage_email_body_position s)"
    using row by (auto simp: stage_to_params_def and_then_Inr)
  have ref: "template_ref_post_init \<lparr> tpl_name = tpl_name (stage_template_ref s),
      tpl_version = tpl_version (stage_template_ref s) \<rparr> = Inr (stage_template_ref s)"
    using ref by (simp add: template_ref_post_init_Inr template_ref_ok_def)
  have init: "stage_post_init s = Inr s" using ok by (simp add: stage_post_init_Inr)
  have rec: "\<lparr> stage_run_id = stage_run_id s, stage_stage_id = stage_stage_id s,
      stage_state = stage_state s, stage_template_ref = stage_template_ref s,
      stage_report_context = stage_report_context s,
      stage_email_body_context = stage_email_body_context s,
      stage_email_body_position = stage_email_body_position s,
      stage_submitted_at = stage_submitted_at s \<rparr> = s" by simp
  show ?thesis
    unfolding row_to_stage_def load_position_value [OF cols(8)] time cols enum_or_simps
      stage_state_enum.of_value_value and_then_simps ref rec init
    by (simp add: aggregate_or_def)
qed

lemma row_to_stage_Inr:
  assumes "row_to_stage row = Inr s"
  shows "stage_run_id s = sr_run_id row" "stage_stage_id s = sr_stage_id row"
    "sr_state row = stage_state_value (stage_state s)" "stage_ok s"
    "stage_template_ref s = \<lparr> tpl_name = sr_template_name row, tpl_version = sr_template_version row \<rparr>"
    "template_ref_ok (stage_template_ref s)"
    "stage_submitted_at s = map_option utc (sr_submitted_at row)"
  using assms unfolding row_to_stage_def
  by (auto simp: and_then_Inr aggregate_or_Inr enum_or_Inr stage_state_enum.of_value_Inr
      stage_post_init_Inr template_ref_post_init_Inr)

section \<open>What the operations return\<close>

lemma stage_to_params_key: "stage_to_params s = Inr row \<Longrightarrow> stage_key row = (stage_run_id s, stage_stage_id s)"
  by (auto simp: stage_to_params_def and_then_Inr)

lemma stage_to_params_accepted:
  assumes "stage_storable s" and "stage_to_params s = Inr row"
    and "stage_run_id s \<in> rr_run_id ` set (db_runs d)"
  shows "stages_accepts d row"
proof -
  have state: "sr_state row = stage_state_value (stage_state s)" and rid: "sr_run_id row = stage_run_id s"
    and pos: "sr_email_body_position row =
        map_option email_body_position_value (stage_email_body_position s)"
    using assms(2) by (auto simp: stage_to_params_def and_then_Inr)
  have time: "sr_submitted_at row = None \<longleftrightarrow> stage_submitted_at s = None"
    using assms(2) by (cases "stage_submitted_at s")
      (auto simp: stage_to_params_def and_then_Inr iso_col_opt_def)
  have "case sr_email_body_position row of None \<Rightarrow> True
    | Some p \<Rightarrow> p \<in> {''BEFORE_STAGES_SUMMARY'', ''AFTER_STAGES_SUMMARY''}"
  proof (cases "stage_email_body_position s")
    case None
    then show ?thesis by (simp add: pos)
  next
    case (Some p)
    then show ?thesis by (cases p) (simp_all add: pos)
  qed
  then show ?thesis
    using assms(1,3) by (cases "stage_state s")
      (simp_all add: stages_accepts_def state rid time stage_storable_def stage_ok_def
        submission_states_def)
qed

lemma stage_get_Done [repo_simps]:
  "stage_get rid sid d = Done s d' \<longleftrightarrow> d' = d \<and>
     (\<exists>row. find_row stage_key (rid, sid) (db_stages d) = Some row \<and> row_to_stage row = Inr s)"
  by (auto simp: stage_get_def tx_read_Done split: option.splits)

lemma stage_get_id: "stage_get rid sid d = Done s d' \<Longrightarrow> stage_run_id s = rid \<and> stage_stage_id s = sid"
  by (auto simp: stage_get_Done dest!: find_row_Some dest: row_to_stage_Inr(1,2))

lemma stage_save_stage [repo_simps]:
  assumes "stage_storable s" and "stage_to_params s = Inr row"
    and "stage_run_id s \<in> rr_run_id ` set (db_runs d)"
  shows "stage_save s d = Done () (db_stages_update (upsert_row stage_key stage_conflict row) d)"
  using stage_to_params_accepted [OF assms] assms(2)
  by (simp add: stage_save_def tx_simps tx_bind_def tx_lift_def tx_read_def)

lemma stage_conflict_key [simp]: "stage_key (stage_conflict old r) = stage_key old"
  by (simp add: stage_conflict_def)

lemma stage_conflict_same: "stage_key old = stage_key r \<Longrightarrow> stage_conflict old r = r"
  by (cases r) (simp add: stage_conflict_def)

text \<open>Whatever a stage held before, after a save it holds exactly the saved stage.\<close>

lemma stage_get_after_save:
  assumes "stage_storable s" and "stage_run_id s \<in> rr_run_id ` set (db_runs d)"
    and "stage_save s d = Done () d'"
  shows "stage_get rid sid d' =
    (if (rid, sid) = (stage_run_id s, stage_stage_id s) then Done s d'
     else (case find_row stage_key (rid, sid) (db_stages d) of
        None \<Rightarrow> Raised (err UnknownStageError [(''run_id'', JStr rid), (''stage_id'', JStr sid)])
      | Some row \<Rightarrow> (case row_to_stage row of Inl e \<Rightarrow> Raised e | Inr s \<Rightarrow> Done s d')))"
proof -
  have ok: "stage_ok s" "template_ref_ok (stage_template_ref s)"
    using assms(1) by (simp_all add: stage_storable_def)
  obtain row where row: "stage_to_params s = Inr row" using stage_to_params_Inr [OF ok(1)] by blast
  note key = stage_to_params_key [OF row]
  have d': "d' = db_stages_update (upsert_row stage_key stage_conflict row) d"
    using assms(3) stage_save_stage [OF assms(1) row assms(2)] by simp
  have rows: "find_row stage_key k (db_stages d') =
    (if k = (stage_run_id s, stage_stage_id s) then Some row
     else find_row stage_key k (db_stages d))" for k
  proof -
    have "find_row stage_key k (db_stages d') = (if k = stage_key row
      then Some (case find_row stage_key k (db_stages d) of Some old \<Rightarrow> stage_conflict old row
                   | None \<Rightarrow> row) else find_row stage_key k (db_stages d))"
      using find_row_upsert [of stage_key stage_conflict row k "db_stages d"] by (simp add: d')
    moreover have "stage_conflict old row = row"
      if "find_row stage_key (stage_key row) (db_stages d) = Some old" for old
      using find_row_Some [OF that] by (simp add: stage_conflict_same)
    ultimately show ?thesis using key by (auto split: option.splits)
  qed
  show ?thesis
    using row_to_stage_to_params [OF ok row]
    by (auto simp: stage_get_def tx_read_def rows split: option.splits)
qed

lemma stage_plain [plain_intro]:
  "plain (stage_get rid sid)" "plain (stage_save s)" "plain (stage_list_by_run rid)"
  "plain (stage_update_state rid sid st now)" "plain (stage_list_pending_by_run rid)"
  unfolding stage_get_def stage_save_def stage_list_by_run_def stage_update_state_def
    stage_list_pending_by_run_def
  by (intro plain_intro)+

text \<open>Saving several stages of one run with distinct ids: all are stored, no other row moves.\<close>

definition stage_stored :: "db \<Rightarrow> stage \<Rightarrow> bool" where
  "stage_stored d s \<longleftrightarrow> (\<exists>row. find_row stage_key (stage_run_id s, stage_stage_id s) (db_stages d)
     = Some row \<and> row_to_stage row = Inr s)"

lemma stage_stored_get: "stage_stored d s \<Longrightarrow> stage_get (stage_run_id s) (stage_stage_id s) d = Done s d"
  by (simp add: stage_stored_def stage_get_Done)

lemma stage_save_effect:
  assumes "stage_storable s" and "stage_run_id s \<in> rr_run_id ` set (db_runs d)"
  obtains d' where "stage_save s d = Done () d'" and "stage_stored d' s"
    and "\<forall>k. k \<noteq> (stage_run_id s, stage_stage_id s) \<longrightarrow>
          find_row stage_key k (db_stages d') = find_row stage_key k (db_stages d)"
    and "d' = d\<lparr> db_stages := db_stages d' \<rparr>"
    and "stages.unique_keys d \<longrightarrow> stages.unique_keys d'"
proof -
  have ok: "stage_ok s" using assms(1) by (simp add: stage_storable_def)
  obtain row where row: "stage_to_params s = Inr row" using stage_to_params_Inr [OF ok] by blast
  define d' where "d' = db_stages_update (upsert_row stage_key stage_conflict row) d"
  have save: "stage_save s d = Done () d'"
    using stage_save_stage [OF assms(1) row assms(2)] by (simp add: d'_def)
  have "stage_get (stage_run_id s) (stage_stage_id s) d' = Done s d'"
    using stage_get_after_save [OF assms save] by simp
  then have stored: "stage_stored d' s" by (simp add: stage_stored_def stage_get_Done)
  have "find_row stage_key k (db_stages d') = find_row stage_key k (db_stages d)"
    if "k \<noteq> (stage_run_id s, stage_stage_id s)" for k
    using that find_row_upsert [of stage_key stage_conflict row k "db_stages d"]
      stage_to_params_key [OF row] by (simp add: d'_def)
  moreover have "stages.unique_keys d'" if "stages.unique_keys d"
    unfolding d'_def using that by (rule stages.unique_upsert) simp
  ultimately show thesis using that [of d'] save stored by (simp add: d'_def)
qed

lemma save_stages:
  assumes "\<forall>s \<in> set ss. stage_storable s \<and> stage_run_id s = rid"
    and "rid \<in> rr_run_id ` set (db_runs d)" and "distinct (map stage_stage_id ss)"
  obtains d' where "tx_iter stage_save ss d = Done () d'" and "\<forall>s \<in> set ss. stage_stored d' s"
    and "\<forall>k. k \<notin> (\<lambda>s. (rid, stage_stage_id s)) ` set ss \<longrightarrow>
          find_row stage_key k (db_stages d') = find_row stage_key k (db_stages d)"
    and "d' = d\<lparr> db_stages := db_stages d' \<rparr>"
    and "stages.unique_keys d \<longrightarrow> stages.unique_keys d'"
  using assms
proof (induction ss arbitrary: d thesis)
  case Nil
  show ?case by (rule Nil.prems(1) [of d]) (simp_all add: tx_return_def)
next
  case (Cons s ss)
  have s: "stage_storable s" "stage_run_id s = rid" using Cons.prems(2) by simp_all
  then have "stage_run_id s \<in> rr_run_id ` set (db_runs d)" using Cons.prems(3) by simp
  from stage_save_effect [OF s(1) this] obtain d1 where
    d1: "stage_save s d = Done () d1" "stage_stored d1 s"
      "\<forall>k. k \<noteq> (stage_run_id s, stage_stage_id s) \<longrightarrow>
          find_row stage_key k (db_stages d1) = find_row stage_key k (db_stages d)"
      "d1 = d\<lparr> db_stages := db_stages d1 \<rparr>" "stages.unique_keys d \<longrightarrow> stages.unique_keys d1"
    by blast
  have rid: "rid \<in> rr_run_id ` set (db_runs d1)"
    using Cons.prems(3) d1(4) by (metis db.select_convs(1) db.surjective db.update_convs(2))
  have rest: "\<forall>s \<in> set ss. stage_storable s \<and> stage_run_id s = rid"
    "distinct (map stage_stage_id ss)" using Cons.prems by simp_all
  from Cons.IH [OF _ rest(1) rid rest(2)] obtain d' where
    d': "tx_iter stage_save ss d1 = Done () d'" "\<forall>s \<in> set ss. stage_stored d' s"
      "\<forall>k. k \<notin> (\<lambda>s. (rid, stage_stage_id s)) ` set ss \<longrightarrow>
          find_row stage_key k (db_stages d') = find_row stage_key k (db_stages d1)"
      "d' = d1\<lparr> db_stages := db_stages d' \<rparr>" "stages.unique_keys d1 \<longrightarrow> stages.unique_keys d'"
    by blast
  have "(rid, stage_stage_id s) \<notin> (\<lambda>s. (rid, stage_stage_id s)) ` set ss"
    using Cons.prems(4) by auto
  then have keep: "stage_stored d' s" using d1(2) d'(3) s(2) by (simp add: stage_stored_def)
  show ?case
  proof (rule Cons.prems(1) [of d'])
    show "tx_iter stage_save (s # ss) d = Done () d'"
      using d1(1) d'(1) by (simp add: tx_then_def tx_bind_def)
    show "\<forall>x \<in> set (s # ss). stage_stored d' x" using keep d'(2) by simp
    show "\<forall>k. k \<notin> (\<lambda>s. (rid, stage_stage_id s)) ` set (s # ss) \<longrightarrow>
        find_row stage_key k (db_stages d') = find_row stage_key k (db_stages d)"
      using d'(3) d1(3) s(2) by simp
    show "d' = d\<lparr> db_stages := db_stages d' \<rparr>"
      by (subst d'(4), subst d1(4)) simp
    show "stages.unique_keys d \<longrightarrow> stages.unique_keys d'" using d1(5) d'(5) by blast
  qed
qed

section \<open>Properties\<close>

definition sample_stored_stage :: stage where
  "sample_stored_stage =
     \<lparr> stage_run_id = ''r1'', stage_stage_id = ''build'', stage_state = SUBMITTED,
       stage_template_ref = \<lparr> tpl_name = ''summary'', tpl_version = ''1'' \<rparr>,
       stage_report_context = Some (JObj []), stage_email_body_context = Some (JObj []),
       stage_email_body_position = Some BEFORE_STAGES_SUMMARY,
       stage_submitted_at = Some (utc 7) \<rparr>"

text \<open>
  Saving a stage of a stored run and reading it back gives the stage itself, whatever the
  table held for it before, and leaves every other stage's row as it was.
\<close>

theorem stage_save_get:
  assumes "stage_storable s" and "stage_run_id s \<in> rr_run_id ` set (db_runs d)"
  shows "\<exists>d'. stage_save s d = Done () d' \<and>
    stage_get (stage_run_id s) (stage_stage_id s) d' = Done s d' \<and>
    (\<forall>k. k \<noteq> (stage_run_id s, stage_stage_id s) \<longrightarrow>
       find_row stage_key k (db_stages d') = find_row stage_key k (db_stages d))"
proof -
  obtain d' where save: "stage_save s d = Done () d'" and stored: "stage_stored d' s"
    and other: "\<forall>k. k \<noteq> (stage_run_id s, stage_stage_id s) \<longrightarrow>
          find_row stage_key k (db_stages d') = find_row stage_key k (db_stages d)"
    and "d' = d\<lparr> db_stages := db_stages d' \<rparr>"
    and "stages.unique_keys d \<longrightarrow> stages.unique_keys d'"
    by (rule stage_save_effect [OF assms])
  show ?thesis using save stage_stored_get [OF stored] other by blast
qed

theorem stage_save_get_witness:
  "\<exists>d d'. stage_save sample_stored_stage d = Done () d' \<and>
     stage_get ''r1'' ''build'' d' = Done sample_stored_stage d'"
proof -
  have "stage_storable sample_stored_stage"
    by (simp add: stage_storable_def stage_ok_def sample_stored_stage_def template_ref_ok_def)
  moreover obtain row where row: "run_to_params sample_stored_run = Inr row"
    using run_to_params_Inr [of sample_stored_run] sample_stored_run_ok
    by (auto simp: run_storable_def)
  have "stage_run_id sample_stored_stage \<in> rr_run_id ` set (db_runs (empty_db\<lparr> db_runs := [row] \<rparr>))"
    using run_to_params_key [OF row] by (simp add: sample_stored_stage_def sample_stored_run_def)
  ultimately show ?thesis
    using stage_save_get [of sample_stored_stage] by (fastforce simp: sample_stored_stage_def)
qed

end
