(* ===== verification/Repo_Audit.thy ===== *)
theory Repo_Audit
  imports Repo_Run
begin

text \<open>
  \<open>SqliteAuditLog\<close>: the append-only log with its filtered queries and the batch deletion
  that the audit pruner drives.  The lemmas show the round trip of an event, that recording
  only appends, and that \<open>fetch_older_than\<close> returns exactly the rows the next
  \<open>delete_older_than\<close> with the same arguments removes.
\<close>

section \<open>Conversions\<close>

definition event_to_row :: "int \<Rightarrow> audit_event \<Rightarrow> exn + audit_row" where
  "event_to_row i e =
     and_then (iso_col (ae_timestamp e)) (\<lambda>t. Inr
       \<lparr> ar_audit_id = i, ar_timestamp = t, ar_action = audit_action_value (ae_action e),
         ar_actor = ae_actor e, ar_resource = ae_resource e,
         ar_outcome = audit_outcome_value (ae_outcome e),
         ar_details = dumps_json (JObj (ae_details e)) \<rparr>)"

text \<open>\<open>details\<close> of a stored event is the loaded document; every stored one is an object.\<close>

fun json_dict :: "json \<Rightarrow> exn + dict" where
  "json_dict (JObj d) = Inr d"
| "json_dict _ = Inl shape_error"

definition row_to_event :: "audit_row \<Rightarrow> exn + audit_event" where
  "row_to_event row =
     and_then (enum_or [(''audit_id'', JInt (ar_audit_id row)), (''action'', JStr (ar_action row))]
       (enum_of_value audit_action_value audit_actions (ar_action row))) (\<lambda>action.
     and_then (enum_or [(''audit_id'', JInt (ar_audit_id row)), (''outcome'', JStr (ar_outcome row))]
       (enum_of_value audit_outcome_value audit_outcomes (ar_outcome row))) (\<lambda>outcome.
     and_then (json_dict (ar_details row)) (\<lambda>details.
     audit_event_post_init
       \<lparr> ae_timestamp = utc (ar_timestamp row), ae_action = action, ae_actor = ar_actor row,
         ae_resource = ar_resource row, ae_outcome = outcome, ae_details = details,
         ae_audit_id = Some (ar_audit_id row) \<rparr>)))"

section \<open>Operations\<close>

definition audit_record :: "audit_event \<Rightarrow> unit tx" where
  "audit_record e =
     tx_bind (tx_read (\<lambda>d. event_to_row (db_next_audit d) e)) (\<lambda>row.
     tx_write (\<lambda>d. d\<lparr> db_audit := db_audit d @ [row], db_next_audit := db_next_audit d + 1 \<rparr>))"

text \<open>The optional filters: an absent one adds no clause.\<close>

definition opt_clause :: "'a option \<Rightarrow> ('a \<Rightarrow> bool) \<Rightarrow> bool" where
  "opt_clause f p = (case f of None \<Rightarrow> True | Some x \<Rightarrow> p x)"

definition iso_bound :: "datetime option \<Rightarrow> exn + int option" where
  "iso_bound v = (case v of
     None \<Rightarrow> Inr None | Some t \<Rightarrow> and_then (iso_col t) (\<lambda>i. Inr (Some i)))"

definition audit_query ::
  "audit_action option \<Rightarrow> string option \<Rightarrow> string option \<Rightarrow> datetime option \<Rightarrow> datetime option
    \<Rightarrow> int \<Rightarrow> audit_event list tx" where
  "audit_query action resource actor since until limit = tx_read (\<lambda>d.
     check (limit < 1) value_error
     (and_then (iso_bound since) (\<lambda>lo.
      and_then (iso_bound until) (\<lambda>hi.
        map_res row_to_event (take (nat limit) (rev (sort_key ar_timestamp (sort_key ar_audit_id
          (filter (\<lambda>r. opt_clause action (\<lambda>a. ar_action r = audit_action_value a) \<and>
              opt_clause resource (\<lambda>x. ar_resource r = x) \<and>
              opt_clause actor (\<lambda>x. ar_actor r = x) \<and>
              opt_clause lo (\<lambda>t. t \<le> ar_timestamp r) \<and>
              opt_clause hi (\<lambda>t. ar_timestamp r \<le> t)) (db_audit d))))))))))"

text \<open>\<open>WHERE timestamp < ? ORDER BY timestamp ASC, audit_id ASC LIMIT ?\<close>\<close>

definition older_than :: "int \<Rightarrow> int \<Rightarrow> audit_row list \<Rightarrow> audit_row list" where
  "older_than cutoff batch rows =
     take (nat batch) (sort_key ar_timestamp (sort_key ar_audit_id
       (filter (\<lambda>r. ar_timestamp r < cutoff) rows)))"

definition audit_delete_older_than :: "datetime \<Rightarrow> int \<Rightarrow> int tx" where
  "audit_delete_older_than cutoff batch =
     tx_bind (tx_read (\<lambda>d. check (\<not> dt_aware cutoff) value_error
       (check (batch < 1) value_error
       (and_then (iso_col cutoff) (\<lambda>c. Inr (older_than c batch (db_audit d))))))) (\<lambda>doomed.
     tx_then (tx_write (\<lambda>d. d\<lparr> db_audit :=
         filter (\<lambda>r. ar_audit_id r \<notin> ar_audit_id ` set doomed) (db_audit d) \<rparr>))
     (tx_return (int (length doomed))))"

definition audit_fetch_older_than :: "datetime \<Rightarrow> int \<Rightarrow> audit_event list tx" where
  "audit_fetch_older_than cutoff batch = tx_read (\<lambda>d.
     check (\<not> dt_aware cutoff) value_error
     (check (batch < 1) value_error
     (and_then (iso_col cutoff) (\<lambda>c. map_res row_to_event (older_than c batch (db_audit d))))))"

text \<open>An empty set of actions adds no clause, like an absent one.\<close>

definition audit_list_paginated ::
  "audit_action set option \<Rightarrow> string option \<Rightarrow> string option \<Rightarrow> datetime option \<Rightarrow> datetime option
    \<Rightarrow> int \<Rightarrow> int \<Rightarrow> audit_event list tx" where
  "audit_list_paginated acts actor resource since until limit offset = tx_read (\<lambda>d.
     check (limit < 1) value_error
     (check (offset < 0) value_error
     (and_then (iso_bound since) (\<lambda>lo.
      and_then (iso_bound until) (\<lambda>hi.
        map_res row_to_event (take (nat limit) (drop (nat offset) (rev (sort_key ar_audit_id
          (filter (\<lambda>r. opt_clause acts (\<lambda>s. s = {} \<or> ar_action r \<in> audit_action_value ` s) \<and>
              opt_clause actor (\<lambda>x. ar_actor r = x) \<and>
              opt_clause resource (\<lambda>x. ar_resource r = x) \<and>
              opt_clause lo (\<lambda>t. t \<le> ar_timestamp r) \<and>
              opt_clause hi (\<lambda>t. ar_timestamp r \<le> t)) (db_audit d)))))))))))"

section \<open>Recording\<close>

definition audit_row_of :: "int \<Rightarrow> audit_event \<Rightarrow> audit_row" where
  "audit_row_of i e =
     \<lparr> ar_audit_id = i, ar_timestamp = dt_us (ae_timestamp e),
       ar_action = audit_action_value (ae_action e), ar_actor = ae_actor e,
       ar_resource = ae_resource e, ar_outcome = audit_outcome_value (ae_outcome e),
       ar_details = dumps_json (JObj (ae_details e)) \<rparr>"

definition add_audit :: "audit_event \<Rightarrow> db \<Rightarrow> db" where
  "add_audit e d = d\<lparr> db_audit := db_audit d @ [audit_row_of (db_next_audit d) e],
                     db_next_audit := db_next_audit d + 1 \<rparr>"

lemma audit_record_event [repo_simps]:
  "dt_aware (ae_timestamp e) \<Longrightarrow> audit_record e d = Done () (add_audit e d)"
  by (simp add: audit_record_def tx_bind_def tx_read_def tx_write_def event_to_row_def
      audit_row_of_def add_audit_def)

lemma add_audit_frame [simp, frame]:
  "db_runs (add_audit e d) = db_runs d" "db_stages (add_audit e d) = db_stages d"
  "db_subscriptions (add_audit e d) = db_subscriptions d" "db_actions (add_audit e d) = db_actions d"
  "db_users (add_audit e d) = db_users d" "db_sessions (add_audit e d) = db_sessions d"
  by (simp_all add: add_audit_def)

text \<open>The ids in the log are distinct and below the counter.\<close>

definition audit_wf :: "db \<Rightarrow> bool" where
  "audit_wf d \<longleftrightarrow> audits.unique_keys d \<and> (\<forall>r \<in> set (db_audit d). ar_audit_id r < db_next_audit d)"

lemma audit_wf_add: "audit_wf d \<Longrightarrow> audit_wf (add_audit e d)"
  by (force simp: audit_wf_def audits.unique_keys_def add_audit_def audit_row_of_def)

lemma keeps_audit_record [wf_intro]:
  "(\<And>e d. I d \<Longrightarrow> I (add_audit e d)) \<Longrightarrow> keeps I (audit_record e)"
proof -
  assume I: "\<And>e d. I d \<Longrightarrow> I (add_audit e d)"
  show ?thesis
  proof (cases "dt_aware (ae_timestamp e)")
    case True
    with I show ?thesis by (simp add: keeps_def audit_record_event)
  next
    case False
    then have "audit_record e d = Raised value_error" for d
      by (simp add: audit_record_def tx_bind_def tx_read_def event_to_row_def iso_col_def iso_z_def)
    then show ?thesis by (simp add: keeps_def)
  qed
qed

lemma audit_plain [plain_intro]:
  "plain (audit_record e)" "plain (audit_query a r c s u n)" "plain (audit_delete_older_than t n)"
  "plain (audit_fetch_older_than t n)" "plain (audit_list_paginated q r c s u n m)"
  unfolding audit_record_def audit_query_def audit_delete_older_than_def
    audit_fetch_older_than_def audit_list_paginated_def
  by (intro plain_intro)+

section \<open>Batches\<close>

lemma older_than_mem:
  "r \<in> set (older_than c n rows) \<Longrightarrow> r \<in> set rows \<and> ar_timestamp r < c"
  unfolding older_than_def using set_take_subset by fastforce

lemma length_older_than: "length (older_than c n rows) \<le> nat n"
  by (simp add: older_than_def)

lemma distinct_older_than:
  "distinct (map ar_audit_id rows) \<Longrightarrow> distinct (map ar_audit_id (older_than c n rows))"
  unfolding older_than_def
  by (intro distinct_map_take distinct_map_sort_key distinct_map_filter_key)

lemma older_than_empty: "0 < n \<Longrightarrow> older_than c n rows = [] \<longleftrightarrow> (\<forall>r \<in> set rows. c \<le> ar_timestamp r)"
proof -
  assume n: "0 < n"
  have "older_than c n rows = [] \<longleftrightarrow> filter (\<lambda>r. ar_timestamp r < c) rows = []"
    using n unfolding older_than_def
    by (metis length_0_conv length_sort less_irrefl take_eq_Nil zero_less_nat_eq)
  then show ?thesis by (auto simp: filter_empty_conv not_less)
qed

text \<open>The rows of a batch are no younger than any other row that qualifies.\<close>

lemma older_than_oldest:
  assumes "r \<in> set (older_than c n rows)" and "q \<in> set rows" and "ar_timestamp q < c"
    and "q \<notin> set (older_than c n rows)"
  shows "ar_timestamp r \<le> ar_timestamp q"
proof -
  define xs where "xs = sort_key ar_timestamp (sort_key ar_audit_id
      (filter (\<lambda>r. ar_timestamp r < c) rows))"
  have sorted: "sorted (map ar_timestamp (take (nat n) xs @ drop (nat n) xs))"
    by (simp add: xs_def)
  have r: "r \<in> set (take (nat n) xs)" using assms(1) by (simp add: older_than_def xs_def)
  have "q \<in> set xs" using assms(2,3) by (simp add: xs_def)
  then have "q \<in> set (take (nat n) xs @ drop (nat n) xs)" by simp
  moreover have "q \<notin> set (take (nat n) xs)" using assms(4) by (simp add: older_than_def xs_def)
  ultimately have "q \<in> set (drop (nat n) xs)" by (simp del: append_take_drop_id)
  with r sorted show ?thesis
    by (auto simp: sorted_append simp del: append_take_drop_id)
qed

section \<open>Properties\<close>

lemma filter_not_in_ids:
  assumes "distinct (map ar_audit_id rows)" and "set batch \<subseteq> set rows"
  shows "{r \<in> set rows. ar_audit_id r \<in> ar_audit_id ` set batch} = set batch"
  using assms by (auto simp: distinct_map inj_on_def)

text \<open>
  On a log with distinct ids, the batch that \<open>fetch_older_than\<close> reads is exactly the
  set of rows the following \<open>delete_older_than\<close> with the same arguments removes: at most
  \<open>batch_size\<close> rows, all before the cutoff, none younger than a qualifying row that stays,
  and the returned count is their number.  So nothing is deleted that was not archived first.
\<close>

theorem audit_batch_fetch_delete:
  assumes ids: "audits.unique_keys d" and batch: "1 \<le> batch"
    and fetch: "audit_fetch_older_than (utc c) batch d = Done events d"
  shows "\<exists>gone. audit_delete_older_than (utc c) batch d =
      Done (int (length events)) (d\<lparr> db_audit := filter (\<lambda>r. r \<notin> gone) (db_audit d) \<rparr>) \<and>
    gone \<subseteq> set (db_audit d) \<and> card gone = length events \<and> length events \<le> nat batch \<and>
    (\<forall>e \<in> set events. \<exists>r \<in> gone. row_to_event r = Inr e) \<and>
    (\<forall>r \<in> gone. ar_timestamp r < c \<and>
       (\<forall>q \<in> set (db_audit d) - gone. ar_timestamp q < c \<longrightarrow> ar_timestamp r \<le> ar_timestamp q))"
proof -
  let ?b = "older_than c batch (db_audit d)"
  have dist: "distinct (map ar_audit_id (db_audit d))" using ids by (simp add: audits.unique_keys_def)
  have mem: "set ?b \<subseteq> set (db_audit d)" using older_than_mem by blast
  have events: "map_res row_to_event ?b = Inr events"
    using fetch batch by (simp add: audit_fetch_older_than_def tx_read_Done check_def)
  then have all2: "list_all2 (\<lambda>r e. row_to_event r = Inr e) ?b events" by (rule map_res_Inr)
  have len: "length ?b = length events" using all2 by (rule list_all2_lengthD)
  have card: "card (set ?b) = length events"
    using distinct_older_than [OF dist, of c batch] len
    by (metis distinct_card distinct_map)
  have keep: "filter (\<lambda>r. ar_audit_id r \<notin> ar_audit_id ` set ?b) (db_audit d) =
      filter (\<lambda>r. r \<notin> set ?b) (db_audit d)"
    using filter_not_in_ids [OF dist mem] by (intro filter_cong) auto
  have "audit_delete_older_than (utc c) batch d =
      Done (int (length events)) (d\<lparr> db_audit := filter (\<lambda>r. r \<notin> set ?b) (db_audit d) \<rparr>)"
    using batch len keep
    by (simp add: audit_delete_older_than_def tx_bind_def tx_then_def tx_read_def tx_write_def
        tx_return_def check_def)
  moreover have "\<exists>r \<in> set ?b. row_to_event r = Inr e" if "e \<in> set events" for e
  proof -
    from that obtain i where i: "i < length events" "e = events ! i" by (auto simp: in_set_conv_nth)
    then have "row_to_event (?b ! i) = Inr e" and "?b ! i \<in> set ?b"
      using all2 len by (auto simp: list_all2_conv_all_nth)
    then show ?thesis by blast
  qed
  ultimately show ?thesis
    using mem card length_older_than [of c batch "db_audit d"] len older_than_mem
      older_than_oldest [of _ c batch "db_audit d"]
    by (intro exI [of _ "set ?b"]) auto
qed

theorem audit_batch_fetch_delete_witness:
  "\<exists>gone. audit_delete_older_than (utc 9) 10 empty_db = Done 0
     (empty_db\<lparr> db_audit := filter (\<lambda>r. r \<notin> gone) [] \<rparr>)"
  using audit_batch_fetch_delete [of empty_db 10 9 "[]"]
  by (auto simp: audits.unique_keys_def empty_db_def audit_fetch_older_than_def tx_read_def
      check_def older_than_def)

end
