(* ===== verification/Templates.thy ===== *)
theory Templates
  imports Domain
begin

text \<open>
  The two registries read at start-up: \<open>InMemoryTemplateRepository\<close>
  (\<open>infrastructure/templating/manifest_loader.py\<close>) and \<open>load_tag_vocabulary\<close>
  (\<open>infrastructure/tags/vocabulary_loader.py\<close>).

  The use cases see templates through the port \<open>TemplateRepository\<close>, the record
  \<open>template_repo\<close> of its operations.  Version ordering is the third-party \<open>packaging\<close>
  library's: \<open>parse_version\<close> is a parameter that maps a version text to a key of an ordered
  type, or to \<open>None\<close> where \<open>Version(text)\<close> raises \<open>InvalidVersion\<close>.

  The locale \<open>template_port\<close> states what the use cases rely on; the interpretation
  discharges it for the in-memory repository.
\<close>

section \<open>The template port\<close>

record template_repo =
  tr_get :: "template_ref \<Rightarrow> exn + template_metadata"
  tr_exists :: "template_ref \<Rightarrow> bool"
  tr_resolve_latest :: "string \<Rightarrow> exn + template_ref"

type_synonym template_entries = "((string \<times> string) \<times> template_metadata) list"

definition repo_get :: "template_entries \<Rightarrow> template_ref \<Rightarrow> exn + template_metadata" where
  "repo_get entries ref = (case map_of entries (tpl_name ref, tpl_version ref) of
     None \<Rightarrow> Inl (err UnknownTemplateError
       [(''name'', JStr (tpl_name ref)), (''version'', JStr (tpl_version ref))])
   | Some m \<Rightarrow> Inr m)"

definition repo_exists :: "template_entries \<Rightarrow> template_ref \<Rightarrow> bool" where
  "repo_exists entries ref \<longleftrightarrow> (tpl_name ref, tpl_version ref) \<in> fst ` set entries"

text \<open>The candidates of a name, in manifest order, with versions that do not parse skipped.\<close>

fun version_candidates ::
  "(string \<Rightarrow> 'v option) \<Rightarrow> string \<Rightarrow> template_entries \<Rightarrow> ('v \<times> string) list" where
  "version_candidates parse n [] = []"
| "version_candidates parse n (((name, version), m) # es) =
     (if name \<noteq> n then version_candidates parse n es
      else case parse version of
        None \<Rightarrow> version_candidates parse n es
      | Some v \<Rightarrow> (v, version) # version_candidates parse n es)"

text \<open>\<open>max(candidates, key=...)\<close> returns the first of the greatest candidates.\<close>

fun max_first :: "('v :: linorder \<times> string) \<Rightarrow> ('v \<times> string) list \<Rightarrow> 'v \<times> string" where
  "max_first best [] = best"
| "max_first best (c # cs) = max_first (if fst best < fst c then c else best) cs"

definition repo_resolve_latest ::
  "(string \<Rightarrow> ('v :: linorder) option) \<Rightarrow> template_entries \<Rightarrow> string \<Rightarrow> exn + template_ref" where
  "repo_resolve_latest parse entries n = (case version_candidates parse n entries of
     [] \<Rightarrow> Inl (err UnknownTemplateError [(''template_name'', JStr n)])
   | c # cs \<Rightarrow> template_ref_post_init \<lparr> tpl_name = n, tpl_version = snd (max_first c cs) \<rparr>)"

definition repo_list_by_kind :: "template_entries \<Rightarrow> template_kind \<Rightarrow> template_metadata list" where
  "repo_list_by_kind entries k = filter (\<lambda>m. tm_kind m = k) (map snd entries)"

definition repo_list_all :: "template_entries \<Rightarrow> template_metadata list" where
  "repo_list_all entries = sort_key tm_name (sort_key tm_version (map snd entries))"

definition in_memory_repo ::
  "(string \<Rightarrow> ('v :: linorder) option) \<Rightarrow> template_entries \<Rightarrow> template_repo" where
  "in_memory_repo parse entries =
     \<lparr> tr_get = repo_get entries, tr_exists = repo_exists entries,
       tr_resolve_latest = repo_resolve_latest parse entries \<rparr>"

text \<open>What the manifest loader establishes: each key is its entry's name and version.\<close>

definition entries_ok :: "template_entries \<Rightarrow> bool" where
  "entries_ok entries \<longleftrightarrow> distinct (map fst entries) \<and>
     (\<forall>((n, v), m) \<in> set entries. tm_name m = n \<and> tm_version m = v \<and> n \<noteq> [] \<and> v \<noteq> [])"

section \<open>Resolving the latest version\<close>

lemma version_candidates_iff:
  "(v, ver) \<in> set (version_candidates parse n es) \<longleftrightarrow>
   parse ver = Some v \<and> (n, ver) \<in> fst ` set es"
  by (induction parse n es rule: version_candidates.induct)
     (auto split: option.splits simp: image_iff)

lemma max_first_mem: "max_first c cs \<in> set (c # cs)"
  by (induction c cs rule: max_first.induct) (auto split: if_splits)

lemma max_first_max: "x \<in> set (c # cs) \<Longrightarrow> fst x \<le> fst (max_first c cs)"
proof (induction c cs arbitrary: x rule: max_first.induct)
  case (1 best)
  then show ?case by simp
next
  case (2 best c cs)
  let ?b = "if fst best < fst c then c else best"
  have b: "fst ?b \<le> fst (max_first ?b cs)" using 2(1) [of ?b] by simp
  show ?case
  proof (cases "x \<in> set cs")
    case True
    then show ?thesis using 2(1) [of x] by simp
  next
    case False
    then have "x = best \<or> x = c" using 2(2) by auto
    then have "fst x \<le> fst ?b" by auto
    then show ?thesis using b by simp
  qed
qed

lemma resolve_latest_Inr:
  assumes "entries_ok entries" and "repo_resolve_latest parse entries n = Inr ref"
  shows "tpl_name ref = n" and "repo_exists entries ref" and "template_ref_ok ref"
    and "\<exists>v. parse (tpl_version ref) = Some v \<and> (\<forall>ver w. (n, ver) \<in> fst ` set entries \<longrightarrow>
           parse ver = Some w \<longrightarrow> w \<le> v)"
proof -
  obtain c cs where cands: "version_candidates parse n entries = c # cs"
    and init: "template_ref_post_init \<lparr> tpl_name = n, tpl_version = snd (max_first c cs) \<rparr> = Inr ref"
    using assms(2) by (auto simp: repo_resolve_latest_def split: list.splits)
  obtain v ver where best: "max_first c cs = (v, ver)" by (cases "max_first c cs")
  from init have ref: "ref = \<lparr> tpl_name = n, tpl_version = ver \<rparr>" and ok: "template_ref_ok ref"
    by (simp_all add: template_ref_post_init_Inr best)
  have "(v, ver) \<in> set (version_candidates parse n entries)"
    using max_first_mem [of c cs] by (simp add: cands best)
  then have v: "parse ver = Some v" "(n, ver) \<in> fst ` set entries"
    by (simp_all add: version_candidates_iff)
  have "w \<le> v" if "(n, x) \<in> fst ` set entries" "parse x = Some w" for x w
  proof -
    have "(w, x) \<in> set (c # cs)" using that cands by (metis version_candidates_iff)
    then show ?thesis using max_first_max [of "(w, x)" c cs] best by simp
  qed
  with v ref ok show "tpl_name ref = n" "repo_exists entries ref" "template_ref_ok ref"
    "\<exists>v. parse (tpl_version ref) = Some v \<and> (\<forall>ver w. (n, ver) \<in> fst ` set entries \<longrightarrow>
           parse ver = Some w \<longrightarrow> w \<le> v)"
    by (auto simp: repo_exists_def)
qed

lemma resolve_latest_Inl:
  assumes "entries_ok entries" and "repo_resolve_latest parse entries n = Inl e"
  shows "e = err UnknownTemplateError [(''template_name'', JStr n)]"
    and "(n, ver) \<in> fst ` set entries \<Longrightarrow> parse ver = None"
proof -
  have none: "version_candidates parse n entries = []"
  proof (cases "version_candidates parse n entries")
    case (Cons c cs)
    obtain v ver where best: "max_first c cs = (v, ver)" by (cases "max_first c cs")
    have "(v, ver) \<in> set (version_candidates parse n entries)"
      using max_first_mem [of c cs] by (simp add: Cons best)
    then have "(n, ver) \<in> fst ` set entries" by (simp add: version_candidates_iff)
    then have "template_ref_ok \<lparr> tpl_name = n, tpl_version = ver \<rparr>"
      using assms(1) by (force simp: entries_ok_def template_ref_ok_def)
    then show ?thesis
      using assms(2) by (simp add: repo_resolve_latest_def Cons best template_ref_post_init_def
          template_ref_ok_def check_def)
  qed
  then show "e = err UnknownTemplateError [(''template_name'', JStr n)]"
    using assms(2) by (simp add: repo_resolve_latest_def)
  show "parse ver = None" if "(n, ver) \<in> fst ` set entries"
  proof (rule ccontr)
    assume "parse ver \<noteq> None"
    then obtain v where "parse ver = Some v" by blast
    then have "(v, ver) \<in> set (version_candidates parse n entries)"
      using that by (simp add: version_candidates_iff)
    with none show False by simp
  qed
qed

section \<open>The contract\<close>

locale template_port =
  fixes repo :: "'e \<Rightarrow> template_repo" and valid :: "'e \<Rightarrow> bool"
  assumes resolved_ok: "valid e \<Longrightarrow> tr_resolve_latest (repo e) n = Inr r \<Longrightarrow>
      template_ref_ok r \<and> tpl_name r = n \<and> tr_exists (repo e) r"
    and unresolved: "valid e \<Longrightarrow> tr_resolve_latest (repo e) n = Inl x \<Longrightarrow>
      exn_is x UnknownTemplateError"
    and get_exists: "valid e \<Longrightarrow> tr_exists (repo e) r \<longleftrightarrow> (\<exists>m. tr_get (repo e) r = Inr m)"
    and get_error: "tr_get (repo e) r = Inl x \<Longrightarrow> exn_is x UnknownTemplateError"
begin

lemma resolved_get: "valid e \<Longrightarrow> tr_resolve_latest (repo e) n = Inr r \<Longrightarrow> \<exists>m. tr_get (repo e) r = Inr m"
  using resolved_ok get_exists by blast

lemma lookup_total:
  "valid e \<Longrightarrow> (\<exists>m. tr_get (repo e) r = Inr m) \<or> (\<exists>x. tr_get (repo e) r = Inl x \<and>
    exn_is x UnknownTemplateError \<and> \<not> tr_exists (repo e) r)"
  using get_exists get_error by (cases "tr_get (repo e) r") auto

end

interpretation in_memory: template_port
  "\<lambda>(parse :: string \<Rightarrow> ('v :: linorder) option, entries). in_memory_repo parse entries"
  "\<lambda>(parse, entries). entries_ok entries"
proof
  fix e :: "(string \<Rightarrow> 'v option) \<times> template_entries" and n r x
  obtain parse entries where e: "e = (parse, entries)" by (cases e)
  let ?repo = "case e of (parse, entries) \<Rightarrow> in_memory_repo parse entries"
  let ?valid = "case e of (parse, entries) \<Rightarrow> entries_ok entries"
  show "template_ref_ok r \<and> tpl_name r = n \<and> tr_exists ?repo r"
    if "?valid" "tr_resolve_latest ?repo n = Inr r"
    using that resolve_latest_Inr [of entries parse n r] by (simp add: e in_memory_repo_def)
  show "exn_is x UnknownTemplateError" if "?valid" "tr_resolve_latest ?repo n = Inl x"
    using that resolve_latest_Inl(1) [of entries parse n x] by (simp add: e in_memory_repo_def)
  show "tr_exists ?repo r \<longleftrightarrow> (\<exists>m. tr_get ?repo r = Inr m)" if "?valid"
    by (auto simp: e in_memory_repo_def repo_exists_def repo_get_def map_of_eq_None_iff
        split: option.splits)
       (metis fst_conv image_eqI map_of_SomeD)
  show "exn_is x UnknownTemplateError" if "tr_get ?repo r = Inl x"
    using that by (auto simp: e in_memory_repo_def repo_get_def split: option.splits)
qed

section \<open>The tag vocabulary\<close>

text \<open>The pattern of a tag name, \<open>^[a-z][a-z0-9_-]{0,63}$\<close>.\<close>

definition is_tag_char :: "char \<Rightarrow> bool" where
  "is_tag_char c \<longleftrightarrow> is_lower c \<or> is_digit c \<or> c = CHR ''_'' \<or> c = CHR ''-''"

fun opt_times :: "nat \<Rightarrow> (char \<Rightarrow> bool) \<Rightarrow> rx" where
  "opt_times 0 P = Lit []"
| "opt_times (Suc n) P = Opt (Seq (Cls P) (opt_times n P))"

definition tag_name_rx :: rx where
  "tag_name_rx = Seq (Cls is_lower) (opt_times 63 is_tag_char)"

definition config_error :: "dict \<Rightarrow> exn" where
  "config_error d = err ConfigurationError d"

fun keys_of :: "json \<Rightarrow> string set" where
  "keys_of (JObj d) = fst ` set d"
| "keys_of _ = {}"

fun load_tag_entries :: "string set \<Rightarrow> json list \<Rightarrow> exn + string set" where
  "load_tag_entries seen [] = Inr seen"
| "load_tag_entries seen (JObj d # es) =
     check (fst ` set d - {''name'', ''description''} \<noteq> {})
       (config_error [(''unknown_keys'',
          JStrs (sorted_of (fst ` set d - {''name'', ''description''})))])
     (case dict_get d ''name'' of
        Some (JStr name) \<Rightarrow>
          check (name = []) (config_error [])
          (check (\<not> re_match tag_name_rx name) (config_error [(''name'', JStr name)])
          (check (name \<in> seen) (config_error [(''name'', JStr name)])
          (load_tag_entries (insert name seen) es)))
      | _ \<Rightarrow> Inl (config_error []))"
| "load_tag_entries seen (e # es) = Inl (config_error [])"

text \<open>\<open>data\<close> is the parsed file: \<open>None\<close> when it is missing or does not parse.\<close>

definition load_tag_vocabulary :: "dict option \<Rightarrow> exn + string set" where
  "load_tag_vocabulary data = (case data of
     None \<Rightarrow> Inl (config_error [])
   | Some d \<Rightarrow>
       check (fst ` set d - {''tag''} \<noteq> {})
         (config_error [(''unknown_keys'', JStrs (sorted_of (fst ` set d - {''tag''})))])
       (case dict_get d ''tag'' of
          None \<Rightarrow> Inr {}
        | Some (JArr es) \<Rightarrow> load_tag_entries {} es
        | Some _ \<Rightarrow> Inl (config_error [])))"

lemma load_tag_entries_Inr:
  "load_tag_entries seen es = Inr tags \<Longrightarrow>
   seen \<subseteq> tags \<and> card (tags - seen) = length es \<and> finite (tags - seen) \<and>
   (\<forall>t \<in> tags - seen. t \<noteq> [] \<and> re_match tag_name_rx t)"
proof (induction seen es rule: load_tag_entries.induct)
  case (2 seen d es)
  then obtain name where name: "dict_get d ''name'' = Some (JStr name)" "name \<noteq> []"
    "re_match tag_name_rx name" "name \<notin> seen"
    and rest: "load_tag_entries (insert name seen) es = Inr tags"
    by (auto simp: check_def split: if_splits option.splits json.splits)
  have IH: "insert name seen \<subseteq> tags \<and> card (tags - insert name seen) = length es \<and>
      finite (tags - insert name seen) \<and>
      (\<forall>t \<in> tags - insert name seen. t \<noteq> [] \<and> re_match tag_name_rx t)"
    by (rule 2(1) [OF name(1) refl rest])
  define new where "new = tags - insert name seen"
  have eq: "tags - seen = insert name new" and "name \<notin> new"
    using IH name(4) by (auto simp: new_def)
  moreover have "card new = length es" "finite new" "\<forall>t \<in> new. t \<noteq> [] \<and> re_match tag_name_rx t"
    and sub: "seen \<subseteq> tags"
    using IH by (simp_all add: new_def)
  ultimately show ?case using name(2,3) unfolding eq by simp
qed simp_all

end
