(* ===== verification/World.thy ===== *)
theory World
  imports Database
begin

text \<open>
  What the use cases change: the database, the metrics recorder (the list of what was
  recorded), the background scheduler (the named tasks in the order in which they were
  scheduled), the mails the SMTP relay accepted and the documents the report store saved.
\<close>

section \<open>Mail\<close>

text \<open>The value objects of the mailer port; attachment contents are the texts before encoding.\<close>

record email_attachment =
  at_filename :: string
  at_content_type :: string
  at_content :: string

definition email_attachment_post_init :: "email_attachment \<Rightarrow> exn + email_attachment" where
  "email_attachment_post_init a =
     check (at_filename a = []) value_error (check (at_content_type a = []) value_error (Inr a))"

record outbound_email =
  oe_recipients :: "string set"
  oe_subject :: string
  oe_body_html :: string
  oe_from_address :: string
  oe_attachments :: "email_attachment list"

definition has_newline :: "string \<Rightarrow> bool" where
  "has_newline s \<longleftrightarrow> CHR 0x0A \<in> set s \<or> CHR 0x0D \<in> set s"

definition outbound_email_post_init :: "outbound_email \<Rightarrow> exn + outbound_email" where
  "outbound_email_post_init m =
     check (oe_recipients m = {}) value_error
     (check (oe_from_address m = []) value_error
     (check (has_newline (oe_subject m)) value_error
     (check (has_newline (oe_from_address m)) value_error (Inr m))))"

definition outbound_email_ok :: "outbound_email \<Rightarrow> bool" where
  "outbound_email_ok m \<longleftrightarrow> oe_recipients m \<noteq> {} \<and> oe_from_address m \<noteq> [] \<and>
     \<not> has_newline (oe_subject m) \<and> \<not> has_newline (oe_from_address m)"

lemma outbound_email_post_init_Inr:
  "outbound_email_post_init m = Inr m' \<longleftrightarrow> m' = m \<and> outbound_email_ok m"
  by (auto simp: outbound_email_post_init_def outbound_email_ok_def check_Inr)

section \<open>The world of the use cases\<close>

datatype metric =
    MRun run_state
  | MStage stage_state
  | MDelivery string
  | MSize int
  | MDuration int

record world =
  w_db :: db
  w_metrics :: "metric list"
  w_tasks :: "(string \<times> run_id) list"
  w_sent :: "outbound_email list"
  w_reports :: "(run_id \<times> stage_id option \<times> string) list"

definition record_metrics :: "metric list \<Rightarrow> world \<Rightarrow> world" where
  "record_metrics ms w = w\<lparr> w_metrics := w_metrics w @ ms \<rparr>"

text \<open>A transaction of a use case on the world: only the database takes part.\<close>

definition in_uow :: "'a tx \<Rightarrow> world \<Rightarrow> (exn + 'a) \<times> world" where
  "in_uow body w = (let (r, d) = uow body (w_db w) in (r, w\<lparr> w_db := d \<rparr>))"

lemma in_uow_Done: "body (w_db w) = Done x d \<Longrightarrow> in_uow body w = (Inr x, w\<lparr> w_db := d \<rparr>)"
  by (simp add: in_uow_def uow_def)

lemma in_uow_Raised: "body (w_db w) = Raised e \<Longrightarrow> in_uow body w = (Inl e, w)"
  by (simp add: in_uow_def uow_def)

lemma in_uow_plain_cases:
  assumes "in_uow body w = (r, w')" and "plain body"
  shows "w' = w \<or> (\<exists>x d. body (w_db w) = Done x d \<and> w' = w\<lparr> w_db := d \<rparr>)"
  using assms by (cases "body (w_db w)") (auto simp: in_uow_def uow_def plain_def)

end
