(* ===== verification/Begin_Run.thy ===== *)
theory Begin_Run
  imports Repo_Stage Repo_Audit Templates World
begin

text \<open>
  \<open>BeginRunUseCase\<close> (\<open>application/use_cases/begin_run.py\<close>).  \<open>begin_run_validate\<close> is the part before \<open>new_run_id()\<close>, \<open>begin_run\<close> the whole
  method with the uuid and the clock reading as arguments.  The lemmas give the order of the
  checks, what the transaction stores, and that a rejected call changes nothing.
\<close>

section \<open>The command\<close>

record declared_stage_input =
  dsi_stage_id :: string
  dsi_stage_order :: int
  dsi_template_ref :: template_ref

record begin_run_command =
  br_pipeline_type :: string
  br_tags :: "string set"
  br_declared_stages :: "declared_stage_input list"
  br_attachment_mode :: attachment_mode
  br_aggregation_ref :: "template_ref option"

text \<open>The field constraints of the command model: a command object satisfies them.\<close>

definition begin_run_command_ok :: "begin_run_command \<Rightarrow> bool" where
  "begin_run_command_ok cmd \<longleftrightarrow> br_pipeline_type cmd \<noteq> [] \<and> finite (br_tags cmd) \<and>
     (\<forall>ds \<in> set (br_declared_stages cmd). dsi_stage_id ds \<noteq> [] \<and> 0 \<le> dsi_stage_order ds \<and>
        template_ref_ok (dsi_template_ref ds)) \<and>
     (\<forall>r. br_aggregation_ref cmd = Some r \<longrightarrow> template_ref_ok r)"

section \<open>Validation\<close>

definition latest_sentinel :: string where
  "latest_sentinel = ''latest''"

definition maybe_resolve_latest ::
  "template_repo \<Rightarrow> template_ref option \<Rightarrow> string \<Rightarrow> string option \<Rightarrow> exn + template_ref option" where
  "maybe_resolve_latest tr ref role stage_id = (case ref of
     None \<Rightarrow> Inr None
   | Some r \<Rightarrow>
       if tpl_version r \<noteq> latest_sentinel then Inr (Some r)
       else (case tr_resolve_latest tr (tpl_name r) of
          Inr r' \<Rightarrow> Inr (Some r')
        | Inl e \<Rightarrow>
            if exn_is e UnknownTemplateError
            then Inl (err UnknownTemplateError
              ([(''name'', JStr (tpl_name r)), (''version'', JStr (tpl_version r)),
                (''role'', JStr role)]
               @ (case stage_id of None \<Rightarrow> [] | Some s \<Rightarrow> [(''stage_id'', JStr s)])))
            else Inl e))"

text \<open>\<open>stage_id_counts\<close>: the dict built by counting, as its lookup function.\<close>

fun count_ids :: "declared_stage_input list \<Rightarrow> (string \<Rightarrow> nat) \<Rightarrow> string \<Rightarrow> nat" where
  "count_ids [] counts = counts"
| "count_ids (ds # dss) counts =
     count_ids dss (counts(dsi_stage_id ds := counts (dsi_stage_id ds) + 1))"

definition duplicate_ids :: "declared_stage_input list \<Rightarrow> string list" where
  "duplicate_ids dss =
     sorted_of {i \<in> set (map dsi_stage_id dss). 1 < count_ids dss (\<lambda>_. 0) i}"

definition invalid_tags :: "string set \<Rightarrow> string set \<Rightarrow> string list" where
  "invalid_tags vocabulary tags = sorted_of {t \<in> tags. t \<notin> vocabulary}"

text \<open>The existence check of the aggregation template, then of the stage templates in order.\<close>

definition aggregation_exists :: "template_repo \<Rightarrow> template_ref option \<Rightarrow> exn + unit" where
  "aggregation_exists tr agg = (case agg of
     None \<Rightarrow> Inr ()
   | Some r \<Rightarrow> if tr_exists tr r then Inr ()
       else Inl (err UnknownTemplateError [(''name'', JStr (tpl_name r)),
              (''version'', JStr (tpl_version r)), (''role'', JStr ''aggregation_template'')]))"

fun stage_templates_exist ::
  "template_repo \<Rightarrow> (declared_stage_input \<times> template_ref) list \<Rightarrow> exn + unit" where
  "stage_templates_exist tr [] = Inr ()"
| "stage_templates_exist tr ((ds, r) # rest) =
     (if tr_exists tr r then stage_templates_exist tr rest
      else Inl (err UnknownTemplateError [(''name'', JStr (tpl_name r)),
             (''version'', JStr (tpl_version r)), (''role'', JStr ''report_template''),
             (''stage_id'', JStr (dsi_stage_id ds))]))"

definition resolve_stage_ref :: "template_repo \<Rightarrow> declared_stage_input \<Rightarrow> exn + template_ref" where
  "resolve_stage_ref tr ds =
     and_then (maybe_resolve_latest tr (Some (dsi_template_ref ds)) ''report_template''
       (Some (dsi_stage_id ds)))
     (\<lambda>r. case r of Some r' \<Rightarrow> Inr r' | None \<Rightarrow> Inr (dsi_template_ref ds))"

definition begin_run_validate ::
  "string set \<Rightarrow> string set \<Rightarrow> template_repo \<Rightarrow> begin_run_command
    \<Rightarrow> exn + (template_ref option \<times> template_ref list)" where
  "begin_run_validate registry vocabulary tr cmd =
     check (br_pipeline_type cmd \<notin> registry)
       (err UnknownPipelineTypeError [(''submitted'', JStr (br_pipeline_type cmd)),
          (''allowed'', JStrs (sorted_of registry))])
     (check (invalid_tags vocabulary (br_tags cmd) \<noteq> [])
       (err UnknownTagError
          [(''invalid_tags'', JStrs (invalid_tags vocabulary (br_tags cmd)))])
     (check (duplicate_ids (br_declared_stages cmd) \<noteq> [])
       (err DuplicateStageIdError
          [(''duplicates'', JStrs (duplicate_ids (br_declared_stages cmd)))])
     (check (br_attachment_mode cmd = SINGLE_AGGREGATED \<and> br_aggregation_ref cmd = None)
       (err MissingAggregationTemplateError
          [(''attachment_mode'', JStr (attachment_mode_value (br_attachment_mode cmd)))])
     (and_then (if br_attachment_mode cmd = SINGLE_AGGREGATED
                then maybe_resolve_latest tr (br_aggregation_ref cmd) ''aggregation_template'' None
                else Inr None) (\<lambda>agg.
      and_then (map_res (resolve_stage_ref tr) (br_declared_stages cmd)) (\<lambda>refs.
      and_then (aggregation_exists tr agg) (\<lambda>_.
      and_then (stage_templates_exist tr (zip (br_declared_stages cmd) refs)) (\<lambda>_.
      Inr (agg, refs)))))))))"

section \<open>Building and storing the run\<close>

definition declared_of :: "declared_stage_input \<times> template_ref \<Rightarrow> declared_stage" where
  "declared_of p = \<lparr> ds_stage_id = dsi_stage_id (fst p), ds_stage_order = dsi_stage_order (fst p),
     ds_template_ref = snd p \<rparr>"

definition new_run ::
  "run_id \<Rightarrow> int \<Rightarrow> begin_run_command \<Rightarrow> template_ref option \<Rightarrow> template_ref list \<Rightarrow> run" where
  "new_run rid now cmd agg refs =
     \<lparr> run_run_id = rid, run_pipeline_type = br_pipeline_type cmd, run_tags = br_tags cmd,
       run_declared_stages = map declared_of (zip (br_declared_stages cmd) refs),
       run_state = INITIATED, run_attachment_mode = br_attachment_mode cmd,
       run_created_at = utc now, run_updated_at = utc now,
       run_aggregation_template_ref =
         (if br_attachment_mode cmd = SINGLE_AGGREGATED then agg else None),
       run_subscription_predicate_tags = br_tags cmd \<rparr>"

definition initial_stage :: "run_id \<Rightarrow> declared_stage \<Rightarrow> stage" where
  "initial_stage rid ds =
     \<lparr> stage_run_id = rid, stage_stage_id = ds_stage_id ds, stage_state = PENDING,
       stage_template_ref = ds_template_ref ds, stage_report_context = None,
       stage_email_body_context = None, stage_email_body_position = None,
       stage_submitted_at = None \<rparr>"

definition begin_run_event :: "run \<Rightarrow> int \<Rightarrow> audit_event" where
  "begin_run_event r now =
     \<lparr> ae_timestamp = utc now, ae_action = BEGIN_RUN,
       ae_actor = ''pipeline:'' @ run_pipeline_type r, ae_resource = ''run:'' @ run_run_id r,
       ae_outcome = SUCCESS,
       ae_details =
         [(''pipeline_type'', JStr (run_pipeline_type r)),
          (''tags'', JStrs (sorted_of (run_tags r))),
          (''declared_stage_ids'', JStrs (map ds_stage_id (run_declared_stages r))),
          (''attachment_mode'', JStr (attachment_mode_value (run_attachment_mode r))),
          (''timestamp'', JStr (iso_text now))],
       ae_audit_id = None \<rparr>"

definition begin_run_tx :: "audit_event \<Rightarrow> run \<Rightarrow> stage list \<Rightarrow> unit tx" where
  "begin_run_tx ev r stages =
     tx_then (audit_record ev) (tx_then (run_save r) (tx_iter stage_save stages))"

definition begin_run ::
  "string set \<Rightarrow> string set \<Rightarrow> template_repo \<Rightarrow> run_id \<Rightarrow> int \<Rightarrow> begin_run_command \<Rightarrow> world
    \<Rightarrow> (exn + run_id) \<times> world" where
  "begin_run registry vocabulary tr uuid now cmd w =
     (case and_then (begin_run_validate registry vocabulary tr cmd) (\<lambda>(agg, refs).
        and_then (map_res (\<lambda>p. declared_stage_post_init (declared_of p))
                    (zip (br_declared_stages cmd) refs)) (\<lambda>_.
        and_then (run_post_init (new_run uuid now cmd agg refs)) (\<lambda>r.
        and_then (map_res (\<lambda>ds. stage_post_init (initial_stage uuid ds))
                    (run_declared_stages r)) (\<lambda>stages.
        and_then (audit_event_post_init (begin_run_event r now)) (\<lambda>ev.
        Inr (r, stages, ev)))))) of
        Inl e \<Rightarrow> (Inl e, w)
      | Inr (r, stages, ev) \<Rightarrow>
          (case in_uow (begin_run_tx ev r stages) w of
             (Inl e, w') \<Rightarrow> (Inl e, w')
           | (Inr _, w') \<Rightarrow>
               (Inr uuid, record_metrics (MRun (run_state r) # map (MStage \<circ> stage_state) stages) w')))"

section \<open>What validation accepts\<close>

lemma count_ids_count:
  "count_ids dss c i = c i + length (filter (\<lambda>ds. dsi_stage_id ds = i) dss)"
  by (induction dss arbitrary: c) simp_all

lemma filter_key_length:
  "distinct (map f xs) \<longleftrightarrow> (\<forall>i. length (filter (\<lambda>x. f x = i) xs) \<le> 1)"
proof (induction xs)
  case (Cons x xs)
  have "f x \<in> f ` set xs \<longleftrightarrow> filter (\<lambda>y. f y = f x) xs \<noteq> []"
    by (auto simp: filter_empty_conv rev_image_eqI)
  with Cons show ?case by (auto simp: Suc_le_eq le_Suc_eq)
qed simp

lemma duplicate_ids_Nil: "duplicate_ids dss = [] \<longleftrightarrow> distinct (map dsi_stage_id dss)"
proof -
  have "duplicate_ids dss = [] \<longleftrightarrow> (\<forall>i \<in> set (map dsi_stage_id dss).
      length (filter (\<lambda>ds. dsi_stage_id ds = i) dss) \<le> 1)"
    by (auto simp: duplicate_ids_def count_ids_count not_less)
  also have "\<dots> \<longleftrightarrow> (\<forall>i. length (filter (\<lambda>ds. dsi_stage_id ds = i) dss) \<le> 1)"
    by (metis (mono_tags, lifting) filter_empty_conv image_eqI length_0_conv less_nat_zero_code
        list.set_map not_less)
  finally show ?thesis by (simp add: filter_key_length)
qed

lemma invalid_tags_Nil: "finite tags \<Longrightarrow> invalid_tags vocabulary tags = [] \<longleftrightarrow> tags \<subseteq> vocabulary"
  by (auto simp: invalid_tags_def)

text \<open>\<open>resolved tr r r'\<close>: what \<open>"latest"\<close> in a reference becomes.\<close>

definition resolved :: "template_repo \<Rightarrow> template_ref \<Rightarrow> template_ref \<Rightarrow> bool" where
  "resolved tr r r' \<longleftrightarrow>
     (if tpl_version r = ''latest'' then tr_resolve_latest tr (tpl_name r) = Inr r' else r' = r)
     \<and> tr_exists tr r'"

lemma maybe_resolve_latest_Inr:
  "maybe_resolve_latest tr (Some r) role sid = Inr x \<longleftrightarrow>
   (\<exists>r'. x = Some r' \<and> (if tpl_version r = ''latest'' then tr_resolve_latest tr (tpl_name r) = Inr r'
                        else r' = r))"
  by (auto simp: maybe_resolve_latest_def latest_sentinel_def split: sum.splits if_splits)

lemma resolve_stage_ref_Inr:
  "resolve_stage_ref tr ds = Inr r' \<longleftrightarrow>
   (if tpl_version (dsi_template_ref ds) = ''latest''
    then tr_resolve_latest tr (tpl_name (dsi_template_ref ds)) = Inr r'
    else r' = dsi_template_ref ds)"
  by (auto simp: resolve_stage_ref_def and_then_Inr maybe_resolve_latest_Inr split: option.splits)

lemma map_res_list_all2: "map_res f xs = Inr ys \<longleftrightarrow> list_all2 (\<lambda>x y. f x = Inr y) xs ys"
  by (induction xs arbitrary: ys) (auto simp: and_then_Inr list_all2_Cons1)

lemma stage_templates_exist_Inr:
  "stage_templates_exist tr ps = Inr u \<longleftrightarrow> (\<forall>p \<in> set ps. tr_exists tr (snd p))"
  by (induction tr ps rule: stage_templates_exist.induct) auto

definition begin_run_valid ::
  "string set \<Rightarrow> string set \<Rightarrow> template_repo \<Rightarrow> begin_run_command \<Rightarrow> template_ref option
    \<Rightarrow> template_ref list \<Rightarrow> bool" where
  "begin_run_valid registry vocabulary tr cmd agg refs \<longleftrightarrow>
     br_pipeline_type cmd \<in> registry \<and> br_tags cmd \<subseteq> vocabulary \<and>
     distinct (map dsi_stage_id (br_declared_stages cmd)) \<and>
     (if br_attachment_mode cmd = SINGLE_AGGREGATED
      then \<exists>r r'. br_aggregation_ref cmd = Some r \<and> agg = Some r' \<and> resolved tr r r'
      else agg = None) \<and>
     list_all2 (\<lambda>ds r'. resolved tr (dsi_template_ref ds) r') (br_declared_stages cmd) refs"

lemma begin_run_validate_Inr:
  assumes "finite (br_tags cmd)"
  shows "begin_run_validate registry vocabulary tr cmd = Inr (agg, refs) \<longleftrightarrow>
    begin_run_valid registry vocabulary tr cmd agg refs"
proof -
  have all2: "map_res (resolve_stage_ref tr) dss = Inr refs \<and>
      (\<forall>p \<in> set (zip dss refs). tr_exists tr (snd p)) \<longleftrightarrow>
      list_all2 (\<lambda>ds r'. resolved tr (dsi_template_ref ds) r') dss refs" for dss
    by (auto simp: map_res_list_all2 list_all2_iff resolve_stage_ref_Inr resolved_def)
  have agg: "aggregation_exists tr agg = Inr u \<longleftrightarrow> (\<forall>r. agg = Some r \<longrightarrow> tr_exists tr r)" for u
    by (auto simp: aggregation_exists_def split: option.splits)
  have "begin_run_validate registry vocabulary tr cmd = Inr (agg, refs) \<longleftrightarrow>
     br_pipeline_type cmd \<in> registry \<and> br_tags cmd \<subseteq> vocabulary \<and>
     distinct (map dsi_stage_id (br_declared_stages cmd)) \<and>
     \<not> (br_attachment_mode cmd = SINGLE_AGGREGATED \<and> br_aggregation_ref cmd = None) \<and>
     (if br_attachment_mode cmd = SINGLE_AGGREGATED
      then maybe_resolve_latest tr (br_aggregation_ref cmd) ''aggregation_template'' None
      else Inr None) = Inr agg \<and> (\<forall>r. agg = Some r \<longrightarrow> tr_exists tr r) \<and>
     map_res (resolve_stage_ref tr) (br_declared_stages cmd) = Inr refs \<and>
     (\<forall>p \<in> set (zip (br_declared_stages cmd) refs). tr_exists tr (snd p))"
    unfolding begin_run_validate_def
    by (auto simp: check_Inr and_then_Inr stage_templates_exist_Inr agg duplicate_ids_Nil
        invalid_tags_Nil [OF assms])
  also have "\<dots> \<longleftrightarrow> begin_run_valid registry vocabulary tr cmd agg refs"
    unfolding all2 begin_run_valid_def
    by (cases "br_aggregation_ref cmd") (auto simp: maybe_resolve_latest_Inr resolved_def)
  finally show ?thesis .
qed

section \<open>What an accepted call stores\<close>

text \<open>What the use case relies on of the template port.\<close>

definition port_ok :: "template_repo \<Rightarrow> bool" where
  "port_ok tr \<longleftrightarrow> (\<forall>n r. tr_resolve_latest tr n = Inr r \<longrightarrow> template_ref_ok r) \<and>
     (\<forall>n e. tr_resolve_latest tr n = Inl e \<longrightarrow> exn_is e UnknownTemplateError)"

lemma in_memory_port_ok: "entries_ok entries \<Longrightarrow> port_ok (in_memory_repo parse entries)"
  using in_memory.resolved_ok [of "(parse, entries)"] in_memory.unresolved [of "(parse, entries)"]
  by (simp add: port_ok_def)

lemma resolved_ref_ok: "port_ok tr \<Longrightarrow> template_ref_ok r \<Longrightarrow> resolved tr r r' \<Longrightarrow> template_ref_ok r'"
  by (auto simp: port_ok_def resolved_def split: if_splits)

lemma new_run_declared:
  assumes "begin_run_valid registry vocabulary tr cmd agg refs"
  shows "map ds_stage_id (run_declared_stages (new_run uuid now cmd agg refs)) =
    map dsi_stage_id (br_declared_stages cmd)"
proof -
  have len: "length (br_declared_stages cmd) = length refs"
    using assms by (auto simp: begin_run_valid_def dest: list_all2_lengthD)
  have "map ds_stage_id (map declared_of (zip dss refs)) = map dsi_stage_id dss"
    if "length dss = length refs" for dss
    using that by (induction dss refs rule: list_induct2) (simp_all add: declared_of_def)
  then show ?thesis using len by (simp add: new_run_def del: map_map)
qed

lemma new_run_storable:
  assumes cmd: "begin_run_command_ok cmd" and port: "port_ok tr"
    and valid: "begin_run_valid registry vocabulary tr cmd agg refs"
  shows "run_storable (new_run uuid now cmd agg refs)"
proof -
  have distinct: "distinct (map ds_stage_id (run_declared_stages (new_run uuid now cmd agg refs)))"
    using valid by (simp add: new_run_declared [OF valid] begin_run_valid_def)
  have stages: "declared_stage_ok (declared_of p)" if "p \<in> set (zip (br_declared_stages cmd) refs)" for p
  proof -
    have "fst p \<in> set (br_declared_stages cmd)" using that by (metis in_set_zipE prod.collapse)
    moreover have "resolved tr (dsi_template_ref (fst p)) (snd p)"
      using valid that by (auto simp: begin_run_valid_def list_all2_iff)
    ultimately show ?thesis
      using cmd resolved_ref_ok [OF port]
      by (auto simp: begin_run_command_ok_def declared_stage_ok_def declared_of_def)
  qed
  have agg: "template_ref_ok r"
    if "br_attachment_mode cmd = SINGLE_AGGREGATED" "agg = Some r" for r
    using that valid cmd resolved_ref_ok [OF port]
    by (auto simp: begin_run_valid_def begin_run_command_ok_def)
  have some: "br_attachment_mode cmd = SINGLE_AGGREGATED \<Longrightarrow> agg \<noteq> None"
    using valid by (auto simp: begin_run_valid_def)
  show ?thesis
    unfolding run_storable_def run_ok_def
    using distinct stages agg some cmd
    by (auto simp: new_run_def begin_run_command_ok_def)
qed

lemma initial_stage_storable:
  "declared_stage_ok ds \<Longrightarrow> stage_storable (initial_stage rid ds)"
  by (simp add: stage_storable_def stage_ok_def initial_stage_def declared_stage_ok_def
      submission_states_def)

text \<open>The transaction, for a run whose id is not in the table yet.\<close>

lemma begin_run_tx_effect:
  assumes r: "run_storable r" and new: "run_run_id r \<notin> rr_run_id ` set (db_runs d)"
    and unused: "drop_unused_ref r = r" and ev: "dt_aware (ae_timestamp ev)"
  shows "\<exists>d'. begin_run_tx ev r (map (initial_stage (run_run_id r)) (run_declared_stages r)) d
      = Done () d' \<and>
    run_get (run_run_id r) d' = Done r d' \<and>
    (\<forall>ds \<in> set (run_declared_stages r). stage_stored d' (initial_stage (run_run_id r) ds)) \<and>
    db_audit d' = db_audit d @ [audit_row_of (db_next_audit d) ev] \<and>
    (\<forall>k. k \<noteq> run_run_id r \<longrightarrow> find_row rr_run_id k (db_runs d') = find_row rr_run_id k (db_runs d)) \<and>
    (\<forall>k. fst k \<noteq> run_run_id r \<longrightarrow>
       find_row stage_key k (db_stages d') = find_row stage_key k (db_stages d)) \<and>
    db_actions d' = db_actions d \<and> db_users d' = db_users d \<and> db_sessions d' = db_sessions d \<and>
    db_subscriptions d' = db_subscriptions d"
proof -
  define d1 where "d1 = add_audit ev d"
  obtain row where row: "run_to_params r = Inr row"
    using r run_to_params_Inr [of r] by (auto simp: run_storable_def)
  define d2 where "d2 = db_runs_update (upsert_row rr_run_id run_conflict row) d1"
  have save: "run_save r d1 = Done () d2" using run_save_run [OF row] by (simp add: d2_def)
  have new1: "find_row rr_run_id (run_run_id r) (db_runs d1) = None"
    using new by (simp add: d1_def find_row_None)
  have get: "run_get (run_run_id r) d2 = Done r d2"
    using run_get_after_save [OF r new1 save] unused by simp
  then have id2: "run_run_id r \<in> rr_run_id ` set (db_runs d2)"
    by (force simp: run_get_Done dest!: find_row_Some)
  define ss where "ss = map (initial_stage (run_run_id r)) (run_declared_stages r)"
  have ids: "map stage_stage_id ss = map ds_stage_id (run_declared_stages r)"
    by (simp add: ss_def initial_stage_def comp_def)
  have storable: "\<forall>s \<in> set ss. stage_storable s \<and> stage_run_id s = run_run_id r"
    using r initial_stage_storable by (auto simp: ss_def run_storable_def initial_stage_def)
  have dist: "distinct (map stage_stage_id ss)"
    using r by (simp add: ids run_storable_def run_ok_def)
  obtain d' where
    iter: "tx_iter stage_save ss d2 = Done () d'" and stored: "\<forall>s \<in> set ss. stage_stored d' s"
    and other: "\<forall>k. k \<notin> (\<lambda>s. (run_run_id r, stage_stage_id s)) ` set ss \<longrightarrow>
          find_row stage_key k (db_stages d') = find_row stage_key k (db_stages d2)"
    and frame: "d' = d2\<lparr> db_stages := db_stages d' \<rparr>"
    and "stages.unique_keys d2 \<longrightarrow> stages.unique_keys d'"
    by (rule save_stages [OF storable id2 dist])
  have "db_runs d' = db_runs d2" "db_audit d' = db_audit d2" "db_actions d' = db_actions d2"
    "db_users d' = db_users d2" "db_sessions d' = db_sessions d2"
    "db_subscriptions d' = db_subscriptions d2"
    by (subst frame, simp)+
  note same = this
  show ?thesis
  proof (intro exI [of _ d'] conjI)
    show "begin_run_tx ev r (map (initial_stage (run_run_id r)) (run_declared_stages r)) d = Done () d'"
      using save iter by (simp add: begin_run_tx_def tx_then_def tx_bind_def
          audit_record_event [OF ev] flip: d1_def ss_def)
    show "run_get (run_run_id r) d' = Done r d'" using get same(1) by (simp add: run_get_Done)
    show "\<forall>ds \<in> set (run_declared_stages r). stage_stored d' (initial_stage (run_run_id r) ds)"
      using stored by (simp add: ss_def)
    show "db_audit d' = db_audit d @ [audit_row_of (db_next_audit d) ev]"
      by (simp add: same d2_def d1_def add_audit_def)
    show "\<forall>k. k \<noteq> run_run_id r \<longrightarrow>
        find_row rr_run_id k (db_runs d') = find_row rr_run_id k (db_runs d)"
      using run_to_params_key [OF row]
      by (simp add: same d2_def d1_def find_row_upsert run_conflict_def)
    show "\<forall>k. fst k \<noteq> run_run_id r \<longrightarrow>
        find_row stage_key k (db_stages d') = find_row stage_key k (db_stages d)"
      using other by (auto simp: d2_def d1_def)
  qed (simp_all add: same d2_def d1_def)
qed

lemma begin_run_Inr:
  fixes now :: int
  assumes cmd: "begin_run_command_ok cmd" and port: "port_ok tr"
    and valid: "begin_run_valid registry vocabulary tr cmd agg refs" and uuid: "uuid \<noteq> []"
  defines "r \<equiv> new_run uuid now cmd agg refs"
  defines "stages \<equiv> map (initial_stage uuid) (run_declared_stages r)"
  shows "begin_run registry vocabulary tr uuid now cmd w =
    (case in_uow (begin_run_tx (begin_run_event r now) r stages) w of
       (Inl e, w') \<Rightarrow> (Inl e, w')
     | (Inr _, w') \<Rightarrow> (Inr uuid,
         record_metrics (MRun INITIATED # map (\<lambda>_. MStage PENDING) (run_declared_stages r)) w'))"
proof -
  have "finite (br_tags cmd)" using cmd by (simp add: begin_run_command_ok_def)
  then have v: "begin_run_validate registry vocabulary tr cmd = Inr (agg, refs)"
    using valid by (simp add: begin_run_validate_Inr)
  have storable: "run_storable r" unfolding r_def by (rule new_run_storable [OF cmd port valid])
  then have ok: "run_post_init r = Inr r"
    by (simp add: run_storable_def run_post_init_Inr)
  have dss: "\<forall>ds \<in> set (run_declared_stages r). declared_stage_ok ds"
    using storable by (simp add: run_storable_def)
  have decl: "map_res (\<lambda>p. declared_stage_post_init (declared_of p)) (zip (br_declared_stages cmd) refs)
      = Inr (map declared_of (zip (br_declared_stages cmd) refs))"
    using dss by (intro map_res_all)
      (auto simp: r_def new_run_def declared_stage_post_init_def declared_stage_ok_def check_def)
  have stages: "map_res (\<lambda>ds. stage_post_init (initial_stage uuid ds)) (run_declared_stages r)
      = Inr stages" unfolding stages_def
    using dss initial_stage_storable
    by (intro map_res_all) (auto simp: stage_post_init_Inr stage_storable_def)
  have ev: "audit_event_post_init (begin_run_event r now) = Inr (begin_run_event r now)"
    by (simp add: audit_event_post_init_Inr audit_event_ok_def begin_run_event_def)
  have st: "run_state r = INITIATED" by (simp add: r_def new_run_def)
  have ms: "map (MStage \<circ> stage_state) stages = map (\<lambda>_. MStage PENDING) (run_declared_stages r)"
    by (simp add: stages_def initial_stage_def comp_def)
  show ?thesis
    unfolding begin_run_def v and_then_simps prod.case decl r_def [symmetric] ok stages ev sum.case
      st ms ..
qed

section \<open>Rejected calls\<close>

text \<open>The error of the first check that fails; a rejected call leaves the world alone.\<close>

definition begin_run_first_error :: "string set \<Rightarrow> string set \<Rightarrow> begin_run_command \<Rightarrow> err_class" where
  "begin_run_first_error registry vocabulary cmd =
     (if br_pipeline_type cmd \<notin> registry then UnknownPipelineTypeError
      else if \<not> br_tags cmd \<subseteq> vocabulary then UnknownTagError
      else if \<not> distinct (map dsi_stage_id (br_declared_stages cmd)) then DuplicateStageIdError
      else if br_attachment_mode cmd = SINGLE_AGGREGATED \<and> br_aggregation_ref cmd = None
      then MissingAggregationTemplateError
      else UnknownTemplateError)"

lemma maybe_resolve_latest_Inl:
  "port_ok tr \<Longrightarrow> maybe_resolve_latest tr r role sid = Inl e \<Longrightarrow> exn_is e UnknownTemplateError"
  by (auto simp: maybe_resolve_latest_def port_ok_def split: option.splits sum.splits if_splits)

lemma resolve_stage_ref_Inl:
  "port_ok tr \<Longrightarrow> resolve_stage_ref tr ds = Inl e \<Longrightarrow> exn_is e UnknownTemplateError"
  by (auto simp: resolve_stage_ref_def and_then_Inl split: option.splits dest: maybe_resolve_latest_Inl)

lemma stage_templates_exist_Inl:
  "stage_templates_exist tr ps = Inl e \<Longrightarrow> exn_is e UnknownTemplateError"
  by (induction tr ps rule: stage_templates_exist.induct) (auto split: if_splits)

lemma aggregation_exists_Inl:
  "aggregation_exists tr agg = Inl e \<Longrightarrow> exn_is e UnknownTemplateError"
  by (auto simp: aggregation_exists_def split: option.splits if_splits)

lemma begin_run_validate_Inl:
  assumes "finite (br_tags cmd)" and port: "port_ok tr"
    and "begin_run_validate registry vocabulary tr cmd = Inl e"
  shows "exn_is e (begin_run_first_error registry vocabulary cmd)"
  using assms(3) unfolding begin_run_validate_def begin_run_first_error_def
  by (auto simp: check_Inl and_then_Inl duplicate_ids_Nil invalid_tags_Nil [OF assms(1)]
      split: if_splits dest!: map_res_Inl
      dest: maybe_resolve_latest_Inl [OF port] resolve_stage_ref_Inl [OF port]
        stage_templates_exist_Inl aggregation_exists_Inl)

section \<open>Properties\<close>

text \<open>A sample registry and command, on which the properties are instantiated.\<close>

definition sample_ref :: template_ref where
  "sample_ref = \<lparr> tpl_name = ''summary'', tpl_version = ''1'' \<rparr>"

definition sample_meta :: template_metadata where
  "sample_meta = \<lparr> tm_name = ''summary'', tm_version = ''1'', tm_kind = REPORT_FRAGMENT,
     tm_source_path = ''summary.html'', tm_context_schema_path = None, tm_description = None \<rparr>"

definition sample_repo :: template_repo where
  "sample_repo = in_memory_repo (\<lambda>v. Some (length v)) [((''summary'', ''1''), sample_meta)]"

definition sample_command :: begin_run_command where
  "sample_command =
     \<lparr> br_pipeline_type = ''nightly'', br_tags = {''qa''},
       br_declared_stages = [\<lparr> dsi_stage_id = ''build'', dsi_stage_order = 0,
         dsi_template_ref = \<lparr> tpl_name = ''summary'', tpl_version = ''latest'' \<rparr> \<rparr>],
       br_attachment_mode = PER_STAGE, br_aggregation_ref = None \<rparr>"

definition empty_world :: world where
  "empty_world = \<lparr> w_db = empty_db, w_metrics = [], w_tasks = [], w_sent = [], w_reports = [] \<rparr>"

lemma sample_port_ok: "port_ok sample_repo"
  unfolding sample_repo_def
  by (rule in_memory_port_ok) (simp add: entries_ok_def sample_meta_def)

lemma sample_command_ok: "begin_run_command_ok sample_command"
  by (simp add: begin_run_command_ok_def sample_command_def template_ref_ok_def)

lemma sample_valid:
  "begin_run_valid {''nightly''} {''qa''} sample_repo sample_command None [sample_ref]"
  by (simp add: begin_run_valid_def sample_command_def sample_repo_def in_memory_repo_def
      resolved_def repo_resolve_latest_def repo_exists_def sample_ref_def
      template_ref_post_init_def check_def)

lemma sample_invalid: "\<not> begin_run_valid {} {''qa''} sample_repo sample_command agg refs"
  by (simp add: begin_run_valid_def sample_command_def)

text \<open>
  C7: an accepted BeginRun returns the new id and stores, in one transaction, the run in state
  INITIATED with the resolved template references, one PENDING stage for every declared stage,
  and exactly one audit event; every other run, stage and table is as before, and the metrics
  record the run and its stages.
\<close>

theorem begin_run_accepted:
  assumes cmd: "begin_run_command_ok cmd" and port: "port_ok tr"
    and valid: "begin_run_valid registry vocabulary tr cmd agg refs"
    and uuid: "uuid \<noteq> []" and new: "uuid \<notin> rr_run_id ` set (db_runs (w_db w))"
  shows "\<exists>d. begin_run registry vocabulary tr uuid now cmd w =
      (Inr uuid, w\<lparr> w_db := d, w_metrics := w_metrics w @ MRun INITIATED #
         map (\<lambda>_. MStage PENDING) (br_declared_stages cmd) \<rparr>) \<and>
    run_get uuid d = Done (new_run uuid now cmd agg refs) d \<and>
    (\<forall>ds \<in> set (run_declared_stages (new_run uuid now cmd agg refs)).
       stage_get uuid (ds_stage_id ds) d = Done (initial_stage uuid ds) d) \<and>
    db_audit d = db_audit (w_db w) @ [audit_row_of (db_next_audit (w_db w))
       (begin_run_event (new_run uuid now cmd agg refs) now)] \<and>
    (\<forall>k. k \<noteq> uuid \<longrightarrow> find_row rr_run_id k (db_runs d) = find_row rr_run_id k (db_runs (w_db w))) \<and>
    (\<forall>k. fst k \<noteq> uuid \<longrightarrow> find_row stage_key k (db_stages d) = find_row stage_key k (db_stages (w_db w))) \<and>
    db_actions d = db_actions (w_db w) \<and> db_users d = db_users (w_db w) \<and>
    db_sessions d = db_sessions (w_db w) \<and> db_subscriptions d = db_subscriptions (w_db w)"
proof -
  let ?r = "new_run uuid now cmd agg refs"
  have id: "run_run_id ?r = uuid" by (simp add: new_run_def)
  have unused: "drop_unused_ref ?r = ?r" by (simp add: drop_unused_ref_def new_run_def)
  have aware: "dt_aware (ae_timestamp (begin_run_event ?r now))" by (simp add: begin_run_event_def)
  have "length (map ds_stage_id (run_declared_stages ?r)) = length (br_declared_stages cmd)"
    unfolding new_run_declared [OF valid] by simp
  then have metrics: "map (\<lambda>_. MStage PENDING) (run_declared_stages ?r) =
      map (\<lambda>_. MStage PENDING) (br_declared_stages cmd)"
    by (simp add: map_replicate_const)
  obtain d where tx: "begin_run_tx (begin_run_event ?r now) ?r
        (map (initial_stage uuid) (run_declared_stages ?r)) (w_db w) = Done () d"
    and get: "run_get uuid d = Done ?r d"
    and stages: "\<forall>ds \<in> set (run_declared_stages ?r). stage_stored d (initial_stage uuid ds)"
    and rest: "db_audit d = db_audit (w_db w) @ [audit_row_of (db_next_audit (w_db w))
        (begin_run_event ?r now)]"
      "\<forall>k. k \<noteq> uuid \<longrightarrow> find_row rr_run_id k (db_runs d) = find_row rr_run_id k (db_runs (w_db w))"
      "\<forall>k. fst k \<noteq> uuid \<longrightarrow> find_row stage_key k (db_stages d) = find_row stage_key k (db_stages (w_db w))"
      "db_actions d = db_actions (w_db w)" "db_users d = db_users (w_db w)"
      "db_sessions d = db_sessions (w_db w)" "db_subscriptions d = db_subscriptions (w_db w)"
    using begin_run_tx_effect [OF new_run_storable [OF cmd port valid] _ unused aware, of "w_db w"] new
    unfolding id by blast
  note stored = in_uow_Done [where w = w and body = "begin_run_tx (begin_run_event ?r now) ?r
      (map (initial_stage uuid) (run_declared_stages ?r))", OF tx]
  have "begin_run registry vocabulary tr uuid now cmd w =
      (Inr uuid, w\<lparr> w_db := d, w_metrics := w_metrics w @ MRun INITIATED #
         map (\<lambda>_. MStage PENDING) (br_declared_stages cmd) \<rparr>)"
    unfolding begin_run_Inr [OF cmd port valid uuid] stored metrics
    by (simp add: record_metrics_def)
  moreover have "stage_get uuid (ds_stage_id ds) d = Done (initial_stage uuid ds) d"
    if "ds \<in> set (run_declared_stages ?r)" for ds
    using stage_stored_get [OF bspec [OF stages that]] by (simp add: initial_stage_def)
  ultimately show ?thesis using get rest by blast
qed

theorem begin_run_accepted_witness:
  "\<exists>d. begin_run {''nightly''} {''qa''} sample_repo ''r1'' 5 sample_command empty_world =
      (Inr ''r1'', empty_world\<lparr> w_db := d, w_metrics := [MRun INITIATED, MStage PENDING] \<rparr>)"
  using begin_run_accepted [OF sample_command_ok sample_port_ok sample_valid, of "''r1''" empty_world 5]
  by (auto simp: empty_world_def empty_db_def sample_command_def)

text \<open>
  C8: a BeginRun that fails validation raises the error of the first check that fails, in the
  order pipeline type, tags, duplicate stages, missing aggregation template, unknown template,
  and leaves the database, the metrics and the scheduler as they were: in particular it records
  no audit event.
\<close>

theorem begin_run_rejected:
  assumes "begin_run_command_ok cmd" and "port_ok tr"
    and "\<nexists>agg refs. begin_run_valid registry vocabulary tr cmd agg refs"
  shows "\<exists>e. begin_run registry vocabulary tr uuid now cmd w = (Inl e, w) \<and>
    exn_is e (begin_run_first_error registry vocabulary cmd)"
proof -
  have fin: "finite (br_tags cmd)" using assms(1) by (simp add: begin_run_command_ok_def)
  obtain e where e: "begin_run_validate registry vocabulary tr cmd = Inl e"
  proof (cases "begin_run_validate registry vocabulary tr cmd")
    case (Inr x)
    then show ?thesis using assms(3) begin_run_validate_Inr [OF fin] by (cases x) auto
  qed (rule that)
  then show ?thesis
    using begin_run_validate_Inl [OF fin assms(2) e] by (simp add: begin_run_def)
qed

theorem begin_run_rejected_witness:
  "\<exists>e. begin_run {} {''qa''} sample_repo ''r1'' 5 sample_command empty_world = (Inl e, empty_world) \<and>
    exn_is e UnknownPipelineTypeError"
  using begin_run_rejected [OF sample_command_ok sample_port_ok, of "{}" "{''qa''}" "''r1''" 5 empty_world]
    sample_invalid by (simp add: begin_run_first_error_def)

end
