(* ===== verification/Submit_Stage.thy ===== *)
theory Submit_Stage
  imports Begin_Run
begin

text \<open>
  \<open>SubmitStageReportUseCase\<close> and \<open>FinalizeRunUseCase\<close>.  \<open>submit_tx\<close> and
  \<open>finalize_tx\<close> are the bodies of their transactions with every guard in the order of the
  code; the use cases add the parsing of the run id before and the metrics, and for
  FinalizeRun the scheduling of the delivery task, after the commit.

  The lemmas say when a submission is accepted, what it stores and records, and that every
  other call leaves the world alone.
\<close>

section \<open>Submitting a stage report\<close>

record submit_command =
  sc_run_id :: string
  sc_stage_id :: string
  sc_report_context :: "dict option"
  sc_email_body_context :: "dict option"
  sc_email_body_position :: "email_body_position option"

text \<open>Field constraints and \<open>_check_position_pairing\<close>.\<close>

definition submit_command_ok :: "submit_command \<Rightarrow> bool" where
  "submit_command_ok cmd \<longleftrightarrow> sc_run_id cmd \<noteq> [] \<and> sc_stage_id cmd \<noteq> [] \<and>
     (sc_email_body_position cmd = None \<longleftrightarrow> sc_email_body_context cmd = None)"

definition serialize_context :: "dict option \<Rightarrow> json option" where
  "serialize_context ctx = map_option (\<lambda>d. dumps_json (JObj d)) ctx"

definition stage_submission_sources :: "stage_state set" where
  "stage_submission_sources = {PENDING, SUBMITTED, RETRIED}"

definition run_submission_sources :: "run_state set" where
  "run_submission_sources = {INITIATED, AGGREGATING}"

definition next_stage_state :: "stage_state \<Rightarrow> stage_state" where
  "next_stage_state s = (if s = PENDING then SUBMITTED else RETRIED)"

definition submitted_stage :: "submit_command \<Rightarrow> run_id \<Rightarrow> stage \<Rightarrow> int \<Rightarrow> stage" where
  "submitted_stage cmd rid cur now =
     \<lparr> stage_run_id = rid, stage_stage_id = sc_stage_id cmd,
       stage_state = next_stage_state (stage_state cur),
       stage_template_ref = stage_template_ref cur,
       stage_report_context = serialize_context (sc_report_context cmd),
       stage_email_body_context = serialize_context (sc_email_body_context cmd),
       stage_email_body_position = sc_email_body_position cmd,
       stage_submitted_at = Some (utc now) \<rparr>"

definition submit_event :: "submit_command \<Rightarrow> run \<Rightarrow> stage \<Rightarrow> int \<Rightarrow> audit_event" where
  "submit_event cmd r cur now =
     \<lparr> ae_timestamp = utc now, ae_action = SUBMIT_STAGE_REPORT,
       ae_actor = ''pipeline:'' @ run_pipeline_type r,
       ae_resource = ''run:'' @ run_run_id r @ ''/stage:'' @ sc_stage_id cmd,
       ae_outcome = SUCCESS,
       ae_details =
         [(''run_id'', JStr (run_run_id r)), (''stage_id'', JStr (sc_stage_id cmd)),
          (''prior_stage_state'', JStr (stage_state_value (stage_state cur))),
          (''new_stage_state'', JStr (stage_state_value (next_stage_state (stage_state cur)))),
          (''was_retry'', JBool (stage_state cur \<noteq> PENDING)),
          (''run_transitioned_to_aggregating'', JBool (run_state r = INITIATED)),
          (''has_report_context'', JBool (sc_report_context cmd \<noteq> None)),
          (''has_email_body_context'', JBool (sc_email_body_context cmd \<noteq> None)),
          (''timestamp'', JStr (iso_text now))],
       ae_audit_id = None \<rparr>"

text \<open>The guards inside the transaction, in order.\<close>

definition submit_guards :: "submit_command \<Rightarrow> run_id \<Rightarrow> (run \<times> stage) tx" where
  "submit_guards cmd rid =
     tx_bind (run_get rid) (\<lambda>r.
     tx_then (tx_guard (run_state r \<notin> run_submission_sources)
       (err InvalidRunStateError [(''run_id'', JStr rid),
          (''run_state'', JStr (run_state_value (run_state r))),
          (''accepting_states'', JStrs [run_state_value INITIATED, run_state_value AGGREGATING])]))
     (tx_then (tx_guard (sc_stage_id cmd \<notin> declared_stage_ids r)
       (err UnknownStageError [(''run_id'', JStr rid), (''stage_id'', JStr (sc_stage_id cmd)),
          (''declared_stages'', JStrs (sorted_of (declared_stage_ids r)))]))
     (tx_bind (stage_get rid (sc_stage_id cmd)) (\<lambda>cur.
     tx_then (tx_guard (stage_state cur \<in> stage_terminal)
       (err InvalidStageStateError [(''run_id'', JStr rid), (''stage_id'', JStr (sc_stage_id cmd)),
          (''stage_state'', JStr (stage_state_value (stage_state cur)))]))
     (tx_then (tx_guard (stage_state cur \<notin> stage_submission_sources)
       (err InvalidStageStateError [(''run_id'', JStr rid), (''stage_id'', JStr (sc_stage_id cmd)),
          (''stage_state'', JStr (stage_state_value (stage_state cur)))]))
     (tx_then (tx_bind (tx_lift (stage_transition (stage_state cur)
          (next_stage_state (stage_state cur)) rid (sc_stage_id cmd))) (\<lambda>_. tx_return ()))
     (tx_then (if run_state r = INITIATED
               then tx_bind (tx_lift (run_transition (run_state r) AGGREGATING rid))
                      (\<lambda>_. tx_return ())
               else tx_return ())
     (tx_return (r, cur)))))))))"

definition submit_tx :: "submit_command \<Rightarrow> run_id \<Rightarrow> int \<Rightarrow> (stage_state \<times> bool \<times> bool) tx" where
  "submit_tx cmd rid now =
     tx_bind (submit_guards cmd rid) (\<lambda>(r, cur).
     tx_bind (tx_lift (stage_post_init (submitted_stage cmd rid cur now))) (\<lambda>new_stage.
     tx_bind (tx_lift (audit_event_post_init (submit_event cmd r cur now))) (\<lambda>ev.
     tx_then (audit_record ev)
     (tx_then (stage_save new_stage)
     (tx_then (if run_state r = INITIATED then run_update_state rid AGGREGATING (utc now)
               else tx_return ())
     (tx_return (stage_state new_stage, stage_state cur \<noteq> PENDING, run_state r = INITIATED)))))))"

definition submit_stage_report ::
  "int \<Rightarrow> submit_command \<Rightarrow> world \<Rightarrow> (exn + stage_state \<times> bool) \<times> world" where
  "submit_stage_report now cmd w =
     (case validate_run_id_str (sc_run_id cmd) of
        Inl e \<Rightarrow> (Inl e, w)
      | Inr rid \<Rightarrow>
          (case in_uow (submit_tx cmd rid now) w of
             (Inl e, w') \<Rightarrow> (Inl e, w')
           | (Inr (st, retry, moved), w') \<Rightarrow>
               (Inr (st, retry), record_metrics
                  (MStage st # (if moved then [MRun AGGREGATING] else [])) w')))"

section \<open>When a submission is accepted\<close>

definition submit_accepts :: "run \<Rightarrow> stage \<Rightarrow> submit_command \<Rightarrow> bool" where
  "submit_accepts r cur cmd \<longleftrightarrow> run_state r \<in> {INITIATED, AGGREGATING} \<and>
     sc_stage_id cmd \<in> declared_stage_ids r \<and> stage_state cur \<in> {PENDING, SUBMITTED, RETRIED}"

lemma next_stage_allowed:
  "stage_state cur \<in> {PENDING, SUBMITTED, RETRIED} \<Longrightarrow>
   stage_can_transition (stage_state cur) (next_stage_state (stage_state cur))"
  by (auto simp: stage_can_transition_iff next_stage_state_def)

lemma submit_guards_Done:
  "submit_guards cmd rid d = Done (r, cur) d' \<longleftrightarrow>
     d' = d \<and> run_get rid d = Done r d \<and> stage_get rid (sc_stage_id cmd) d = Done cur d \<and>
     submit_accepts r cur cmd"
proof -
  have sources: "stage_state cur \<notin> stage_terminal \<and> stage_state cur \<in> stage_submission_sources \<longleftrightarrow>
      stage_state cur \<in> {PENDING, SUBMITTED, RETRIED}"
    by (auto simp: stage_terminal_def stage_submission_sources_def)
  have "submit_guards cmd rid d = Done (r, cur) d' \<longleftrightarrow>
     d' = d \<and> run_get rid d = Done r d \<and> run_state r \<in> run_submission_sources \<and>
     sc_stage_id cmd \<in> declared_stage_ids r \<and> stage_get rid (sc_stage_id cmd) d = Done cur d \<and>
     (stage_state cur \<notin> stage_terminal \<and> stage_state cur \<in> stage_submission_sources) \<and>
     stage_can_transition (stage_state cur) (next_stage_state (stage_state cur)) \<and>
     (run_state r = INITIATED \<longrightarrow> run_can_transition (run_state r) AGGREGATING)"
    unfolding submit_guards_def tx_bind_Done tx_then_Done tx_guard_Done tx_lift_Done
    by (auto simp: run_get_Done stage_get_Done tx_return_def tx_lift_Done tx_bind_Done
        stage_transition_Inr run_transition_Inr)
  also have "\<dots> \<longleftrightarrow> d' = d \<and> run_get rid d = Done r d \<and>
     stage_get rid (sc_stage_id cmd) d = Done cur d \<and> submit_accepts r cur cmd"
    unfolding sources submit_accepts_def run_submission_sources_def
    using next_stage_allowed [of cur] by (auto simp: run_can_transition_iff run_terminal_def)
  finally show ?thesis .
qed

lemma submitted_stage_storable:
  assumes "submit_command_ok cmd" and "template_ref_ok (stage_template_ref cur)"
  shows "stage_storable (submitted_stage cmd rid cur now)"
  using assms
  by (auto simp: stage_storable_def stage_ok_def submitted_stage_def submit_command_ok_def
      serialize_context_def next_stage_state_def)

text \<open>The database after an accepted submission.\<close>

lemma submit_tx_accepted:
  assumes cmd: "submit_command_ok cmd" and run: "run_get rid d = Done r d"
    and stage: "stage_get rid (sc_stage_id cmd) d = Done cur d"
    and ok: "submit_accepts r cur cmd"
  shows "\<exists>d'. submit_tx cmd rid now d = Done (next_stage_state (stage_state cur),
        stage_state cur \<noteq> PENDING, run_state r = INITIATED) d' \<and>
    stage_stored d' (submitted_stage cmd rid cur now) \<and>
    (\<forall>k. k \<noteq> (rid, sc_stage_id cmd) \<longrightarrow>
       find_row stage_key k (db_stages d') = find_row stage_key k (db_stages d)) \<and>
    db_runs d' = (if run_state r = INITIATED
       then update_rows (\<lambda>x. rr_run_id x = rid) (set_run_state AGGREGATING now) (db_runs d)
       else db_runs d) \<and>
    db_audit d' = db_audit d @ [audit_row_of (db_next_audit d) (submit_event cmd r cur now)] \<and>
    db_next_audit d' = db_next_audit d + 1 \<and>
    db_actions d' = db_actions d \<and> db_users d' = db_users d \<and> db_sessions d' = db_sessions d \<and>
    db_subscriptions d' = db_subscriptions d"
proof -
  let ?new = "submitted_stage cmd rid cur now" and ?ev = "submit_event cmd r cur now"
  have ref: "template_ref_ok (stage_template_ref cur)"
    using stage by (auto simp: stage_get_Done dest: row_to_stage_Inr(6))
  note storable = submitted_stage_storable [OF cmd ref, of rid now]
  then have new: "stage_post_init ?new = Inr ?new"
    by (simp add: stage_post_init_Inr stage_storable_def)
  have ev: "audit_event_post_init ?ev = Inr ?ev"
    by (simp add: audit_event_post_init_Inr audit_event_ok_def submit_event_def)
  have aware: "dt_aware (ae_timestamp ?ev)" by (simp add: submit_event_def)
  define d1 where "d1 = add_audit ?ev d"
  obtain row where row: "find_row rr_run_id rid (db_runs d) = Some row"
    using run by (auto simp: run_get_Done)
  then have rid: "stage_run_id ?new \<in> rr_run_id ` set (db_runs d1)"
    by (force simp: submitted_stage_def d1_def dest: find_row_Some)
  have key: "(stage_run_id ?new, stage_stage_id ?new) = (rid, sc_stage_id cmd)"
    by (simp add: submitted_stage_def)
  obtain d2 where save: "stage_save ?new d1 = Done () d2" and stored: "stage_stored d2 ?new"
    and other: "\<forall>k. k \<noteq> (rid, sc_stage_id cmd) \<longrightarrow>
       find_row stage_key k (db_stages d2) = find_row stage_key k (db_stages d1)"
    and frame: "d2 = d1\<lparr> db_stages := db_stages d2 \<rparr>"
    and "stages.unique_keys d1 \<longrightarrow> stages.unique_keys d2"
    using stage_save_effect [OF storable rid] unfolding key by blast
  have "db_runs d2 = db_runs d1" "db_audit d2 = db_audit d1" "db_next_audit d2 = db_next_audit d1"
    "db_actions d2 = db_actions d1" "db_users d2 = db_users d1" "db_sessions d2 = db_sessions d1"
    "db_subscriptions d2 = db_subscriptions d1"
    by (subst frame, simp)+
  note same = this
  define d3 where "d3 = (if run_state r = INITIATED
     then db_runs_update (update_rows (\<lambda>x. rr_run_id x = rid) (set_run_state AGGREGATING now)) d2
     else d2)"
  have row2: "find_row rr_run_id rid (db_runs d2) = Some row" using row by (simp add: same d1_def)
  have upd: "(if run_state r = INITIATED then run_update_state rid AGGREGATING (utc now)
      else tx_return ()) d2 = Done () d3"
    using run_update_state_run [OF row2] by (simp add: d3_def tx_return_def)
  have guards: "submit_guards cmd rid d = Done (r, cur) d"
    using run stage ok by (simp add: submit_guards_Done)
  have result: "submit_tx cmd rid now d = Done (stage_state ?new, stage_state cur \<noteq> PENDING,
       run_state r = INITIATED) d3"
    using save upd
    by (simp add: submit_tx_def tx_bind_def tx_then_def guards tx_lift_def tx_read_def new ev
        audit_record_event [OF aware] tx_return_def flip: d1_def)
  show ?thesis
  proof (intro exI [of _ d3] conjI)
    show "submit_tx cmd rid now d = Done (next_stage_state (stage_state cur),
        stage_state cur \<noteq> PENDING, run_state r = INITIATED) d3"
      using result by (simp add: submitted_stage_def)
    show "stage_stored d3 ?new" using stored by (simp add: stage_stored_def d3_def)
  qed (use other in \<open>simp_all add: d3_def same d1_def add_audit_def\<close>)
qed

lemma submit_plain [plain_intro]: "plain (submit_tx cmd rid now)"
  unfolding submit_tx_def submit_guards_def split_beta by (intro plain_intro)

lemma submit_tx_Done:
  "submit_tx cmd rid now d = Done x d' \<Longrightarrow>
   \<exists>r cur. run_get rid d = Done r d \<and> stage_get rid (sc_stage_id cmd) d = Done cur d \<and>
     submit_accepts r cur cmd"
  unfolding submit_tx_def tx_bind_Done by (auto simp: submit_guards_Done)

section \<open>Finalizing a run\<close>

definition finalize_event :: "run \<Rightarrow> int \<Rightarrow> audit_event" where
  "finalize_event r now =
     \<lparr> ae_timestamp = utc now, ae_action = FINALIZE_RUN,
       ae_actor = ''pipeline:'' @ run_pipeline_type r, ae_resource = ''run:'' @ run_run_id r,
       ae_outcome = SUCCESS,
       ae_details =
         [(''run_id'', JStr (run_run_id r)), (''prior_state'', JStr (run_state_value AGGREGATING)),
          (''new_state'', JStr (run_state_value READY)), (''timestamp'', JStr (iso_text now))],
       ae_audit_id = None \<rparr>"

definition finalize_tx :: "run_id \<Rightarrow> int \<Rightarrow> unit tx" where
  "finalize_tx rid now =
     tx_bind (run_get rid) (\<lambda>r.
     tx_then (tx_guard (run_state r \<noteq> AGGREGATING)
       (err InvalidRunStateError [(''run_id'', JStr rid),
          (''run_state'', JStr (run_state_value (run_state r))),
          (''required_state'', JStr (run_state_value AGGREGATING))]))
     (tx_bind (tx_lift (run_transition (run_state r) READY rid)) (\<lambda>_.
     tx_bind (tx_lift (audit_event_post_init (finalize_event r now))) (\<lambda>ev.
     tx_then (audit_record ev) (run_update_state rid READY (utc now))))))"

definition finalize_run :: "int \<Rightarrow> string \<Rightarrow> world \<Rightarrow> (exn + run_id \<times> run_state) \<times> world" where
  "finalize_run now cmd_run_id w =
     (case validate_run_id_str cmd_run_id of
        Inl e \<Rightarrow> (Inl e, w)
      | Inr rid \<Rightarrow>
          (case in_uow (finalize_tx rid now) w of
             (Inl e, w') \<Rightarrow> (Inl e, w')
           | (Inr _, w') \<Rightarrow>
               (Inr (rid, READY),
                (record_metrics [MRun READY] w')
                  \<lparr> w_tasks := w_tasks w' @ [(''assemble-and-deliver:'' @ rid, rid)] \<rparr>)))"

lemma finalize_tx_Done:
  "finalize_tx rid now d = Done u d' \<longleftrightarrow>
   (\<exists>r. run_get rid d = Done r d \<and> run_state r = AGGREGATING \<and>
      d' = db_runs_update (update_rows (\<lambda>x. rr_run_id x = rid) (set_run_state READY now))
             (add_audit (finalize_event r now) d))" (is "?L \<longleftrightarrow> ?R")
proof -
  have ev: "audit_event_post_init (finalize_event r now) = Inr (finalize_event r now)"
    and aware: "dt_aware (ae_timestamp (finalize_event r now))" for r
    by (simp_all add: audit_event_post_init_Inr audit_event_ok_def finalize_event_def)
  have upd: "run_update_state rid READY (utc now) (add_audit (finalize_event r now) d) =
      Done () (db_runs_update (update_rows (\<lambda>x. rr_run_id x = rid) (set_run_state READY now))
             (add_audit (finalize_event r now) d))" if get: "run_get rid d = Done r d" for r
  proof -
    obtain row where "find_row rr_run_id rid (db_runs (add_audit (finalize_event r now) d)) = Some row"
      using get by (auto simp: run_get_Done)
    then show ?thesis by (rule run_update_state_run)
  qed
  have step: "run_get rid d = Done r d1 \<Longrightarrow> d1 = d" for r d1 by (simp add: run_get_Done)
  have "?L \<longleftrightarrow> (\<exists>r d1. run_get rid d = Done r d1 \<and> run_state r = AGGREGATING \<and>
      run_update_state rid READY (utc now) (add_audit (finalize_event r now) d1) = Done u d')"
    unfolding finalize_tx_def tx_bind_Done tx_then_Done tx_guard_Done tx_lift_Done
    by (auto simp: ev audit_record_event [OF aware] run_transition_Inr run_can_transition_iff
        run_terminal_def)
  also have "\<dots> \<longleftrightarrow> ?R"
  proof
    assume "\<exists>r d1. run_get rid d = Done r d1 \<and> run_state r = AGGREGATING \<and>
      run_update_state rid READY (utc now) (add_audit (finalize_event r now) d1) = Done u d'"
    then obtain r d1 where get: "run_get rid d = Done r d1" and st: "run_state r = AGGREGATING"
      and d': "run_update_state rid READY (utc now) (add_audit (finalize_event r now) d1) = Done u d'"
      by blast
    from step [OF get] get have get': "run_get rid d = Done r d" by simp
    with st d' upd [OF get'] step [OF get] show ?R by auto
  next
    assume ?R
    then show "\<exists>r d1. run_get rid d = Done r d1 \<and> run_state r = AGGREGATING \<and>
      run_update_state rid READY (utc now) (add_audit (finalize_event r now) d1) = Done u d'"
      using upd by force
  qed
  finally show ?thesis .
qed

lemma finalize_run_Inr:
  "finalize_run now s w = (Inr x, w') \<longleftrightarrow>
   (\<exists>rid r d. validate_run_id_str s = Inr rid \<and> x = (rid, READY) \<and>
      run_get rid (w_db w) = Done r (w_db w) \<and> run_state r = AGGREGATING \<and>
      d = db_runs_update (update_rows (\<lambda>x. rr_run_id x = rid) (set_run_state READY now))
             (add_audit (finalize_event r now) (w_db w)) \<and>
      w' = w\<lparr> w_db := d, w_metrics := w_metrics w @ [MRun READY],
              w_tasks := w_tasks w @ [(''assemble-and-deliver:'' @ rid, rid)] \<rparr>)"
proof (cases "validate_run_id_str s")
  case (Inl e)
  then show ?thesis by (simp add: finalize_run_def)
next
  case (Inr rid)
  show ?thesis
  proof (cases "finalize_tx rid now (w_db w)")
    case (Done u d)
    then show ?thesis
      using Inr finalize_tx_Done [of rid now "w_db w" u d]
      by (auto simp: finalize_run_def in_uow_Done record_metrics_def)
  next
    case (Raised e)
    then have "\<nexists>r. run_get rid (w_db w) = Done r (w_db w) \<and> run_state r = AGGREGATING"
      using finalize_tx_Done [of rid now "w_db w" "()"] by auto
    then show ?thesis using Inr Raised by (auto simp: finalize_run_def in_uow_Raised)
  next
    case (CommittedRaise e d)
    then have "\<nexists>r. run_get rid (w_db w) = Done r (w_db w) \<and> run_state r = AGGREGATING"
      using finalize_tx_Done [of rid now "w_db w" "()"] by auto
    then show ?thesis using Inr CommittedRaise by (auto simp: finalize_run_def in_uow_def uow_def)
  qed
qed

section \<open>Properties\<close>

text \<open>
  C9: an accepted stage report stores the submitted stage (SUBMITTED on the first submission,
  RETRIED afterwards, with the template reference it was declared with), moves the run from
  INITIATED to AGGREGATING exactly on its first submission, records exactly one audit event,
  and touches no other stage.
\<close>

theorem submit_accepted:
  assumes cmd: "submit_command_ok cmd" and rid: "validate_run_id_str (sc_run_id cmd) = Inr rid"
    and run: "run_get rid (w_db w) = Done r (w_db w)"
    and stage: "stage_get rid (sc_stage_id cmd) (w_db w) = Done cur (w_db w)"
    and ok: "submit_accepts r cur cmd" and clock: "dt_us (run_created_at r) \<le> now"
  shows "\<exists>d. submit_stage_report now cmd w =
      (Inr (next_stage_state (stage_state cur), stage_state cur \<noteq> PENDING),
       w\<lparr> w_db := d, w_metrics := w_metrics w @ MStage (next_stage_state (stage_state cur)) #
          (if run_state r = INITIATED then [MRun AGGREGATING] else []) \<rparr>) \<and>
    stage_get rid (sc_stage_id cmd) d = Done (submitted_stage cmd rid cur now) d \<and>
    run_get rid d = Done (if run_state r = INITIATED
      then r\<lparr> run_state := AGGREGATING, run_updated_at := utc now \<rparr> else r) d \<and>
    db_audit d = db_audit (w_db w) @ [audit_row_of (db_next_audit (w_db w))
      (submit_event cmd r cur now)] \<and>
    (\<forall>k. k \<noteq> (rid, sc_stage_id cmd) \<longrightarrow>
      find_row stage_key k (db_stages d) = find_row stage_key k (db_stages (w_db w)))"
proof -
  obtain d where tx: "submit_tx cmd rid now (w_db w) = Done (next_stage_state (stage_state cur),
        stage_state cur \<noteq> PENDING, run_state r = INITIATED) d"
    and stored: "stage_stored d (submitted_stage cmd rid cur now)"
    and other: "\<forall>k. k \<noteq> (rid, sc_stage_id cmd) \<longrightarrow>
       find_row stage_key k (db_stages d) = find_row stage_key k (db_stages (w_db w))"
    and runs: "db_runs d = (if run_state r = INITIATED
       then update_rows (\<lambda>x. rr_run_id x = rid) (set_run_state AGGREGATING now) (db_runs (w_db w))
       else db_runs (w_db w))"
    and audit: "db_audit d = db_audit (w_db w) @ [audit_row_of (db_next_audit (w_db w))
      (submit_event cmd r cur now)]"
    using submit_tx_accepted [OF cmd run stage ok, of now] by blast
  obtain row where row: "find_row rr_run_id rid (db_runs (w_db w)) = Some row" "row_to_run row = Inr r"
    using run by (auto simp: run_get_Done)
  have created: "rr_created_at row \<le> now" using clock row_to_run_Inr(4) [OF row(2)] by simp
  have "run_get rid d = Done (if run_state r = INITIATED
      then r\<lparr> run_state := AGGREGATING, run_updated_at := utc now \<rparr> else r) d"
    using row row_to_run_set_state [OF row(2), of AGGREGATING now] created
    by (simp add: run_get_Done runs find_row_update_rows set_run_state_def)
  moreover have "stage_get rid (sc_stage_id cmd) d = Done (submitted_stage cmd rid cur now) d"
    using stage_stored_get [OF stored] by (simp add: submitted_stage_def)
  moreover have "submit_stage_report now cmd w =
      (Inr (next_stage_state (stage_state cur), stage_state cur \<noteq> PENDING),
       w\<lparr> w_db := d, w_metrics := w_metrics w @ MStage (next_stage_state (stage_state cur)) #
          (if run_state r = INITIATED then [MRun AGGREGATING] else []) \<rparr>)"
    using in_uow_Done [where body = "submit_tx cmd rid now" and w = w, OF tx]
    by (simp add: submit_stage_report_def rid record_metrics_def)
  ultimately show ?thesis using other audit by blast
qed

text \<open>A database with one run that has one pending stage.\<close>

definition sample_rid :: run_id where
  "sample_rid = ''00000000-0000-0000-0000-000000000001''"

definition sample_run :: run where
  "sample_run = new_run sample_rid 5 sample_command None [sample_ref]"

definition sample_run_row :: run_row where
  "sample_run_row =
     \<lparr> rr_run_id = sample_rid, rr_pipeline_type = ''nightly'', rr_state = ''INITIATED'',
       rr_attachment_mode = ''PER_STAGE'', rr_agg_name = None, rr_agg_version = None,
       rr_tags = JStrs [''qa''],
       rr_declared_stages = JArr [JObj
         [(''report_template_name'', JStr ''summary''), (''report_template_version'', JStr ''1''),
          (''stage_id'', JStr ''build''), (''stage_order'', JInt 0)]],
       rr_sub_tags = JStrs [''qa''], rr_created_at = 5, rr_updated_at = 5 \<rparr>"

definition sample_stage_row :: stage_row where
  "sample_stage_row =
     \<lparr> sr_run_id = sample_rid, sr_stage_id = ''build'', sr_state = ''PENDING'',
       sr_template_name = ''summary'', sr_template_version = ''1'', sr_report_context = None,
       sr_email_body_context = None, sr_submitted_at = None, sr_email_body_position = None \<rparr>"

definition sample_db :: db where
  "sample_db = empty_db\<lparr> db_runs := [sample_run_row], db_stages := [sample_stage_row] \<rparr>"

definition sample_world :: world where
  "sample_world = empty_world\<lparr> w_db := sample_db \<rparr>"

definition sample_stage :: stage where
  "sample_stage = initial_stage sample_rid
     \<lparr> ds_stage_id = ''build'', ds_stage_order = 0, ds_template_ref = sample_ref \<rparr>"

definition sample_submit :: submit_command where
  "sample_submit = \<lparr> sc_run_id = sample_rid, sc_stage_id = ''build'', sc_report_context = Some [],
     sc_email_body_context = None, sc_email_body_position = None \<rparr>"

lemma sample_rid_valid: "validate_run_id_str sample_rid = Inr sample_rid"
proof -
  have "\<forall>i < 36. if i \<in> dash_positions then sample_rid ! i = CHR ''-'' else is_lower_hex (sample_rid ! i)"
    by (simp add: sample_rid_def all_less_36 dash_positions_def)
       (auto simp: sample_rid_def nat_less_iff less_Suc_eq numeral_eq_Suc is_lower_hex_def is_digit_def
         nth_Cons split: nat.splits)
  moreover have "length sample_rid = 36" by (simp add: sample_rid_def)
  ultimately have "canonical_uuid sample_rid" unfolding canonical_uuid_def by blast
  then show ?thesis by (simp add: validate_run_id_str_Inr)
qed

lemma sample_run_get: "run_get sample_rid sample_db = Done sample_run sample_db"
proof -
  have "row_to_run sample_run_row = Inr sample_run"
    by (simp add: row_to_run_def sample_run_row_def enum_of_value_def run_states_def
        attachment_modes_def load_aggregation_ref_def load_declared_stage_def dict_get_def
        template_ref_post_init_def declared_stage_post_init_def check_def run_post_init_def
        aggregate_or_def sample_run_def new_run_def sample_command_def declared_of_def sample_ref_def)
  then show ?thesis
    by (simp add: run_get_Done sample_db_def) (simp add: sample_run_row_def)
qed

lemma sample_stage_get: "stage_get sample_rid ''build'' sample_db = Done sample_stage sample_db"
proof -
  have "row_to_stage sample_stage_row = Inr sample_stage"
    by (simp add: row_to_stage_def sample_stage_row_def enum_of_value_def stage_states_def
        load_position_def template_ref_post_init_def check_def stage_post_init_def
        aggregate_or_def sample_stage_def initial_stage_def sample_ref_def submission_states_def)
  then show ?thesis
    by (simp add: stage_get_Done sample_db_def) (simp add: sample_stage_row_def)
qed

lemma sample_submit_ok: "submit_command_ok sample_submit"
  by (simp add: submit_command_ok_def sample_submit_def sample_rid_def)

lemma sample_submit_accepts: "submit_accepts sample_run sample_stage sample_submit"
  by (simp add: submit_accepts_def sample_run_def new_run_def sample_stage_def initial_stage_def
      sample_submit_def declared_stage_ids_def declared_of_def sample_command_def)

theorem submit_accepted_witness:
  "\<exists>d. submit_stage_report 9 sample_submit sample_world =
     (Inr (SUBMITTED, False), sample_world\<lparr> w_db := d,
        w_metrics := [MStage SUBMITTED, MRun AGGREGATING] \<rparr>)"
  using submit_accepted [OF sample_submit_ok, of sample_rid sample_world sample_run sample_stage 9]
    sample_rid_valid sample_run_get sample_stage_get sample_submit_accepts
  by (auto simp: sample_submit_def sample_world_def empty_world_def sample_run_def new_run_def
      sample_stage_def initial_stage_def next_stage_state_def)




end
