(* ===== verification/Repo_Action.thy ===== *)
theory Repo_Action
  imports Repo_Run
begin

text \<open>
  \<open>SqliteSweeperActionRepository\<close>: the outbox of disposition actions.  A row is pending
  until a dispatcher claims it, then in flight until it is completed; a row that stays in
  flight too long is reclaimed while its attempts are below the bound, and abandoned after.

  The lemmas describe the rows each operation selects and changes; the property bounds how
  often a row can ever be handed to a dispatcher.
\<close>

type_synonym action_name = string

record claimed_action =
  ca_action_id :: int
  ca_run_id :: run_id
  ca_action_name :: action_name
  ca_attempts :: int

definition claimed_of :: "action_row \<Rightarrow> claimed_action" where
  "claimed_of r = \<lparr> ca_action_id = xr_action_id r, ca_run_id = xr_run_id r,
     ca_action_name = xr_action_name r, ca_attempts = xr_attempts r \<rparr>"

text \<open>An UPDATE of the table: every changed row has to pass the constraints.\<close>

definition actions_update :: "(action_row \<Rightarrow> bool) \<Rightarrow> (action_row \<Rightarrow> action_row) \<Rightarrow> unit tx" where
  "actions_update P f =
     tx_then (tx_read (\<lambda>d. if \<forall>r \<in> set (db_actions d). P r \<longrightarrow> actions_accepts d (f r)
                           then Inr () else Inl (PyExc IntegrityError [])))
     (tx_write (db_actions_update (update_rows P f)))"

definition action_enqueue :: "run_id \<Rightarrow> action_name \<Rightarrow> datetime \<Rightarrow> unit tx" where
  "action_enqueue rid name now =
     tx_bind (tx_lift (iso_col now)) (\<lambda>t.
     tx_bind (tx_read (\<lambda>d.
       let row = \<lparr> xr_action_id = db_next_action d, xr_run_id = rid, xr_action_name = name,
                   xr_enqueued_at = t, xr_claimed_at = None, xr_completed_at = None,
                   xr_attempts = 0, xr_last_error = None \<rparr>
       in if actions_accepts d row then Inr row else Inl (PyExc IntegrityError []))) (\<lambda>row.
     tx_write (\<lambda>d. d\<lparr> db_actions := db_actions d @ [row],
                     db_next_action := db_next_action d + 1 \<rparr>)))"

definition pending_rows :: "int \<Rightarrow> action_row list \<Rightarrow> action_row list" where
  "pending_rows limit rows = take (nat limit) (sort_key xr_enqueued_at (sort_key xr_action_id
     (filter (\<lambda>r. xr_claimed_at r = None) rows)))"

definition ids_of :: "action_row list \<Rightarrow> int set" where
  "ids_of rows = xr_action_id ` set rows"

definition action_claim_pending :: "datetime \<Rightarrow> int \<Rightarrow> claimed_action list tx" where
  "action_claim_pending now limit =
     tx_then (tx_guard (limit < 1) value_error)
     (tx_bind (tx_read (\<lambda>d. Inr (pending_rows limit (db_actions d)))) (\<lambda>rows.
      if rows = [] then tx_return []
      else tx_bind (tx_lift (iso_col now)) (\<lambda>t.
        tx_then (actions_update (\<lambda>r. xr_action_id r \<in> ids_of rows)
                   (\<lambda>r. r\<lparr> xr_claimed_at := Some t \<rparr>))
        (tx_return (map claimed_of rows)))))"

definition action_mark_completed :: "int \<Rightarrow> datetime \<Rightarrow> unit tx" where
  "action_mark_completed i at =
     tx_bind (tx_lift (iso_col at)) (\<lambda>t.
     actions_update (\<lambda>r. xr_action_id r = i) (\<lambda>r. r\<lparr> xr_completed_at := Some t \<rparr>))"

definition action_mark_failed :: "int \<Rightarrow> datetime \<Rightarrow> string \<Rightarrow> unit tx" where
  "action_mark_failed i at msg =
     tx_bind (tx_lift (iso_col at)) (\<lambda>t.
     actions_update (\<lambda>r. xr_action_id r = i) (\<lambda>r. r\<lparr> xr_completed_at := Some t,
       xr_attempts := xr_attempts r + 1, xr_last_error := Some msg \<rparr>))"

text \<open>In flight since before the cutoff, with attempts left or without.\<close>

definition stuck_before :: "int \<Rightarrow> action_row \<Rightarrow> bool" where
  "stuck_before cutoff r \<longleftrightarrow> xr_completed_at r = None \<and>
     (case xr_claimed_at r of None \<Rightarrow> False | Some t \<Rightarrow> t \<le> cutoff)"

definition claimed_time :: "action_row \<Rightarrow> int" where
  "claimed_time r = (case xr_claimed_at r of None \<Rightarrow> 0 | Some t \<Rightarrow> t)"

definition stuck_rows :: "int \<Rightarrow> int \<Rightarrow> int \<Rightarrow> action_row list \<Rightarrow> action_row list" where
  "stuck_rows cutoff max_attempts limit rows =
     take (nat limit) (sort_key claimed_time (sort_key xr_action_id
       (filter (\<lambda>r. stuck_before cutoff r \<and> xr_attempts r < max_attempts) rows)))"

definition abandoned_rows :: "int \<Rightarrow> int \<Rightarrow> int \<Rightarrow> action_row list \<Rightarrow> action_row list" where
  "abandoned_rows cutoff max_attempts limit rows =
     take (nat limit) (sort_key claimed_time (sort_key xr_action_id
       (filter (\<lambda>r. stuck_before cutoff r \<and> max_attempts \<le> xr_attempts r) rows)))"

definition us_per_second :: int where
  "us_per_second = 1000000"

definition stuck_cutoff :: "int \<Rightarrow> int \<Rightarrow> int" where
  "stuck_cutoff now threshold = now - threshold * us_per_second"

definition action_reclaim_stuck :: "int \<Rightarrow> int \<Rightarrow> int \<Rightarrow> int \<Rightarrow> claimed_action list tx" where
  "action_reclaim_stuck now limit threshold max_attempts =
     tx_then (tx_guard (limit < 1) value_error)
     (tx_then (tx_guard (threshold < 1) value_error)
     (tx_then (tx_guard (max_attempts < 1) value_error)
     (tx_bind (tx_read (\<lambda>d.
        Inr (stuck_rows (stuck_cutoff now threshold) max_attempts limit (db_actions d)))) (\<lambda>rows.
      if rows = [] then tx_return []
      else tx_then (actions_update (\<lambda>r. xr_action_id r \<in> ids_of rows)
             (\<lambda>r. r\<lparr> xr_claimed_at := Some now, xr_attempts := xr_attempts r + 1 \<rparr>))
           (tx_return (map (\<lambda>r. (claimed_of r)\<lparr> ca_attempts := xr_attempts r + 1 \<rparr>) rows))))))"

definition action_find_abandoned :: "int \<Rightarrow> int \<Rightarrow> int \<Rightarrow> int \<Rightarrow> claimed_action list tx" where
  "action_find_abandoned now threshold max_attempts limit =
     tx_then (tx_guard (limit < 1) value_error)
     (tx_then (tx_guard (threshold < 1) value_error)
     (tx_then (tx_guard (max_attempts < 1) value_error)
     (tx_read (\<lambda>d. Inr (map claimed_of
        (abandoned_rows (stuck_cutoff now threshold) max_attempts limit (db_actions d)))))))"

definition action_mark_abandoned :: "int \<Rightarrow> datetime \<Rightarrow> string \<Rightarrow> unit tx" where
  "action_mark_abandoned i at msg =
     tx_bind (tx_lift (iso_col at)) (\<lambda>t.
     actions_update (\<lambda>r. xr_action_id r = i) (\<lambda>r. r\<lparr> xr_completed_at := Some t,
       xr_last_error := Some msg \<rparr>))"

section \<open>What the operations do\<close>

lemma action_plain [plain_intro]:
  "plain (actions_update P f)" "plain (action_enqueue rid name now)"
  "plain (action_claim_pending now n)" "plain (action_mark_completed i now)"
  "plain (action_mark_failed i now msg)" "plain (action_reclaim_stuck t n th m)"
  "plain (action_find_abandoned t th m n)" "plain (action_mark_abandoned i now msg)"
  unfolding actions_update_def action_enqueue_def action_claim_pending_def
    action_mark_completed_def action_mark_failed_def action_reclaim_stuck_def
    action_find_abandoned_def action_mark_abandoned_def
  by (intro plain_intro)+

lemma actions_update_Done:
  "actions_update P f d = Done u d' \<Longrightarrow> d' = db_actions_update (update_rows P f) d"
  by (auto simp: actions_update_def tx_then_Done tx_read_Done tx_write_def)

definition new_action :: "int \<Rightarrow> run_id \<Rightarrow> action_name \<Rightarrow> int \<Rightarrow> action_row" where
  "new_action i rid name t = \<lparr> xr_action_id = i, xr_run_id = rid, xr_action_name = name,
     xr_enqueued_at = t, xr_claimed_at = None, xr_completed_at = None, xr_attempts = 0,
     xr_last_error = None \<rparr>"

definition permitted_actions :: "string set" where
  "permitted_actions =
     {''SEND_PARTIAL_FLAGGED'', ''DISCARD_SILENTLY'', ''NOTIFY_SUBSCRIBERS'', ''NOTIFY_ADMINS''}"

lemma action_enqueue_Done [repo_simps]:
  assumes "rid \<in> rr_run_id ` set (db_runs d)" and "name \<in> permitted_actions"
  shows "action_enqueue rid name (utc t) d =
    Done () (d\<lparr> db_actions := db_actions d @ [new_action (db_next_action d) rid name t],
               db_next_action := db_next_action d + 1 \<rparr>)"
proof -
  have "actions_accepts d (new_action (db_next_action d) rid name t)"
    using assms by (simp add: actions_accepts_def new_action_def permitted_actions_def)
  then show ?thesis
    by (simp add: action_enqueue_def tx_bind_def tx_lift_def tx_read_def tx_write_def new_action_def)
qed

text \<open>Enqueueing a list of actions appends one row for each, in order.\<close>

fun new_actions :: "int \<Rightarrow> run_id \<Rightarrow> int \<Rightarrow> action_name list \<Rightarrow> action_row list" where
  "new_actions i rid t [] = []"
| "new_actions i rid t (name # names) = new_action i rid name t # new_actions (i + 1) rid t names"

lemma length_new_actions [simp]: "length (new_actions i rid t names) = length names"
  by (induction names arbitrary: i) simp_all

lemma enqueue_all:
  assumes "rid \<in> rr_run_id ` set (db_runs d)" and "set names \<subseteq> permitted_actions"
  shows "tx_iter (\<lambda>name. action_enqueue rid name (utc t)) names d =
    Done () (d\<lparr> db_actions := db_actions d @ new_actions (db_next_action d) rid t names,
               db_next_action := db_next_action d + int (length names) \<rparr>)"
  using assms
proof (induction names arbitrary: d)
  case Nil
  then show ?case by (simp add: tx_return_def)
next
  case (Cons name names)
  let ?d = "d\<lparr> db_actions := db_actions d @ [new_action (db_next_action d) rid name t],
             db_next_action := db_next_action d + 1 \<rparr>"
  have "action_enqueue rid name (utc t) d = Done () ?d"
    using Cons.prems by (intro action_enqueue_Done) auto
  moreover have "tx_iter (\<lambda>name. action_enqueue rid name (utc t)) names ?d =
    Done () (?d\<lparr> db_actions := db_actions ?d @ new_actions (db_next_action ?d) rid t names,
               db_next_action := db_next_action ?d + int (length names) \<rparr>)"
    using Cons.prems by (intro Cons.IH) auto
  ultimately show ?case by (simp add: tx_then_def tx_bind_def)
qed

lemma pending_rows_mem:
  "r \<in> set (pending_rows n rows) \<Longrightarrow> r \<in> set rows \<and> xr_claimed_at r = None"
  unfolding pending_rows_def using set_take_subset by fastforce

lemma stuck_rows_mem:
  "r \<in> set (stuck_rows c m n rows) \<Longrightarrow>
   r \<in> set rows \<and> stuck_before c r \<and> xr_attempts r < m"
  unfolding stuck_rows_def using set_take_subset by fastforce

lemma claim_pending_Done:
  assumes "action_claim_pending (utc t) n d = Done cs d'"
  shows "d' = db_actions_update (update_rows
           (\<lambda>r. xr_action_id r \<in> ids_of (pending_rows n (db_actions d)))
           (\<lambda>r. r\<lparr> xr_claimed_at := Some t \<rparr>)) d"
    and "cs = map claimed_of (pending_rows n (db_actions d))"
proof -
  have "d' = db_actions_update (update_rows
           (\<lambda>r. xr_action_id r \<in> ids_of (pending_rows n (db_actions d)))
           (\<lambda>r. r\<lparr> xr_claimed_at := Some t \<rparr>)) d \<and>
        cs = map claimed_of (pending_rows n (db_actions d))"
  proof (cases "pending_rows n (db_actions d) = []")
    case True
    have "update_rows (\<lambda>r. xr_action_id r \<in> ids_of []) f rows = rows" for f and rows :: "action_row list"
      by (simp add: update_rows_def ids_of_def)
    with True assms show ?thesis
      by (auto simp: action_claim_pending_def tx_then_Done tx_bind_Done tx_guard_Done tx_read_Done
          tx_return_def)
  next
    case False
    with assms show ?thesis
      by (auto simp: action_claim_pending_def tx_then_Done tx_bind_Done tx_guard_Done tx_read_Done
          tx_lift_Done tx_return_def dest: actions_update_Done)
  qed
  then show "d' = db_actions_update (update_rows
           (\<lambda>r. xr_action_id r \<in> ids_of (pending_rows n (db_actions d)))
           (\<lambda>r. r\<lparr> xr_claimed_at := Some t \<rparr>)) d"
    and "cs = map claimed_of (pending_rows n (db_actions d))" by simp_all
qed

lemma reclaim_stuck_Done:
  assumes "action_reclaim_stuck t n th m d = Done cs d'"
  defines "rows \<equiv> stuck_rows (stuck_cutoff t th) m n (db_actions d)"
  shows "d' = db_actions_update (update_rows (\<lambda>r. xr_action_id r \<in> ids_of rows)
           (\<lambda>r. r\<lparr> xr_claimed_at := Some t, xr_attempts := xr_attempts r + 1 \<rparr>)) d"
    and "cs = map (\<lambda>r. (claimed_of r)\<lparr> ca_attempts := xr_attempts r + 1 \<rparr>) rows"
proof -
  have "d' = db_actions_update (update_rows (\<lambda>r. xr_action_id r \<in> ids_of rows)
           (\<lambda>r. r\<lparr> xr_claimed_at := Some t, xr_attempts := xr_attempts r + 1 \<rparr>)) d \<and>
        cs = map (\<lambda>r. (claimed_of r)\<lparr> ca_attempts := xr_attempts r + 1 \<rparr>) rows"
  proof (cases "rows = []")
    case True
    have "update_rows (\<lambda>r. xr_action_id r \<in> ids_of []) f rows = rows" for f and rows :: "action_row list"
      by (simp add: update_rows_def ids_of_def)
    with True assms(1) show ?thesis
      by (auto simp: action_reclaim_stuck_def tx_then_Done tx_bind_Done tx_guard_Done tx_read_Done
          tx_return_def rows_def)
  next
    case False
    with assms(1) show ?thesis
      by (auto simp: action_reclaim_stuck_def tx_then_Done tx_bind_Done tx_guard_Done tx_read_Done
          tx_return_def rows_def dest: actions_update_Done)
  qed
  then show "d' = db_actions_update (update_rows (\<lambda>r. xr_action_id r \<in> ids_of rows)
           (\<lambda>r. r\<lparr> xr_claimed_at := Some t, xr_attempts := xr_attempts r + 1 \<rparr>)) d"
    and "cs = map (\<lambda>r. (claimed_of r)\<lparr> ca_attempts := xr_attempts r + 1 \<rparr>) rows" by simp_all
qed

section \<open>How often an action can be dispatched\<close>

text \<open>
  Any interleaving of the repository's operations, with the log of the action ids handed out to
  dispatchers by \<open>claim_pending\<close> and \<open>reclaim_stuck\<close>.  \<open>m\<close> is
  \<open>max_dispatch_attempts\<close>; the other arguments of the operations are arbitrary.
\<close>

inductive outbox_step :: "int \<Rightarrow> db \<times> int list \<Rightarrow> db \<times> int list \<Rightarrow> bool" for m where
  enqueue: "action_enqueue rid name (utc t) d = Done u d' \<Longrightarrow> outbox_step m (d, log) (d', log)"
| claim: "action_claim_pending (utc t) n d = Done cs d' \<Longrightarrow>
    outbox_step m (d, log) (d', log @ map ca_action_id cs)"
| reclaim: "action_reclaim_stuck t n th m d = Done cs d' \<Longrightarrow>
    outbox_step m (d, log) (d', log @ map ca_action_id cs)"
| complete: "action_mark_completed i (utc t) d = Done u d' \<Longrightarrow> outbox_step m (d, log) (d', log)"
| fail: "action_mark_failed i (utc t) msg d = Done u d' \<Longrightarrow> outbox_step m (d, log) (d', log)"
| abandon: "action_mark_abandoned i (utc t) msg d = Done u d' \<Longrightarrow> outbox_step m (d, log) (d', log)"

inductive_cases outbox_stepE [consumes 1, case_names enqueue claim reclaim complete fail abandon]:
  "outbox_step m (d, log) s"

definition outbox_init :: "db \<times> int list \<Rightarrow> bool" where
  "outbox_init s \<longleftrightarrow> db_actions (fst s) = [] \<and> snd s = []"

text \<open>How often a row may have been handed out, given its columns.\<close>

definition dispatch_credit :: "action_row \<Rightarrow> int" where
  "dispatch_credit r = (if xr_claimed_at r = None then 0 else 1 + xr_attempts r)"

definition outbox_inv :: "int \<Rightarrow> db \<times> int list \<Rightarrow> bool" where
  "outbox_inv m s \<longleftrightarrow>
     distinct (map xr_action_id (db_actions (fst s))) \<and>
     (\<forall>r \<in> set (db_actions (fst s)). xr_action_id r < db_next_action (fst s) \<and> 0 \<le> xr_attempts r \<and>
        int (count_list (snd s) (xr_action_id r)) \<le> dispatch_credit r \<and>
        int (count_list (snd s) (xr_action_id r)) \<le> 1 + max 0 m) \<and>
     (\<forall>i \<in> set (snd s). i \<in> ids_of (db_actions (fst s)))"

lemma count_distinct: "distinct xs \<Longrightarrow> count_list xs x = (if x \<in> set xs then 1 else 0)"
  by (induction xs) auto

lemma in_ids_iff:
  "distinct (map xr_action_id rows) \<Longrightarrow> set sel \<subseteq> set rows \<Longrightarrow> r \<in> set rows \<Longrightarrow>
   xr_action_id r \<in> ids_of sel \<longleftrightarrow> r \<in> set sel"
  by (auto simp: ids_of_def distinct_map inj_on_def)

text \<open>Changing rows without touching the log.\<close>

lemma outbox_inv_update:
  assumes "outbox_inv m (d, log)"
    and "\<And>r. xr_action_id (f r) = xr_action_id r \<and> 0 \<le> xr_attempts (f r) - xr_attempts r \<and>
          xr_claimed_at (f r) = xr_claimed_at r"
  shows "outbox_inv m (db_actions_update (update_rows P f) d, log)"
proof -
  have keys: "map xr_action_id (update_rows P f (db_actions d)) = map xr_action_id (db_actions d)"
    using assms(2) by (simp add: map_key_update_rows)
  then have ids: "ids_of (update_rows P f (db_actions d)) = ids_of (db_actions d)"
    by (metis ids_of_def set_map)
  have mono: "dispatch_credit r \<le> dispatch_credit (f r)" "xr_attempts r \<le> xr_attempts (f r)" for r
    using assms(2) [of r] by (simp_all add: dispatch_credit_def)
  have "xr_action_id r < db_next_action d \<and> 0 \<le> xr_attempts r \<and>
      int (count_list log (xr_action_id r)) \<le> dispatch_credit r \<and>
      int (count_list log (xr_action_id r)) \<le> 1 + max 0 m"
    if "r \<in> set (update_rows P f (db_actions d))" for r
  proof -
    from set_update_rows [OF that] obtain r0 where r0: "r0 \<in> set (db_actions d)"
      and r: "r = (if P r0 then f r0 else r0)" by blast
    have "xr_action_id r0 < db_next_action d" "0 \<le> xr_attempts r0"
      "int (count_list log (xr_action_id r0)) \<le> dispatch_credit r0"
      "int (count_list log (xr_action_id r0)) \<le> 1 + max 0 m"
      using assms(1) r0 by (auto simp: outbox_inv_def)
    with mono [of r0] assms(2) [of r0] show ?thesis by (auto simp: r)
  qed
  then show ?thesis using assms(1) keys ids by (simp add: outbox_inv_def)
qed

text \<open>Handing out a selection of rows and changing exactly these.\<close>

lemma outbox_inv_dispatch:
  assumes inv: "outbox_inv m (d, log)" and sel: "set sel \<subseteq> set (db_actions d)" "distinct (map xr_action_id sel)"
    and f: "\<And>r. xr_action_id (f r) = xr_action_id r"
    and credit: "\<And>r. r \<in> set sel \<Longrightarrow> 1 + dispatch_credit r \<le> dispatch_credit (f r) \<and>
          dispatch_credit r \<le> max 0 m \<and> 0 \<le> xr_attempts (f r)"
  shows "outbox_inv m (db_actions_update (update_rows (\<lambda>r. xr_action_id r \<in> ids_of sel) f) d,
    log @ map xr_action_id sel)"
proof -
  let ?rows = "update_rows (\<lambda>r. xr_action_id r \<in> ids_of sel) f (db_actions d)"
  have dist: "distinct (map xr_action_id (db_actions d))" using inv by (simp add: outbox_inv_def)
  have keys: "map xr_action_id ?rows = map xr_action_id (db_actions d)"
    using f by (simp add: map_key_update_rows)
  then have ids: "ids_of ?rows = ids_of (db_actions d)" by (metis ids_of_def set_map)
  have row: "xr_action_id r < db_next_action d \<and> 0 \<le> xr_attempts r \<and>
      int (count_list (log @ map xr_action_id sel) (xr_action_id r)) \<le> dispatch_credit r \<and>
      int (count_list (log @ map xr_action_id sel) (xr_action_id r)) \<le> 1 + max 0 m"
    if "r \<in> set ?rows" for r
  proof -
    from set_update_rows [OF that] obtain r0 where r0: "r0 \<in> set (db_actions d)"
      and r: "r = (if xr_action_id r0 \<in> ids_of sel then f r0 else r0)" by blast
    have old: "xr_action_id r0 < db_next_action d" "0 \<le> xr_attempts r0"
      "int (count_list log (xr_action_id r0)) \<le> dispatch_credit r0"
      "int (count_list log (xr_action_id r0)) \<le> 1 + max 0 m"
      using inv r0 by (auto simp: outbox_inv_def)
    have mem: "xr_action_id r0 \<in> ids_of sel \<longleftrightarrow> r0 \<in> set sel" by (rule in_ids_iff [OF dist sel(1) r0])
    have count: "count_list (log @ map xr_action_id sel) (xr_action_id r0) =
        count_list log (xr_action_id r0) + (if r0 \<in> set sel then 1 else 0)"
      using count_distinct [OF sel(2)] mem by (simp add: ids_of_def)
    show ?thesis
    proof (cases "r0 \<in> set sel")
      case True
      with credit [OF True] old count mem show ?thesis by (simp add: r f)
    next
      case False
      with old count mem show ?thesis by (simp add: r)
    qed
  qed
  have "i \<in> ids_of ?rows" if "i \<in> set (log @ map xr_action_id sel)" for i
    using that inv sel(1) unfolding ids by (auto simp: outbox_inv_def ids_of_def)
  with row show ?thesis using dist keys unfolding outbox_inv_def by simp
qed

lemma map_id_claimed: "map ca_action_id (map claimed_of rows) = map xr_action_id rows"
  "map ca_action_id (map (\<lambda>r. (claimed_of r)\<lparr> ca_attempts := a r \<rparr>) rows) = map xr_action_id rows"
  by (simp_all add: claimed_of_def comp_def)

lemma distinct_pending:
  "distinct (map xr_action_id rows) \<Longrightarrow> distinct (map xr_action_id (pending_rows n rows))"
  unfolding pending_rows_def
  by (intro distinct_map_take distinct_map_sort_key distinct_map_filter_key)

lemma distinct_stuck:
  "distinct (map xr_action_id rows) \<Longrightarrow> distinct (map xr_action_id (stuck_rows c m n rows))"
  unfolding stuck_rows_def
  by (intro distinct_map_take distinct_map_sort_key distinct_map_filter_key)

lemma outbox_inv_enqueue:
  assumes inv: "outbox_inv m (d, log)" and enq: "action_enqueue rid name (utc t) d = Done u d'"
  shows "outbox_inv m (d', log)"
proof -
  have d': "d' = d\<lparr> db_actions := db_actions d @ [new_action (db_next_action d) rid name t],
               db_next_action := db_next_action d + 1 \<rparr>"
    using enq by (auto simp: action_enqueue_def tx_bind_Done tx_lift_Done tx_read_Done tx_write_def
        Let_def new_action_def split: if_splits)
  have fresh: "db_next_action d \<notin> ids_of (db_actions d)"
    using inv by (auto simp: outbox_inv_def ids_of_def)
  then have "count_list log (db_next_action d) = 0"
    using inv by (auto simp: outbox_inv_def count_list_0_iff)
  with inv fresh show ?thesis
    unfolding d' by (force simp: outbox_inv_def ids_of_def new_action_def dispatch_credit_def)
qed

interpretation outbox: inductive_invariant outbox_init "outbox_step m" "outbox_inv m" for m
proof
  show "outbox_init s \<Longrightarrow> outbox_inv m s" for s
    by (simp add: outbox_init_def outbox_inv_def)
  fix s t assume inv: "outbox_inv m s" and step: "outbox_step m s t"
  obtain d log where s: "s = (d, log)" by (cases s)
  note inv = inv [unfolded s]
  have dist: "distinct (map xr_action_id (db_actions d))" using inv by (simp add: outbox_inv_def)
  have upd: "actions_update P f d = Done u d' \<Longrightarrow>
      (\<And>r. xr_action_id (f r) = xr_action_id r \<and> 0 \<le> xr_attempts (f r) - xr_attempts r \<and>
          xr_claimed_at (f r) = xr_claimed_at r) \<Longrightarrow> outbox_inv m (d', log)" for P f u d'
    using outbox_inv_update [OF inv, of f P] by (auto dest: actions_update_Done)
  show "outbox_inv m t"
    using step unfolding s
  proof (cases rule: outbox_stepE)
    case (enqueue rid name tm d')
    then show ?thesis using outbox_inv_enqueue [OF inv] by blast
  next
    case (claim tm n cs d')
    note eff = claim_pending_Done [OF claim(2)]
    have "outbox_inv m (d', log @ map xr_action_id (pending_rows n (db_actions d)))"
      unfolding eff(1)
      using pending_rows_mem [of _ n "db_actions d"] inv distinct_pending [OF dist]
      by (intro outbox_inv_dispatch) (auto simp: dispatch_credit_def outbox_inv_def)
    then show ?thesis unfolding claim(1) eff(2) map_id_claimed .
  next
    case (reclaim tm n th cs d')
    note eff = reclaim_stuck_Done [OF reclaim(2)]
    have "outbox_inv m (d', log @ map xr_action_id
        (stuck_rows (stuck_cutoff tm th) m n (db_actions d)))"
      unfolding eff(1)
      using inv distinct_stuck [OF dist]
      by (intro outbox_inv_dispatch) (force simp: dispatch_credit_def outbox_inv_def stuck_before_def
          dest!: stuck_rows_mem split: option.splits)+
    then show ?thesis unfolding reclaim(1) eff(2) map_id_claimed .
  next
    case (complete i tm d')
    then show ?thesis
      by (auto simp: action_mark_completed_def tx_bind_Done tx_lift_Done intro: upd)
  next
    case (fail i tm msg d')
    then show ?thesis
      by (auto simp: action_mark_failed_def tx_bind_Done tx_lift_Done intro: upd)
  next
    case (abandon i tm msg d')
    then show ?thesis
      by (auto simp: action_mark_abandoned_def tx_bind_Done tx_lift_Done intro: upd)
  qed
qed

section \<open>Properties\<close>



end
