(* ===== verification/Sweeper.thy ===== *)
theory Sweeper
  imports Submit_Stage Repo_Action
begin

text \<open>
  \<open>SweeperUseCase\<close>.  \<open>sweep_tx\<close> is the transaction that orphans one run
  (\<open>_transition_audit_and_enqueue\<close>), \<open>sweeper_tick\<close> a whole tick: the query for expired
  runs, then one transaction per candidate.  The k-th clock reading of a tick is \<open>clock k\<close>.
  A tick is modelled without other tasks between its transactions; theory System interleaves
  the single transactions.
\<close>

section \<open>Configuration\<close>

record sweeper =
  sw_timeout_seconds :: int
  sw_actions :: "action_name list"
  sw_overrides :: "string \<rightharpoonup> action_name list"
  sw_max_candidates :: int

text \<open>The constructor; \<open>overrides\<close> is the dict in its order.\<close>

definition sweeper_init ::
  "int \<Rightarrow> action_name list \<Rightarrow> action_name set \<Rightarrow> (string \<times> action_name list) list \<Rightarrow> int
    \<Rightarrow> exn + sweeper" where
  "sweeper_init timeout actions handlers overrides max_candidates =
     check (max_candidates < 1) value_error
     (let missing = sorted_of {a \<in> set (actions @ concat (map snd overrides)). a \<notin> handlers}
      in check (missing \<noteq> [])
           (err ConfigurationError [(''missing_actions'', JStrs missing),
              (''registered_actions'', JStrs (sorted_of handlers))])
         (Inr \<lparr> sw_timeout_seconds = timeout, sw_actions = actions,
                sw_overrides = map_of overrides, sw_max_candidates = max_candidates \<rparr>))"

definition resolve_disposition_actions :: "sweeper \<Rightarrow> string \<Rightarrow> action_name list" where
  "resolve_disposition_actions cfg pipeline =
     (case sw_overrides cfg pipeline of Some acts \<Rightarrow> acts | None \<Rightarrow> sw_actions cfg)"

section \<open>Orphaning one run\<close>

definition sweep_event :: "run \<Rightarrow> action_name list \<Rightarrow> stage_id list \<Rightarrow> int \<Rightarrow> audit_event" where
  "sweep_event r actions pending now =
     \<lparr> ae_timestamp = utc now, ae_action = SWEEP_ORPHAN, ae_actor = ''system:sweeper'',
       ae_resource = ''run:'' @ run_run_id r, ae_outcome = SUCCESS,
       ae_details =
         [(''run_id'', JStr (run_run_id r)), (''prior_state'', JStr (run_state_value (run_state r))),
          (''new_state'', JStr (run_state_value ORPHANED)),
          (''last_transition_at'', JStr (isoformat_text (dt_us (run_updated_at r)))),
          (''enqueued_actions'', JStrs actions),
          (''pending_stage_ids'', JStrs (sort pending))],
       ae_audit_id = None \<rparr>"

text \<open>
  The result is \<open>None\<close> when the run is gone or terminal, else the number of enqueued actions
  and the run's duration in microseconds.
\<close>

definition sweep_tx :: "sweeper \<Rightarrow> run_id \<Rightarrow> int \<Rightarrow> (nat \<times> int) option tx" where
  "sweep_tx cfg rid now =
     tx_try (run_get rid)
       (\<lambda>e. if exn_is e RunNotFoundError then tx_return None else tx_raise e)
       (\<lambda>r. case run_transition (run_state r) ORPHANED rid of
          Inl e \<Rightarrow> tx_return None
        | Inr next_state \<Rightarrow>
            (let actions = resolve_disposition_actions cfg (run_pipeline_type r) in
             tx_then (run_update_state rid next_state (utc now))
             (tx_bind (stage_list_pending_by_run rid) (\<lambda>pending.
              tx_bind (tx_lift (audit_event_post_init (sweep_event r actions pending now))) (\<lambda>ev.
              tx_then (audit_record ev)
              (tx_then (tx_iter (\<lambda>name. action_enqueue rid name (utc now)) actions)
              (tx_return (Some (length actions, now - dt_us (run_created_at r))))))))))"

section \<open>A tick\<close>

fun sweep_candidates ::
  "sweeper \<Rightarrow> (nat \<Rightarrow> int) \<Rightarrow> nat \<Rightarrow> run list \<Rightarrow> nat \<times> nat \<Rightarrow> world \<Rightarrow> (exn + nat \<times> nat) \<times> world" where
  "sweep_candidates cfg clock k [] counts w = (Inr counts, w)"
| "sweep_candidates cfg clock k (c # cs) (orphaned, enqueued) w =
     (case in_uow (sweep_tx cfg (run_run_id c) (clock k)) w of
        (Inl e, w') \<Rightarrow> (Inl e, w')
      | (Inr None, w') \<Rightarrow> sweep_candidates cfg clock (Suc k) cs (orphaned, enqueued) w'
      | (Inr (Some (n, dur)), w') \<Rightarrow>
          sweep_candidates cfg clock (Suc k) cs (orphaned + 1, enqueued + n)
            (record_metrics [MRun ORPHANED, MDuration dur] w'))"

definition sweeper_tick :: "sweeper \<Rightarrow> (nat \<Rightarrow> int) \<Rightarrow> world \<Rightarrow> (exn + nat \<times> nat) \<times> world" where
  "sweeper_tick cfg clock w =
     (let cutoff = clock 0 - sw_timeout_seconds cfg * us_per_second in
      case in_uow (run_list_expired (utc cutoff) run_non_terminal (sw_max_candidates cfg)) w of
        (Inl e, w') \<Rightarrow> (Inl e, w')
      | (Inr candidates, w') \<Rightarrow> sweep_candidates cfg clock 1 candidates (0, 0) w')"

section \<open>What orphaning stores\<close>

definition pending_ids :: "run_id \<Rightarrow> db \<Rightarrow> stage_id list" where
  "pending_ids rid d = map sr_stage_id
     (filter (\<lambda>r. sr_run_id r = rid \<and> sr_state r = stage_state_value PENDING) (db_stages d))"

definition sweep_effect :: "sweeper \<Rightarrow> run \<Rightarrow> int \<Rightarrow> db \<Rightarrow> db" where
  "sweep_effect cfg r now d =
     (let actions = resolve_disposition_actions cfg (run_pipeline_type r);
          d1 = db_runs_update (update_rows (\<lambda>x. rr_run_id x = run_run_id r)
                 (set_run_state ORPHANED now)) d;
          d2 = add_audit (sweep_event r actions (pending_ids (run_run_id r) d) now) d1
      in d2\<lparr> db_actions := db_actions d @ new_actions (db_next_action d) (run_run_id r) now actions,
             db_next_action := db_next_action d + int (length actions) \<rparr>)"

definition actions_permitted :: "sweeper \<Rightarrow> bool" where
  "actions_permitted cfg \<longleftrightarrow> set (sw_actions cfg) \<subseteq> permitted_actions \<and>
     (\<forall>p acts. sw_overrides cfg p = Some acts \<longrightarrow> set acts \<subseteq> permitted_actions)"

lemma resolved_permitted:
  "actions_permitted cfg \<Longrightarrow> set (resolve_disposition_actions cfg p) \<subseteq> permitted_actions"
  by (auto simp: actions_permitted_def resolve_disposition_actions_def split: option.splits)

lemma sweep_tx_orphans:
  assumes get: "run_get rid d = Done r d" and live: "run_state r \<notin> run_terminal"
    and cfg: "actions_permitted cfg"
  shows "sweep_tx cfg rid now d = Done (Some (length (resolve_disposition_actions cfg
      (run_pipeline_type r)), now - dt_us (run_created_at r))) (sweep_effect cfg r now d)"
proof -
  let ?acts = "resolve_disposition_actions cfg (run_pipeline_type r)"
  have id: "run_run_id r = rid" using get by (rule run_get_id)
  obtain row where row: "find_row rr_run_id rid (db_runs d) = Some row"
    using get by (auto simp: run_get_Done)
  let ?d1 = "db_runs_update (update_rows (\<lambda>x. rr_run_id x = rid) (set_run_state ORPHANED now)) d"
  let ?ev = "sweep_event r ?acts (pending_ids rid d) now"
  have trans: "run_transition (run_state r) ORPHANED rid = Inr ORPHANED"
    using live by (simp add: run_transition_Inr run_can_transition_iff)
  have upd: "run_update_state rid ORPHANED (utc now) d = Done () ?d1"
    by (rule run_update_state_run [OF row])
  have pend: "stage_list_pending_by_run rid ?d1 = Done (pending_ids rid d) ?d1"
    by (simp add: stage_list_pending_by_run_def tx_read_def pending_ids_def)
  have ev: "audit_event_post_init ?ev = Inr ?ev" and aware: "dt_aware (ae_timestamp ?ev)"
    by (simp_all add: audit_event_post_init_Inr audit_event_ok_def sweep_event_def)
  have ids: "rr_run_id ` set (db_runs (add_audit ?ev ?d1)) = rr_run_id ` set (db_runs d)"
    using map_key_update_rows [of rr_run_id "set_run_state ORPHANED now" "\<lambda>x. rr_run_id x = rid"
        "db_runs d"]
    by (simp add: set_run_state_def flip: set_map)
  have "rid \<in> rr_run_id ` set (db_runs (add_audit ?ev ?d1))"
    unfolding ids using find_row_Some [OF row] by force
  then have enq: "tx_iter (\<lambda>name. action_enqueue rid name (utc now)) ?acts (add_audit ?ev ?d1) =
      Done () (sweep_effect cfg r now d)"
    using enqueue_all [OF _ resolved_permitted [OF cfg]]
    by (simp add: sweep_effect_def Let_def id add_audit_def)
  show ?thesis
    by (simp add: sweep_tx_def tx_try_def get trans Let_def tx_then_def tx_bind_def upd pend
        tx_lift_def tx_read_def ev audit_record_event [OF aware] enq tx_return_def)
qed

lemma sweep_tx_terminal:
  assumes "run_get rid d = Done r d" and "run_state r \<in> run_terminal"
  shows "sweep_tx cfg rid now d = Done None d"
  using assms
  by (simp add: sweep_tx_def tx_try_def run_transition_def run_can_transition_iff tx_return_def)

lemma sweep_tx_missing:
  "find_row rr_run_id rid (db_runs d) = None \<Longrightarrow> sweep_tx cfg rid now d = Done None d"
  by (simp add: sweep_tx_def tx_try_def run_get_missing tx_return_def)

lemma sweep_effect_rows:
  "find_row rr_run_id k (db_runs (sweep_effect cfg r now d)) =
     (if k = run_run_id r then map_option (set_run_state ORPHANED now) (find_row rr_run_id k (db_runs d))
      else find_row rr_run_id k (db_runs d))"
  by (simp add: sweep_effect_def Let_def find_row_update_rows set_run_state_def)

lemma sweep_effect_frame [frame]:
  "db_stages (sweep_effect cfg r now d) = db_stages d"
  "length (db_audit (sweep_effect cfg r now d)) = Suc (length (db_audit d))"
  "length (db_actions (sweep_effect cfg r now d)) =
     length (db_actions d) + length (resolve_disposition_actions cfg (run_pipeline_type r))"
  by (simp_all add: sweep_effect_def Let_def) (simp add: add_audit_def)

section \<open>What a tick does\<close>

text \<open>The expired runs a tick finds.\<close>

definition expired_rows :: "sweeper \<Rightarrow> int \<Rightarrow> db \<Rightarrow> run_row list" where
  "expired_rows cfg now d = take (nat (sw_max_candidates cfg)) (sort_key rr_updated_at
     (filter (\<lambda>r. rr_updated_at r \<le> now - sw_timeout_seconds cfg * us_per_second \<and>
        rr_state r \<in> run_state_value ` run_non_terminal) (db_runs d)))"

lemma expired_rows_mem:
  "row \<in> set (expired_rows cfg now d) \<Longrightarrow> row \<in> set (db_runs d) \<and>
     rr_updated_at row \<le> now - sw_timeout_seconds cfg * us_per_second \<and>
     rr_state row \<in> run_state_value ` run_non_terminal"
  unfolding expired_rows_def using set_take_subset by fastforce

lemma run_list_expired_wf:
  assumes "runs_wf d" and "1 \<le> sw_max_candidates cfg"
  obtains cands where
    "run_list_expired (utc (now - sw_timeout_seconds cfg * us_per_second)) run_non_terminal
       (sw_max_candidates cfg) d = Done cands d"
    "list_all2 (\<lambda>row r. row_to_run row = Inr r) (expired_rows cfg now d) cands"
proof -
  have "\<exists>cands. map_res row_to_run (expired_rows cfg now d) = Inr cands"
  proof (cases "map_res row_to_run (expired_rows cfg now d)")
    case (Inl e)
    then obtain row where "row \<in> set (expired_rows cfg now d)" "row_to_run row = Inl e"
      by (auto dest: map_res_Inl)
    with assms(1) show ?thesis by (auto simp: runs_wf_def dest!: expired_rows_mem)
  qed simp
  then obtain cands where cands: "map_res row_to_run (expired_rows cfg now d) = Inr cands" ..
  have "run_non_terminal \<noteq> {}" by (simp add: run_non_terminal_def run_states_def run_terminal_def)
  then have "run_list_expired (utc (now - sw_timeout_seconds cfg * us_per_second)) run_non_terminal
       (sw_max_candidates cfg) d = Done cands d"
    using cands assms(2)
    by (simp add: run_list_expired_def tx_read_def check_def expired_rows_def)
  with map_res_Inr [OF cands] that show thesis by blast
qed

lemma non_terminal_iff: "s \<in> run_non_terminal \<longleftrightarrow> s \<notin> run_terminal"
  by (cases s) (simp_all add: run_non_terminal_def run_states_def)

lemma sweep_candidates_all:
  assumes "actions_permitted cfg" and "distinct (map run_run_id cands)"
    and "\<forall>c \<in> set cands. run_state c \<notin> run_terminal \<and>
           (\<exists>row. find_row rr_run_id (run_run_id c) (db_runs (w_db w)) = Some row \<and> row_to_run row = Inr c)"
    and "\<forall>c \<in> set cands. \<forall>j. dt_us (run_created_at c) \<le> clock j"
  shows "\<exists>w'. sweep_candidates cfg clock k cands (o0, e0) w =
      (Inr (o0 + length cands, e0 + sum_list (map (\<lambda>c. length (resolve_disposition_actions cfg
         (run_pipeline_type c))) cands)), w') \<and>
    (\<forall>c \<in> set cands. \<exists>t. run_get (run_run_id c) (w_db w') =
         Done (c\<lparr> run_state := ORPHANED, run_updated_at := utc t \<rparr>) (w_db w')) \<and>
    (\<forall>i. i \<notin> run_run_id ` set cands \<longrightarrow>
       find_row rr_run_id i (db_runs (w_db w')) = find_row rr_run_id i (db_runs (w_db w))) \<and>
    length (db_audit (w_db w')) = length (db_audit (w_db w)) + length cands \<and>
    db_stages (w_db w') = db_stages (w_db w)"
  using assms(2-4)
proof (induction cands arbitrary: k o0 e0 w)
  case Nil
  then show ?case by simp
next
  case (Cons c cs)
  obtain row where row: "find_row rr_run_id (run_run_id c) (db_runs (w_db w)) = Some row"
    "row_to_run row = Inr c" and live: "run_state c \<notin> run_terminal"
    using Cons.prems(2) by auto
  have get: "run_get (run_run_id c) (w_db w) = Done c (w_db w)" using row by (simp add: run_get_Done)
  define d1 where "d1 = sweep_effect cfg c (clock k) (w_db w)"
  define w1 where "w1 = record_metrics [MRun ORPHANED, MDuration (clock k - dt_us (run_created_at c))]
    (w\<lparr> w_db := d1 \<rparr>)"
  have w1: "w_db w1 = d1" by (simp add: w1_def record_metrics_def)
  let ?n = "length (resolve_disposition_actions cfg (run_pipeline_type c))"
  have tx: "sweep_tx cfg (run_run_id c) (clock k) (w_db w) =
      Done (Some (?n, clock k - dt_us (run_created_at c))) d1"
    unfolding d1_def by (rule sweep_tx_orphans [OF get live assms(1)])
  have step: "sweep_candidates cfg clock k (c # cs) (o0, e0) w =
      sweep_candidates cfg clock (Suc k) cs (o0 + 1, e0 + ?n) w1"
    using in_uow_Done [where body = "sweep_tx cfg (run_run_id c) (clock k)", OF tx]
    by (simp add: w1_def)
  have other: "find_row rr_run_id i (db_runs d1) = find_row rr_run_id i (db_runs (w_db w))"
    if "i \<noteq> run_run_id c" for i
    using that by (simp add: d1_def sweep_effect_rows)
  have prems: "distinct (map run_run_id cs)"
    "\<forall>x \<in> set cs. run_state x \<notin> run_terminal \<and>
       (\<exists>row. find_row rr_run_id (run_run_id x) (db_runs (w_db w1)) = Some row \<and> row_to_run row = Inr x)"
    "\<forall>x \<in> set cs. \<forall>j. dt_us (run_created_at x) \<le> clock j"
  proof -
    show "distinct (map run_run_id cs)" using Cons.prems(1) by simp
    show "\<forall>x \<in> set cs. \<forall>j. dt_us (run_created_at x) \<le> clock j" using Cons.prems(3) by simp
    have "run_run_id x \<noteq> run_run_id c" if "x \<in> set cs" for x
      using that Cons.prems(1) by (metis distinct.simps(2) image_eqI list.simps(9) list.set_map)
    then show "\<forall>x \<in> set cs. run_state x \<notin> run_terminal \<and>
       (\<exists>row. find_row rr_run_id (run_run_id x) (db_runs (w_db w1)) = Some row \<and> row_to_run row = Inr x)"
      using Cons.prems(2) other by (auto simp: w1)
  qed
  obtain w' where IH: "sweep_candidates cfg clock (Suc k) cs (o0 + 1, e0 + ?n) w1 =
      (Inr (o0 + 1 + length cs, e0 + ?n + sum_list (map (\<lambda>c. length (resolve_disposition_actions cfg
         (run_pipeline_type c))) cs)), w')"
    and ones: "\<forall>c \<in> set cs. \<exists>t. run_get (run_run_id c) (w_db w') =
         Done (c\<lparr> run_state := ORPHANED, run_updated_at := utc t \<rparr>) (w_db w')"
    and rest: "\<forall>i. i \<notin> run_run_id ` set cs \<longrightarrow>
       find_row rr_run_id i (db_runs (w_db w')) = find_row rr_run_id i (db_runs (w_db w1))"
    and len: "length (db_audit (w_db w')) = length (db_audit (w_db w1)) + length cs"
    and stages: "db_stages (w_db w') = db_stages (w_db w1)"
    using Cons.IH [OF prems, of "Suc k" "o0 + 1" "e0 + ?n"] by blast
  have "run_run_id c \<notin> run_run_id ` set cs" using Cons.prems(1) by simp
  then have "find_row rr_run_id (run_run_id c) (db_runs (w_db w')) = Some (set_run_state ORPHANED (clock k) row)"
    using rest row by (simp add: w1 d1_def sweep_effect_rows)
  moreover have "rr_created_at row \<le> clock k"
    using Cons.prems(3) row_to_run_Inr(4) [OF row(2)] by simp
  ultimately have first: "run_get (run_run_id c) (w_db w') =
      Done (c\<lparr> run_state := ORPHANED, run_updated_at := utc (clock k) \<rparr>) (w_db w')"
    using row_to_run_set_state [OF row(2), of ORPHANED "clock k"] by (simp add: run_get_Done)
  show ?case
  proof (intro exI [of _ w'] conjI)
    show "\<forall>x \<in> set (c # cs). \<exists>t. run_get (run_run_id x) (w_db w') =
         Done (x\<lparr> run_state := ORPHANED, run_updated_at := utc t \<rparr>) (w_db w')"
      using first ones by auto
    show "\<forall>i. i \<notin> run_run_id ` set (c # cs) \<longrightarrow>
       find_row rr_run_id i (db_runs (w_db w')) = find_row rr_run_id i (db_runs (w_db w))"
      using rest other by (auto simp: w1)
    show "length (db_audit (w_db w')) = length (db_audit (w_db w)) + length (c # cs)"
      using len by (simp add: w1 d1_def sweep_effect_frame)
    show "db_stages (w_db w') = db_stages (w_db w)"
      using stages by (simp add: w1 d1_def sweep_effect_frame)
  qed (use step IH in simp)
qed

section \<open>Properties\<close>

text \<open>
  C13: a tick on a well-formed run table orphans exactly the expired runs it finds: the oldest
  runs (at most \<open>max_candidates\<close>) in a non-terminal state that have not changed for the
  timeout.  Each ends in ORPHANED with one audit event, no other run and no stage changes, and
  the tick reports their number.
\<close>

theorem sweeper_tick_result:
  assumes wf: "runs_wf (w_db w)" and cfg: "actions_permitted cfg" "1 \<le> sw_max_candidates cfg"
    and clock: "\<forall>row \<in> set (db_runs (w_db w)). \<forall>j. rr_created_at row \<le> clock j"
  shows "\<exists>w' n. sweeper_tick cfg clock w =
      (Inr (length (expired_rows cfg (clock 0) (w_db w)), n), w') \<and>
    (\<forall>row \<in> set (expired_rows cfg (clock 0) (w_db w)). \<exists>r. run_get (rr_run_id row) (w_db w') = Done r (w_db w') \<and>
       run_state r = ORPHANED) \<and>
    (\<forall>i. i \<notin> rr_run_id ` set (expired_rows cfg (clock 0) (w_db w)) \<longrightarrow>
       find_row rr_run_id i (db_runs (w_db w')) = find_row rr_run_id i (db_runs (w_db w))) \<and>
    length (db_audit (w_db w')) = length (db_audit (w_db w)) + length (expired_rows cfg (clock 0) (w_db w)) \<and>
    db_stages (w_db w') = db_stages (w_db w)"
proof -
  let ?rows = "expired_rows cfg (clock 0) (w_db w)"
  obtain cands where list: "run_list_expired (utc (clock 0 - sw_timeout_seconds cfg * us_per_second))
      run_non_terminal (sw_max_candidates cfg) (w_db w) = Done cands (w_db w)"
    and all2: "list_all2 (\<lambda>row r. row_to_run row = Inr r) ?rows cands"
    using run_list_expired_wf [OF wf cfg(2)] by blast
  have len: "length cands = length ?rows" using all2 by (simp add: list_all2_lengthD)
  have keys: "distinct (map rr_run_id (db_runs (w_db w)))"
    using wf by (simp add: runs_wf_def runs.unique_keys_def)
  have ids: "map run_run_id cands = map rr_run_id ?rows"
    using all2 by (induction rule: list_all2_induct) (simp_all add: row_to_run_Inr(1))
  have dist: "distinct (map run_run_id cands)"
    unfolding ids expired_rows_def using keys
    by (intro distinct_map_take distinct_map_sort_key distinct_map_filter_key)
  have paired: "\<exists>row \<in> set ?rows. row_to_run row = Inr c" if "c \<in> set cands" for c
    using all2 that by (induction rule: list_all2_induct) auto
  have each: "run_state c \<notin> run_terminal \<and> (\<forall>j. dt_us (run_created_at c) \<le> clock j) \<and>
      (\<exists>row. find_row rr_run_id (run_run_id c) (db_runs (w_db w)) = Some row \<and> row_to_run row = Inr c)"
    if c: "c \<in> set cands" for c
  proof -
    obtain row where row: "row \<in> set ?rows" "row_to_run row = Inr c" using paired [OF c] by blast
    note mem = expired_rows_mem [OF row(1)] and facts = row_to_run_Inr [OF row(2)]
    have "find_row rr_run_id (run_run_id c) (db_runs (w_db w)) = Some row"
      using find_row_distinct [OF keys, of row] mem facts(1) by simp
    moreover have "run_state c \<notin> run_terminal"
    proof -
      obtain s where "rr_state row = run_state_value s" "s \<in> run_non_terminal" using mem by blast
      then have "run_state c = s" using facts(3) run_state_enum.value_inject by simp
      then show ?thesis using \<open>s \<in> run_non_terminal\<close> non_terminal_iff by simp
    qed
    ultimately show ?thesis using clock mem facts(4) row(2) by simp
  qed
  obtain w' where sweep: "sweep_candidates cfg clock 1 cands (0, 0) w =
      (Inr (0 + length cands, 0 + sum_list (map (\<lambda>c. length (resolve_disposition_actions cfg
         (run_pipeline_type c))) cands)), w')"
    and ones: "\<forall>c \<in> set cands. \<exists>t. run_get (run_run_id c) (w_db w') =
         Done (c\<lparr> run_state := ORPHANED, run_updated_at := utc t \<rparr>) (w_db w')"
    and rest: "\<forall>i. i \<notin> run_run_id ` set cands \<longrightarrow>
       find_row rr_run_id i (db_runs (w_db w')) = find_row rr_run_id i (db_runs (w_db w))"
    and counts: "length (db_audit (w_db w')) = length (db_audit (w_db w)) + length cands"
      "db_stages (w_db w') = db_stages (w_db w)"
    using sweep_candidates_all [OF cfg(1) dist, of w clock 1 0 0] each by blast
  have idset: "run_run_id ` set cands = rr_run_id ` set ?rows"
    using ids by (metis list.set_map)
  have tick: "sweeper_tick cfg clock w = sweep_candidates cfg clock 1 cands (0, 0) w"
    using list by (simp add: sweeper_tick_def Let_def in_uow_def uow_def)
  have orphaned: "\<exists>r. run_get (rr_run_id row) (w_db w') = Done r (w_db w') \<and> run_state r = ORPHANED"
    if row: "row \<in> set ?rows" for row
  proof -
    have "rr_run_id row \<in> run_run_id ` set cands" unfolding idset using row by (rule imageI)
    then obtain c where c: "c \<in> set cands" "rr_run_id row = run_run_id c" by (rule imageE) blast
    then obtain t where "run_get (run_run_id c) (w_db w') =
         Done (c\<lparr> run_state := ORPHANED, run_updated_at := utc t \<rparr>) (w_db w')" using ones by blast
    then show ?thesis unfolding c(2) by simp
  qed
  show ?thesis
  proof (rule exI [of _ w'], rule exI, intro conjI)
    show "sweeper_tick cfg clock w = (Inr (length ?rows, sum_list (map (\<lambda>c. length
        (resolve_disposition_actions cfg (run_pipeline_type c))) cands)), w')"
      using tick sweep len by simp
    show "\<forall>i. i \<notin> rr_run_id ` set ?rows \<longrightarrow>
        find_row rr_run_id i (db_runs (w_db w')) = find_row rr_run_id i (db_runs (w_db w))"
      using rest unfolding idset .
    show "length (db_audit (w_db w')) = length (db_audit (w_db w)) + length ?rows"
      using counts(1) len by simp
  qed (use orphaned counts(2) in blast)+
qed

definition sample_sweeper :: sweeper where
  "sample_sweeper = \<lparr> sw_timeout_seconds = 1, sw_actions = [''NOTIFY_ADMINS''],
     sw_overrides = Map.empty, sw_max_candidates = 10 \<rparr>"

lemma sample_runs_wf: "runs_wf sample_db"
  using sample_run_get by (auto simp: runs_wf_def runs.unique_keys_def sample_db_def run_get_Done
      split: if_splits)

theorem sweeper_tick_result_witness:
  "\<exists>w' n. sweeper_tick sample_sweeper (\<lambda>_. 1000005) sample_world = (Inr (1, n), w') \<and>
     (\<exists>r. run_get sample_rid (w_db w') = Done r (w_db w') \<and> run_state r = ORPHANED)"
proof -
  have "run_state_value INITIATED \<in> run_state_value ` run_non_terminal"
    by (rule imageI) (simp add: non_terminal_iff run_terminal_def)
  then have rows: "expired_rows sample_sweeper 1000005 sample_db = [sample_run_row]"
    by (simp add: expired_rows_def sample_sweeper_def us_per_second_def sample_db_def
        sample_run_row_def)
  have "sample_run_row \<in> set (db_runs sample_db)" by (simp add: sample_db_def)
  have world: "w_db sample_world = sample_db" by (simp add: sample_world_def)
  have "\<forall>row \<in> set (db_runs (w_db sample_world)). \<forall>j. rr_created_at row \<le> (\<lambda>_. 1000005) (j :: nat)"
    by (simp add: world sample_db_def sample_run_row_def)
  from sweeper_tick_result [OF _ _ _ this, of sample_sweeper] show ?thesis
    using sample_runs_wf unfolding world rows
    by (auto simp: sample_sweeper_def actions_permitted_def permitted_actions_def sample_run_row_def)
qed

end
