(* ===== verification/Dispatcher.thy ===== *)
theory Dispatcher
  imports Sweeper
begin

text \<open>
  \<open>SweeperActionDispatcherUseCase\<close> and the handler registry: one drain abandons exhausted
  rows, claims a batch of fresh and then stuck rows, runs the handler of each and settles each
  in a transaction of its own.  Handlers are functions of the run that return or raise; those
  of the registry write log lines only.  The k-th clock reading of a drain is \<open>clock k\<close>.
\<close>

section \<open>Configuration and handlers\<close>

record dispatcher =
  dp_batch_limit :: int
  dp_stale_threshold :: int
  dp_max_attempts :: int

definition dispatcher_init :: "int \<Rightarrow> int \<Rightarrow> int \<Rightarrow> exn + dispatcher" where
  "dispatcher_init batch stale attempts =
     check (batch < 1) value_error
     (check (stale < 1) value_error
     (check (attempts < 1) value_error
     (Inr \<lparr> dp_batch_limit = batch, dp_stale_threshold = stale, dp_max_attempts = attempts \<rparr>)))"

type_synonym handlers = "action_name \<rightharpoonup> (run \<Rightarrow> exn + unit)"

definition discard_silently :: "run \<Rightarrow> exn + unit" where
  "discard_silently r = Inr ()"

definition notify_admins :: "run \<Rightarrow> exn + unit" where
  "notify_admins r = Inr ()"

definition handler_registry :: handlers where
  "handler_registry =
     [''DISCARD_SILENTLY'' \<mapsto> discard_silently, ''NOTIFY_ADMINS'' \<mapsto> notify_admins]"

section \<open>A drain\<close>

text \<open>\<open>[await f(x) for x in xs]\<close>\<close>

fun tx_map :: "('a \<Rightarrow> 'b tx) \<Rightarrow> 'a list \<Rightarrow> 'b list tx" where
  "tx_map f [] = tx_return []"
| "tx_map f (x # xs) = tx_bind (f x) (\<lambda>y. tx_bind (tx_map f xs) (\<lambda>ys. tx_return (y # ys)))"

definition abandon_event :: "dispatcher \<Rightarrow> claimed_action \<Rightarrow> int \<Rightarrow> audit_event" where
  "abandon_event cfg c now =
     \<lparr> ae_timestamp = utc now, ae_action = DISPATCHER_ACTION_ABANDONED,
       ae_actor = ''system:sweeper_action_dispatcher'',
       ae_resource = ''sweeper_action:'' @ show_int (ca_action_id c), ae_outcome = FAILURE,
       ae_details =
         [(''action_id'', JInt (ca_action_id c)), (''run_id'', JStr (ca_run_id c)),
          (''action_name'', JStr (ca_action_name c)), (''attempts'', JInt (ca_attempts c)),
          (''max_attempts'', JInt (dp_max_attempts cfg))],
       ae_audit_id = None \<rparr>"

definition abandon_message :: "dispatcher \<Rightarrow> claimed_action \<Rightarrow> string" where
  "abandon_message cfg c = ''abandoned after '' @ show_int (ca_attempts c)
     @ '' attempts (max_dispatch_attempts='' @ show_int (dp_max_attempts cfg) @ '')''"

definition abandon_tx :: "dispatcher \<Rightarrow> int \<Rightarrow> nat tx" where
  "abandon_tx cfg now =
     tx_bind (action_find_abandoned now (dp_stale_threshold cfg) (dp_max_attempts cfg)
        (dp_batch_limit cfg)) (\<lambda>exhausted.
     tx_then (tx_iter (\<lambda>c.
        tx_bind (tx_lift (audit_event_post_init (abandon_event cfg c now))) (\<lambda>ev.
        tx_then (audit_record ev)
          (action_mark_abandoned (ca_action_id c) (utc now) (abandon_message cfg c)))) exhausted)
     (tx_return (length exhausted)))"

definition run_or_none :: "run_id \<Rightarrow> run option tx" where
  "run_or_none rid = tx_try (run_get rid)
     (\<lambda>e. if exn_is e RunNotFoundError then tx_return None else tx_raise e)
     (\<lambda>r. tx_return (Some r))"

definition claim_tx :: "dispatcher \<Rightarrow> int \<Rightarrow> (claimed_action \<times> run option) list tx" where
  "claim_tx cfg now =
     tx_bind (action_claim_pending (utc now) (dp_batch_limit cfg)) (\<lambda>fresh.
     let remaining = dp_batch_limit cfg - int (length fresh) in
     tx_bind (if 0 < remaining
              then action_reclaim_stuck now remaining (dp_stale_threshold cfg) (dp_max_attempts cfg)
              else tx_return []) (\<lambda>stuck.
     tx_bind (tx_map (\<lambda>c. run_or_none (ca_run_id c)) (fresh @ stuck)) (\<lambda>runs.
     tx_return (zip (fresh @ stuck) runs))))"

text \<open>The outcome of a claimed row: success, or failure with its message.\<close>

definition handle_one :: "handlers \<Rightarrow> claimed_action \<times> run option \<Rightarrow> claimed_action \<times> string option" where
  "handle_one handlers p = (case p of
     (c, None) \<Rightarrow> (c, Some ''run no longer exists'')
   | (c, Some r) \<Rightarrow>
       (case handlers (ca_action_name c) of
          None \<Rightarrow> (c, Some (''no handler registered for '' @ ca_action_name c))
        | Some h \<Rightarrow> (case h r of Inr _ \<Rightarrow> (c, None) | Inl e \<Rightarrow> (c, Some (exn_message e)))))"

text \<open>\<open>error_message=err or "unknown"\<close>\<close>

definition settle_tx :: "claimed_action \<times> string option \<Rightarrow> int \<Rightarrow> unit tx" where
  "settle_tx oc now = (case snd oc of
     None \<Rightarrow> action_mark_completed (ca_action_id (fst oc)) (utc now)
   | Some msg \<Rightarrow> action_mark_failed (ca_action_id (fst oc)) (utc now)
       (if msg = [] then ''unknown'' else msg))"

fun settle_all ::
  "(nat \<Rightarrow> int) \<Rightarrow> nat \<Rightarrow> (claimed_action \<times> string option) list \<Rightarrow> nat \<times> nat \<Rightarrow> db
    \<Rightarrow> (exn + nat \<times> nat) \<times> db" where
  "settle_all clock k [] counts d = (Inr counts, d)"
| "settle_all clock k (oc # os) (succeeded, failed) d =
     (case uow (settle_tx oc (clock k)) d of
        (Inl e, d') \<Rightarrow> (Inl e, d')
      | (Inr _, d') \<Rightarrow> settle_all clock (Suc k) os
          (if snd oc = None then (succeeded + 1, failed) else (succeeded, failed + 1)) d')"

record dispatch_result =
  dr_claimed :: nat
  dr_succeeded :: nat
  dr_failed :: nat
  dr_abandoned :: nat

definition dispatch_pending ::
  "dispatcher \<Rightarrow> handlers \<Rightarrow> (nat \<Rightarrow> int) \<Rightarrow> db \<Rightarrow> (exn + dispatch_result) \<times> db" where
  "dispatch_pending cfg handlers clock d =
     (case uow (abandon_tx cfg (clock 0)) d of
        (Inl e, d1) \<Rightarrow> (Inl e, d1)
      | (Inr abandoned, d1) \<Rightarrow>
          (case uow (claim_tx cfg (clock 1)) d1 of
             (Inl e, d2) \<Rightarrow> (Inl e, d2)
           | (Inr claimed, d2) \<Rightarrow>
               if claimed = []
               then (Inr \<lparr> dr_claimed = 0, dr_succeeded = 0, dr_failed = 0,
                           dr_abandoned = abandoned \<rparr>, d2)
               else (case settle_all clock 2 (map (handle_one handlers) claimed) (0, 0) d2 of
                  (Inl e, d3) \<Rightarrow> (Inl e, d3)
                | (Inr (succeeded, failed), d3) \<Rightarrow>
                    (Inr \<lparr> dr_claimed = length claimed, dr_succeeded = succeeded,
                           dr_failed = failed, dr_abandoned = abandoned \<rparr>, d3))))"

section \<open>One iteration of the loop\<close>

text \<open>
  \<open>SweeperLoop._tick_once\<close>: an exception of the tick is counted and does not keep the
  dispatcher from running; one of the dispatcher is logged.  The result is the label of the
  iteration counter.
\<close>

definition loop_tick_once ::
  "sweeper \<Rightarrow> dispatcher \<Rightarrow> handlers \<Rightarrow> (nat \<Rightarrow> int) \<Rightarrow> (nat \<Rightarrow> int) \<Rightarrow> world \<Rightarrow> string \<times> world" where
  "loop_tick_once sw dp handlers clock clock' w =
     (case sweeper_tick sw clock w of
        (Inl e, w1) \<Rightarrow>
          (''sweeper_error'', w1\<lparr> w_db := snd (dispatch_pending dp handlers clock' (w_db w1)) \<rparr>)
      | (Inr (orphaned, n), w1) \<Rightarrow>
          (if 0 < orphaned then ''orphans_detected'' else ''no_orphans_found'',
           w1\<lparr> w_db := snd (dispatch_pending dp handlers clock' (w_db w1)) \<rparr>))"

section \<open>Batches are settled\<close>

lemma handle_one_fst [simp]: "fst (handle_one handlers p) = fst p"
  by (auto simp: handle_one_def split: prod.splits option.splits sum.splits)

lemma tx_map_length: "tx_map f xs d = Done ys d' \<Longrightarrow> length ys = length xs"
  by (induction xs arbitrary: ys d) (auto simp: tx_return_def tx_bind_Done)

lemma length_pending_rows: "length (pending_rows n rows) \<le> nat n"
  by (simp add: pending_rows_def)

lemma length_stuck_rows: "length (stuck_rows c m n rows) \<le> nat n"
  by (simp add: stuck_rows_def)

lemma claim_tx_length:
  assumes "claim_tx cfg now d = Done ps d'"
  shows "int (length ps) \<le> dp_batch_limit cfg"
proof -
  obtain fresh d1 stuck d2 runs where fresh: "action_claim_pending (utc now) (dp_batch_limit cfg) d = Done fresh d1"
    and stuck: "(if 0 < dp_batch_limit cfg - int (length fresh)
       then action_reclaim_stuck now (dp_batch_limit cfg - int (length fresh)) (dp_stale_threshold cfg)
         (dp_max_attempts cfg) else tx_return []) d1 = Done stuck d2"
    and runs: "tx_map (\<lambda>c. run_or_none (ca_run_id c)) (fresh @ stuck) d2 = Done runs d'"
    and ps: "ps = zip (fresh @ stuck) runs"
    using assms by (auto simp: claim_tx_def tx_bind_Done tx_return_def Let_def)
  have "1 \<le> dp_batch_limit cfg"
    using fresh by (auto simp: action_claim_pending_def tx_then_Done tx_guard_Done)
  then have f: "int (length fresh) \<le> dp_batch_limit cfg"
    using claim_pending_Done(2) [OF fresh] length_pending_rows [of "dp_batch_limit cfg" "db_actions d"]
    by simp
  have "int (length stuck) \<le> dp_batch_limit cfg - int (length fresh)"
  proof (cases "0 < dp_batch_limit cfg - int (length fresh)")
    case True
    then have "action_reclaim_stuck now (dp_batch_limit cfg - int (length fresh))
        (dp_stale_threshold cfg) (dp_max_attempts cfg) d1 = Done stuck d2" using stuck by simp
    from reclaim_stuck_Done(2) [OF this] show ?thesis
      using True length_stuck_rows [of _ _ "dp_batch_limit cfg - int (length fresh)" "db_actions d1"]
      by (simp add: nat_le_iff [symmetric] le_nat_iff)
  next
    case False
    then show ?thesis using stuck f by (simp add: tx_return_def)
  qed
  then show ?thesis using tx_map_length [OF runs] by (simp add: ps)
qed

definition row_completed :: "int \<Rightarrow> db \<Rightarrow> bool" where
  "row_completed i d \<longleftrightarrow> (\<forall>r \<in> set (db_actions d). xr_action_id r = i \<longrightarrow> xr_completed_at r \<noteq> None)"

lemma settle_tx_completes:
  assumes "settle_tx oc now d = Done u d'"
  shows "row_completed (ca_action_id (fst oc)) d'" and "row_completed i d \<Longrightarrow> row_completed i d'"
  using assms
  by (auto simp: settle_tx_def action_mark_completed_def action_mark_failed_def tx_bind_Done
      tx_lift_Done row_completed_def dest!: actions_update_Done dest: set_update_rows
      split: option.splits) (auto dest!: set_update_rows split: if_splits)

lemma settle_tx_plain: "plain (settle_tx oc now)"
  by (cases "snd oc") (simp_all add: settle_tx_def action_plain)

lemma settle_all_Inr:
  assumes "settle_all clock k os (s, f) d = (Inr (s', f'), d')"
  shows "s' + f' = s + f + length os \<and> (\<forall>oc \<in> set os. row_completed (ca_action_id (fst oc)) d') \<and>
    (\<forall>i. row_completed i d \<longrightarrow> row_completed i d')"
  using assms
proof (induction os arbitrary: k s f d)
  case Nil
  then show ?case by simp
next
  case (Cons oc os)
  obtain u d1 where one: "settle_tx oc (clock k) d = Done u d1"
    using Cons.prems settle_tx_plain [of oc "clock k"]
    by (cases "settle_tx oc (clock k) d") (auto simp: uow_def plain_def)
  then have rest: "settle_all clock (Suc k) os
      (if snd oc = None then (s + 1, f) else (s, f + 1)) d1 = (Inr (s', f'), d')"
    using Cons.prems by (simp add: uow_def)
  obtain s1 f1 where sf: "(if snd oc = None then (s + 1, f) else (s, f + 1)) = (s1, f1)"
    and sum: "s1 + f1 = s + f + 1"
    by (cases "snd oc") auto
  from Cons.IH [OF rest [unfolded sf]] sum settle_tx_completes [OF one] show ?case by auto
qed

section \<open>Properties\<close>


definition sample_dispatcher :: dispatcher where
  "sample_dispatcher = \<lparr> dp_batch_limit = 10, dp_stale_threshold = 300, dp_max_attempts = 3 \<rparr>"

definition sample_action_db :: db where
  "sample_action_db = sample_db\<lparr> db_actions := [new_action 1 sample_rid ''NOTIFY_ADMINS'' 5],
     db_next_action := 2 \<rparr>"


end
