(* ===== verification/Repo_User.thy ===== *)
theory Repo_User
  imports Repo_Run
begin

text \<open>
  \<open>SqliteUserRepository\<close> and \<open>SqliteSessionRepository\<close>.  The lemmas say what each
  operation returns and which rows it leaves alone.
\<close>

section \<open>Users\<close>

definition row_to_user :: "user_row \<Rightarrow> exn + user" where
  "row_to_user row = user_post_init
     \<lparr> user_email = wr_email row, user_display_name = wr_display_name row,
       user_password_hash = wr_password_hash row, user_created_at = utc (wr_created_at row),
       user_user_id = Some (wr_user_id row), user_is_admin = wr_is_admin row,
       user_disabled = wr_disabled row \<rparr>"

definition opt_row_to_user :: "user_row option \<Rightarrow> exn + user option" where
  "opt_row_to_user row = (case row of
     None \<Rightarrow> Inr None | Some r \<Rightarrow> and_then (row_to_user r) (\<lambda>u. Inr (Some u)))"

text \<open>SQLite's message for the UNIQUE constraint on \<open>users.email\<close>, as \<open>str(exc)\<close>.\<close>

definition unique_email_reason :: string where
  "unique_email_reason = ''UNIQUE constraint failed: users.email''"

definition user_row_of :: "int \<Rightarrow> user \<Rightarrow> int \<Rightarrow> user_row" where
  "user_row_of i u created = \<lparr> wr_user_id = i, wr_email = user_email u,
     wr_display_name = user_display_name u, wr_disabled = user_disabled u, wr_created_at = created,
     wr_password_hash = user_password_hash u, wr_is_admin = user_is_admin u \<rparr>"

definition user_save :: "user \<Rightarrow> user tx" where
  "user_save u =
     tx_then (tx_guard (user_user_id u \<noteq> None) value_error)
     (tx_bind (tx_lift (iso_col (user_created_at u))) (\<lambda>created.
      tx_then (tx_bind (tx_read Inr) (\<lambda>d.
        tx_guard (user_email u \<in> wr_email ` set (db_users d))
          (err PersistenceError [(''email'', JStr (user_email u)), (''reason'', JStr unique_email_reason)])))
      (tx_bind (tx_read (\<lambda>d. Inr (db_next_user d))) (\<lambda>i.
       tx_then (tx_write (\<lambda>d. d\<lparr> db_users := db_users d @ [user_row_of i u created],
                               db_next_user := i + 1 \<rparr>))
       (tx_lift (user_post_init (u\<lparr> user_user_id := Some i \<rparr>)))))))"

definition user_get_by_email :: "string \<Rightarrow> user option tx" where
  "user_get_by_email email = tx_read (\<lambda>d. opt_row_to_user (find_row wr_email email (db_users d)))"

definition user_get_by_id :: "user_id \<Rightarrow> user option tx" where
  "user_get_by_id i = tx_read (\<lambda>d. opt_row_to_user (find_row wr_user_id i (db_users d)))"

text \<open>The columns an UPDATE sets; \<open>None\<close> leaves a column as it is.\<close>

record user_changes =
  uc_display_name :: "string option"
  uc_is_admin :: "bool option"
  uc_disabled :: "bool option"
  uc_password_hash :: "string option"

definition or_else :: "'a option \<Rightarrow> 'a \<Rightarrow> 'a" where
  "or_else x y = (case x of Some v \<Rightarrow> v | None \<Rightarrow> y)"

definition apply_changes :: "user_changes \<Rightarrow> user_row \<Rightarrow> user_row" where
  "apply_changes c r = r\<lparr>
     wr_display_name := or_else (uc_display_name c) (wr_display_name r),
     wr_is_admin := or_else (uc_is_admin c) (wr_is_admin r),
     wr_disabled := or_else (uc_disabled c) (wr_disabled r),
     wr_password_hash := or_else (uc_password_hash c) (wr_password_hash r) \<rparr>"

definition no_changes :: "user_changes \<Rightarrow> bool" where
  "no_changes c \<longleftrightarrow> uc_display_name c = None \<and> uc_is_admin c = None \<and> uc_disabled c = None \<and>
     uc_password_hash c = None"

definition user_update :: "user_id \<Rightarrow> user_changes \<Rightarrow> user option tx" where
  "user_update i c =
     (if no_changes c then user_get_by_id i
      else tx_bind (tx_read Inr) (\<lambda>d.
        if filter (\<lambda>r. wr_user_id r = i) (db_users d) = [] then tx_return None
        else tx_then (tx_write (db_users_update (update_rows (\<lambda>r. wr_user_id r = i) (apply_changes c))))
               (user_get_by_id i)))"

definition user_list_paginated :: "int \<Rightarrow> int \<Rightarrow> user list tx" where
  "user_list_paginated limit offset = tx_read (\<lambda>d. map_res row_to_user
     ((if limit < 0 then (\<lambda>xs. xs) else take (nat limit))
       (drop (nat offset) (sort_key wr_user_id (db_users d)))))"

section \<open>Sessions\<close>

definition row_to_session :: "session_row \<Rightarrow> exn + session" where
  "row_to_session row = session_post_init
     \<lparr> ses_token_hash = er_token_hash row, ses_user_id = er_user_id row,
       ses_created_at = utc (er_created_at row), ses_last_activity_at = utc (er_last_activity_at row) \<rparr>"

definition session_row_of :: "session \<Rightarrow> session_row" where
  "session_row_of s = \<lparr> er_token_hash = ses_token_hash s, er_user_id = ses_user_id s,
     er_created_at = dt_us (ses_created_at s), er_last_activity_at = dt_us (ses_last_activity_at s) \<rparr>"

definition session_save :: "session \<Rightarrow> unit tx" where
  "session_save s =
     tx_bind (tx_lift (iso_col (ses_created_at s))) (\<lambda>_.
     tx_bind (tx_lift (iso_col (ses_last_activity_at s))) (\<lambda>_.
     tx_then (tx_bind (tx_read Inr) (\<lambda>d.
       tx_guard (\<not> sessions_accepts d (session_row_of s) \<or>
           ses_token_hash s \<in> er_token_hash ` set (db_sessions d))
         (err PersistenceError [(''user_id'', JInt (ses_user_id s)), (''reason'', JStr [])])))
     (tx_write (db_sessions_update (\<lambda>rows. rows @ [session_row_of s])))))"

definition session_get :: "string \<Rightarrow> session option tx" where
  "session_get h = tx_read (\<lambda>d. case find_row er_token_hash h (db_sessions d) of
     None \<Rightarrow> Inr None | Some row \<Rightarrow> and_then (row_to_session row) (\<lambda>s. Inr (Some s)))"

definition session_touch :: "string \<Rightarrow> datetime \<Rightarrow> unit tx" where
  "session_touch h now =
     tx_bind (tx_lift (iso_col now)) (\<lambda>t.
     tx_then (tx_bind (tx_read Inr) (\<lambda>d.
       tx_guard (\<exists>r \<in> set (db_sessions d). er_token_hash r = h \<and> t < er_created_at r)
         (err PersistenceError [(''reason'', JStr [])])))
     (tx_write (db_sessions_update (update_rows (\<lambda>r. er_token_hash r = h)
       (\<lambda>r. r\<lparr> er_last_activity_at := t \<rparr>)))))"

definition session_delete :: "string \<Rightarrow> unit tx" where
  "session_delete h = tx_write (db_sessions_update (filter (\<lambda>r. er_token_hash r \<noteq> h)))"

definition session_delete_expired :: "datetime \<Rightarrow> nat tx" where
  "session_delete_expired threshold =
     tx_bind (tx_lift (iso_col threshold)) (\<lambda>t.
     tx_bind (tx_read (\<lambda>d. Inr (length (filter (\<lambda>r. er_last_activity_at r < t) (db_sessions d))))) (\<lambda>n.
     tx_then (tx_write (db_sessions_update (filter (\<lambda>r. \<not> er_last_activity_at r < t))))
     (tx_return n)))"

definition session_delete_by_user :: "user_id \<Rightarrow> nat tx" where
  "session_delete_by_user i =
     tx_bind (tx_read (\<lambda>d. Inr (length (filter (\<lambda>r. er_user_id r = i) (db_sessions d))))) (\<lambda>n.
     tx_then (tx_write (db_sessions_update (filter (\<lambda>r. er_user_id r \<noteq> i)))) (tx_return n))"

lemma user_plain [plain_intro]:
  "plain (user_save u)" "plain (user_get_by_email e)" "plain (user_get_by_id i)"
  "plain (user_update i c)" "plain (user_list_paginated n m)"
  unfolding user_save_def user_get_by_email_def user_get_by_id_def user_update_def
    user_list_paginated_def
  by (intro plain_intro)+

lemma session_plain [plain_intro]:
  "plain (session_save s)" "plain (session_get h)" "plain (session_touch h t)"
  "plain (session_delete h)" "plain (session_delete_expired t)" "plain (session_delete_by_user i)"
  unfolding session_save_def session_get_def session_touch_def session_delete_def
    session_delete_expired_def session_delete_by_user_def
  by (intro plain_intro)+

section \<open>What the operations do\<close>

lemma or_else_simps [simp]: "or_else (Some v) y = v" "or_else None y = y"
  by (simp_all add: or_else_def)

lemma apply_changes_simps [simp]:
  "wr_user_id (apply_changes c r) = wr_user_id r" "wr_email (apply_changes c r) = wr_email r"
  "wr_disabled (apply_changes c r) = or_else (uc_disabled c) (wr_disabled r)"
  "wr_is_admin (apply_changes c r) = or_else (uc_is_admin c) (wr_is_admin r)"
  by (simp_all add: apply_changes_def)

lemma apply_no_changes: "no_changes c \<Longrightarrow> apply_changes c r = r"
  by (simp add: no_changes_def apply_changes_def)

lemma opt_row_to_user_Inr:
  "opt_row_to_user row = Inr uo \<longleftrightarrow> (case row of None \<Rightarrow> uo = None
     | Some r \<Rightarrow> \<exists>u. uo = Some u \<and> row_to_user r = Inr u)"
  by (auto simp: opt_row_to_user_def and_then_Inr split: option.splits)

lemma user_get_by_id_Done [repo_simps]:
  "user_get_by_id i d = Done uo d' \<longleftrightarrow> d' = d \<and>
     opt_row_to_user (find_row wr_user_id i (db_users d)) = Inr uo"
  by (auto simp: user_get_by_id_def tx_read_Done)

lemma user_get_by_email_Done [repo_simps]:
  "user_get_by_email e d = Done uo d' \<longleftrightarrow> d' = d \<and>
     opt_row_to_user (find_row wr_email e (db_users d)) = Inr uo"
  by (auto simp: user_get_by_email_def tx_read_Done)

lemma row_to_user_Inr:
  "row_to_user r = Inr u \<longleftrightarrow> wr_email r \<noteq> [] \<and> wr_display_name r \<noteq> [] \<and>
     u = \<lparr> user_email = wr_email r, user_display_name = wr_display_name r,
       user_password_hash = wr_password_hash r, user_created_at = utc (wr_created_at r),
       user_user_id = Some (wr_user_id r), user_is_admin = wr_is_admin r,
       user_disabled = wr_disabled r \<rparr>"
  by (auto simp: row_to_user_def user_post_init_Inr user_ok_def)

lemma find_row_filter_Nil: "filter (\<lambda>r. key r = k) rows = [] \<longleftrightarrow> find_row key k rows = None"
  by (auto simp: find_row_None filter_empty_conv)

text \<open>An update returns the new user and sets exactly the given columns of the one row.\<close>

lemma user_update_Done:
  assumes "user_update i c d = Done uo d'"
  shows "case uo of
      None \<Rightarrow> d' = d \<and> find_row wr_user_id i (db_users d) = None
    | Some u \<Rightarrow> d' = db_users_update (update_rows (\<lambda>r. wr_user_id r = i) (apply_changes c)) d \<and>
        (\<exists>r. find_row wr_user_id i (db_users d) = Some r \<and> row_to_user (apply_changes c r) = Inr u)"
proof (cases "no_changes c")
  case True
  have id: "update_rows P (apply_changes c) rows = rows" for P and rows :: "user_row list"
    by (induction rows) (simp_all add: apply_no_changes [OF True])
  show ?thesis
    using assms True
    by (auto simp: user_update_def user_get_by_id_Done opt_row_to_user_Inr id apply_no_changes [OF True]
        split: option.splits)
next
  case False
  then show ?thesis
    using assms
    by (auto simp: user_update_def tx_bind_Done tx_read_Done tx_then_Done tx_write_def tx_return_def
        find_row_filter_Nil user_get_by_id_Done opt_row_to_user_Inr find_row_update_rows
        split: if_splits option.splits)
qed

lemma session_save_Done:
  "session_save s d = Done x d' \<longleftrightarrow> dt_aware (ses_created_at s) \<and> dt_aware (ses_last_activity_at s) \<and>
     sessions_accepts d (session_row_of s) \<and> ses_token_hash s \<notin> er_token_hash ` set (db_sessions d) \<and>
     d' = db_sessions_update (\<lambda>rows. rows @ [session_row_of s]) d"
  by (auto simp: session_save_def tx_bind_Done tx_lift_Done tx_then_Done tx_read_Done tx_guard_Done
      tx_write_def iso_col_def iso_z_def split: if_splits)

lemma session_get_Done:
  "session_get h d = Done so d' \<longleftrightarrow> d' = d \<and>
     (case find_row er_token_hash h (db_sessions d) of None \<Rightarrow> so = None
      | Some row \<Rightarrow> \<exists>s. so = Some s \<and> row_to_session row = Inr s)"
  by (auto simp: session_get_def tx_read_Done and_then_Inr split: option.splits)

lemma row_to_session_Inr:
  "row_to_session row = Inr s \<Longrightarrow> ses_token_hash s = er_token_hash row \<and> ses_user_id s = er_user_id row \<and>
     ses_created_at s = utc (er_created_at row) \<and> ses_last_activity_at s = utc (er_last_activity_at row)"
  by (auto simp: row_to_session_def session_post_init_Inr)

lemma session_touch_Done:
  "session_touch h now d = Done x d' \<longleftrightarrow> dt_aware now \<and>
     (\<forall>r \<in> set (db_sessions d). er_token_hash r = h \<longrightarrow> er_created_at r \<le> dt_us now) \<and>
     d' = db_sessions_update (update_rows (\<lambda>r. er_token_hash r = h)
       (\<lambda>r. r\<lparr> er_last_activity_at := dt_us now \<rparr>)) d"
  by (auto simp: session_touch_def tx_bind_Done tx_lift_Done tx_then_Done tx_read_Done tx_guard_Done
      tx_write_def iso_col_def iso_z_def not_less split: if_splits)

lemma user_save_Done:
  "user_save u d = Done v d' \<longleftrightarrow> user_user_id u = None \<and> dt_aware (user_created_at u) \<and>
     user_email u \<notin> wr_email ` set (db_users d) \<and> user_ok u \<and>
     v = u\<lparr> user_user_id := Some (db_next_user d) \<rparr> \<and>
     d' = d\<lparr> db_users := db_users d @ [user_row_of (db_next_user d) u (dt_us (user_created_at u))],
            db_next_user := db_next_user d + 1 \<rparr>"
  by (auto simp: user_save_def tx_bind_Done tx_lift_Done tx_then_Done tx_read_Done tx_guard_Done
      tx_write_def iso_col_def iso_z_def user_post_init_Inr user_ok_def split: if_splits)

text \<open>The accounts tables are well formed: distinct ids and e-mails, and every session has a user.\<close>

definition accounts_wf :: "db \<Rightarrow> bool" where
  "accounts_wf d \<longleftrightarrow> users.unique_keys d \<and> distinct (map wr_email (db_users d)) \<and>
     (\<forall>r \<in> set (db_users d). wr_user_id r < db_next_user d) \<and> sessions.unique_keys d \<and>
     (\<forall>s \<in> set (db_sessions d). er_user_id s \<in> wr_user_id ` set (db_users d))"

end
