(* ===== verification/Unit_Of_Work.thy ===== *)
theory Unit_Of_Work
  imports Database
begin

text \<open>
  \<open>SqliteUnitOfWork\<close>: one connection and one \<open>asyncio.Lock\<close> shared by all units of
  work of the process.  The methods are functions on the state of the lock, the connection and
  the objects; \<open>uow_step\<close> interleaves the \<open>async with\<close> blocks of any number of tasks.

  The lemmas carry an invariant through every interleaving; it gives mutual exclusion, the
  release of the lock and that the transactions behave as if they ran one after the other, each
  as the \<open>uow\<close> of the theory Database.  Two theorems show states from which no unit of
  work is ever entered again.
\<close>

section \<open>The connection\<close>

text \<open>
  A driver call works, raises, or is cancelled while it is awaited: the driver's thread then
  still carries it out.  SQLite refuses BEGIN inside a transaction; COMMIT and ROLLBACK without
  a transaction do nothing.
\<close>

datatype fault = Works | Raises | Cancelled

record connection =
  cn_committed :: db
  cn_work :: "db option"

definition driver_error :: exn where
  "driver_error = PyExc DriverError []"

definition cancelled :: exn where
  "cancelled = PyExc CancelledError []"

text \<open>What \<open>except Exception\<close> catches: CancelledError derives from BaseException.\<close>

fun is_exception :: "exn \<Rightarrow> bool" where
  "is_exception (PyExc p m) \<longleftrightarrow> p \<noteq> CancelledError"
| "is_exception (Err c m d) \<longleftrightarrow> True"

fun driver_call :: "fault \<Rightarrow> (connection \<Rightarrow> connection) \<Rightarrow> connection \<Rightarrow> (exn + unit) \<times> connection" where
  "driver_call Works f c = (Inr (), f c)"
| "driver_call Raises f c = (Inl driver_error, c)"
| "driver_call Cancelled f c = (Inl cancelled, f c)"

definition conn_begin :: "fault \<Rightarrow> connection \<Rightarrow> (exn + unit) \<times> connection" where
  "conn_begin fault c = (if cn_work c \<noteq> None then (Inl driver_error, c)
     else driver_call fault (\<lambda>c. c\<lparr> cn_work := Some (cn_committed c) \<rparr>) c)"

definition do_commit :: "connection \<Rightarrow> connection" where
  "do_commit c = (case cn_work c of None \<Rightarrow> c | Some d \<Rightarrow> c\<lparr> cn_committed := d, cn_work := None \<rparr>)"

definition conn_commit :: "fault \<Rightarrow> connection \<Rightarrow> (exn + unit) \<times> connection" where
  "conn_commit fault = driver_call fault do_commit"

definition conn_rollback :: "fault \<Rightarrow> connection \<Rightarrow> (exn + unit) \<times> connection" where
  "conn_rollback fault = driver_call fault (\<lambda>c. c\<lparr> cn_work := None \<rparr>)"

section \<open>The methods\<close>

record unit_of_work =
  uo_entered :: bool
  uo_finalized :: bool
  uo_lock_held :: bool

record uow_state =
  us_locked :: bool
  us_conn :: connection
  us_objs :: "nat \<Rightarrow> unit_of_work"

definition set_obj :: "nat \<Rightarrow> (unit_of_work \<Rightarrow> unit_of_work) \<Rightarrow> uow_state \<Rightarrow> uow_state" where
  "set_obj u f s = s\<lparr> us_objs := (us_objs s)(u := f (us_objs s u)) \<rparr>"

definition release_lock :: "nat \<Rightarrow> uow_state \<Rightarrow> uow_state" where
  "release_lock u s =
     (if uo_lock_held (us_objs s u)
      then (set_obj u (uo_lock_held_update (\<lambda>_. False)) s)\<lparr> us_locked := False \<rparr> else s)"

definition uow_error :: exn where
  "uow_error = err PersistenceError []"

text \<open>\<open>__aenter__\<close> up to the lock, and from the moment the lock is granted.\<close>

definition uow_aenter_start :: "nat \<Rightarrow> uow_state \<Rightarrow> (exn + unit) \<times> uow_state" where
  "uow_aenter_start u s =
     (if uo_entered (us_objs s u) then (Inl uow_error, s)
      else (Inr (), set_obj u (uo_entered_update (\<lambda>_. True)) s))"

definition uow_aenter_locked :: "fault \<Rightarrow> nat \<Rightarrow> uow_state \<Rightarrow> (exn + unit) \<times> uow_state" where
  "uow_aenter_locked fault u s =
     (let s1 = (set_obj u (uo_lock_held_update (\<lambda>_. True)) s)\<lparr> us_locked := True \<rparr> in
      case conn_begin fault (us_conn s1) of
        (Inr _, c) \<Rightarrow> (Inr (), s1\<lparr> us_conn := c \<rparr>)
      | (Inl e, c) \<Rightarrow>
          if is_exception e then (Inl uow_error, release_lock u (s1\<lparr> us_conn := c \<rparr>))
          else (Inl e, s1\<lparr> us_conn := c \<rparr>))"

text \<open>\<open>try: rollback except Exception: log\<close>, then \<open>after\<close>.\<close>

definition best_effort_rollback :: "fault \<Rightarrow> exn + unit \<Rightarrow> connection \<Rightarrow> (exn + unit) \<times> connection" where
  "best_effort_rollback fault after c = (case conn_rollback fault c of
     (Inl e, c') \<Rightarrow> (if is_exception e then after else Inl e, c') | (Inr _, c') \<Rightarrow> (after, c'))"

definition uow_aexit :: "exn option \<Rightarrow> fault \<Rightarrow> fault \<Rightarrow> nat \<Rightarrow> uow_state \<Rightarrow> (exn + unit) \<times> uow_state" where
  "uow_aexit exc fc fr u s =
     (if uo_finalized (us_objs s u) then (Inr (), s)
      else
        let (res, c) = (case exc of
            Some e \<Rightarrow> best_effort_rollback fr (Inr ()) (us_conn s)
          | None \<Rightarrow> (case conn_commit fc (us_conn s) of
                (Inr _, c) \<Rightarrow> (Inr (), c)
              | (Inl e, c) \<Rightarrow> if is_exception e then best_effort_rollback fr (Inl uow_error) c
                             else (Inl e, c)))
        in (res, release_lock u (s\<lparr> us_conn := c \<rparr>)))"

definition finalize_with ::
  "(exn + unit) \<times> connection \<Rightarrow> nat \<Rightarrow> uow_state \<Rightarrow> (exn + unit) \<times> uow_state" where
  "finalize_with call u s = (case call of
     (Inl e, c) \<Rightarrow> (Inl (if is_exception e then uow_error else e), s\<lparr> us_conn := c \<rparr>)
   | (Inr _, c) \<Rightarrow> (Inr (), release_lock u
         (set_obj u (uo_finalized_update (\<lambda>_. True)) (s\<lparr> us_conn := c \<rparr>))))"

definition uow_commit :: "fault \<Rightarrow> nat \<Rightarrow> uow_state \<Rightarrow> (exn + unit) \<times> uow_state" where
  "uow_commit fault u s =
     (if uo_finalized (us_objs s u) then (Inl uow_error, s)
      else finalize_with (conn_commit fault (us_conn s)) u s)"

definition uow_rollback :: "fault \<Rightarrow> nat \<Rightarrow> uow_state \<Rightarrow> (exn + unit) \<times> uow_state" where
  "uow_rollback fault u s =
     (if uo_finalized (us_objs s u) then (Inl uow_error, s)
      else finalize_with (conn_rollback fault (us_conn s)) u s)"

section \<open>Blocks that interleave\<close>

text \<open>
  The body of an \<open>async with\<close> block: statements on the open transaction, which may raise
  (a cancellation included), an explicit commit, a raise, and awaiting another block
  (\<open>Nested v\<close>) before going on.
\<close>

datatype stmt =
    Exec "db \<Rightarrow> exn + db"
  | Commit
  | Raise exn
  | Nested nat

fun first_raise :: "stmt list \<Rightarrow> exn option" where
  "first_raise [] = None"
| "first_raise (Raise e # ss) = Some e"
| "first_raise (s # ss) = first_raise ss"

text \<open>The body as a transaction of the theory Database.\<close>

fun body_tx :: "stmt list \<Rightarrow> unit tx" where
  "body_tx [] d = Done () d"
| "body_tx (Exec f # ss) d = (case f d of Inl e \<Rightarrow> Raised e | Inr d' \<Rightarrow> body_tx ss d')"
| "body_tx (Commit # ss) d = (case first_raise ss of Some e \<Rightarrow> CommittedRaise e d | None \<Rightarrow> Done () d)"
| "body_tx (Raise e # ss) d = Raised e"
| "body_tx (Nested v # ss) d = body_tx ss d"

datatype phase = Idle | Waiting | Inside "stmt list" | Finished "exn + unit"

record system =
  sy_uow :: uow_state
  sy_phase :: "nat \<Rightarrow> phase"
  sy_log :: "nat list"

definition work :: "system \<Rightarrow> db option" where
  "work s = cn_work (us_conn (sy_uow s))"

definition committed :: "system \<Rightarrow> db" where
  "committed s = cn_committed (us_conn (sy_uow s))"

definition goto :: "nat \<Rightarrow> phase \<Rightarrow> uow_state \<Rightarrow> nat list \<Rightarrow> system \<Rightarrow> system" where
  "goto u p us log s =
     s\<lparr> sy_uow := us, sy_phase := (sy_phase s)(u := p), sy_log := sy_log s @ log \<rparr>"

definition set_work :: "db \<Rightarrow> uow_state \<Rightarrow> uow_state" where
  "set_work d us = us\<lparr> us_conn := (us_conn us)\<lparr> cn_work := Some d \<rparr> \<rparr>"

definition raised_by :: "exn \<Rightarrow> exn + unit \<Rightarrow> exn + unit" where
  "raised_by e r = (case r of Inl e' \<Rightarrow> Inl e' | Inr _ \<Rightarrow> Inl e)"

text \<open>
  The faults of these steps: BEGIN and COMMIT may fail; ROLLBACK works; a cancellation strikes
  at a statement of the body.  The log lists the blocks whose COMMIT succeeded.
\<close>

inductive uow_step :: "(nat \<Rightarrow> stmt list) \<Rightarrow> system \<Rightarrow> system \<Rightarrow> bool" for prog where
  enter: "sy_phase s u = Idle \<Longrightarrow> uow_aenter_start u (sy_uow s) = (Inr x, us) \<Longrightarrow>
    uow_step prog s (goto u Waiting us [] s)"
| acquire: "sy_phase s u = Waiting \<Longrightarrow> \<not> us_locked (sy_uow s) \<Longrightarrow> fb \<noteq> Cancelled \<Longrightarrow>
    uow_aenter_locked fb u (sy_uow s) = (Inr x, us) \<Longrightarrow>
    uow_step prog s (goto u (Inside (prog u)) us [] s)"
| refuse: "sy_phase s u = Waiting \<Longrightarrow> \<not> us_locked (sy_uow s) \<Longrightarrow> fb \<noteq> Cancelled \<Longrightarrow>
    uow_aenter_locked fb u (sy_uow s) = (Inl e, us) \<Longrightarrow>
    uow_step prog s (goto u (Finished (Inl e)) us [] s)"
| exec: "sy_phase s u = Inside (Exec f # ss) \<Longrightarrow> work s = Some d \<Longrightarrow> f d = Inr d' \<Longrightarrow>
    uow_step prog s (goto u (Inside ss) (set_work d' (sy_uow s)) [] s)"
| exec_raises: "sy_phase s u = Inside (Exec f # ss) \<Longrightarrow> work s = Some d \<Longrightarrow> f d = Inl e \<Longrightarrow>
    uow_aexit (Some e) Works Works u (sy_uow s) = (r, us) \<Longrightarrow>
    uow_step prog s (goto u (Finished (raised_by e r)) us [] s)"
| raises: "sy_phase s u = Inside (Raise e # ss) \<Longrightarrow>
    uow_aexit (Some e) Works Works u (sy_uow s) = (r, us) \<Longrightarrow>
    uow_step prog s (goto u (Finished (raised_by e r)) us [] s)"
| commit: "sy_phase s u = Inside (Commit # ss) \<Longrightarrow> fc \<noteq> Cancelled \<Longrightarrow>
    uow_commit fc u (sy_uow s) = (Inr x, us) \<Longrightarrow>
    uow_step prog s (goto u (Inside ss) us [u] s)"
| commit_raises: "sy_phase s u = Inside (Commit # ss) \<Longrightarrow> fc \<noteq> Cancelled \<Longrightarrow>
    uow_commit fc u (sy_uow s) = (Inl e, us) \<Longrightarrow>
    uow_aexit (Some e) Works Works u us = (r, us') \<Longrightarrow>
    uow_step prog s (goto u (Finished (raised_by e r)) us' [] s)"
| leave: "sy_phase s u = Inside [] \<Longrightarrow> fc \<noteq> Cancelled \<Longrightarrow>
    uow_aexit None fc Works u (sy_uow s) = (r, us) \<Longrightarrow>
    uow_step prog s (goto u (Finished r) us
      (if uo_finalized (us_objs (sy_uow s) u) \<or> r \<noteq> Inr () then [] else [u]) s)"
| nested: "sy_phase s u = Inside (Nested v # ss) \<Longrightarrow> sy_phase s v = Finished r \<Longrightarrow>
    uow_step prog s (goto u (Inside ss) (sy_uow s) [] s)"

inductive_cases uow_stepE [consumes 1, case_names enter acquire refuse exec exec_raises raises
    commit commit_raises leave nested]: "uow_step prog s t"

definition uow_init :: "db \<Rightarrow> system \<Rightarrow> bool" where
  "uow_init d s \<longleftrightarrow> sy_uow s = \<lparr> us_locked = False, us_conn = \<lparr> cn_committed = d, cn_work = None \<rparr>,
      us_objs = (\<lambda>u. \<lparr> uo_entered = False, uo_finalized = False, uo_lock_held = False \<rparr>) \<rparr> \<and>
     (\<forall>u. sy_phase s u = Idle) \<and> sy_log s = []"

section \<open>The invariant\<close>

text \<open>No repository call after an explicit commit.\<close>

fun quiet_stmt :: "stmt \<Rightarrow> bool" where
  "quiet_stmt (Raise e) = True"
| "quiet_stmt (Nested v) = True"
| "quiet_stmt s = False"

fun wf_body :: "stmt list \<Rightarrow> bool" where
  "wf_body [] = True"
| "wf_body (Commit # ss) = list_all quiet_stmt ss"
| "wf_body (s # ss) = wf_body ss"

lemma quiet_wf: "list_all quiet_stmt ss \<Longrightarrow> wf_body ss"
proof (induction ss)
  case (Cons s ss)
  then show ?case by (cases s) simp_all
qed simp

lemma quiet_tx: "list_all quiet_stmt ss \<Longrightarrow> snd (uow (body_tx (Commit # ss)) d) = d"
  by (simp add: uow_def split: option.split)

text \<open>What the log of committed blocks says the database is.\<close>

definition serial :: "(nat \<Rightarrow> stmt list) \<Rightarrow> db \<Rightarrow> nat list \<Rightarrow> db" where
  "serial prog d0 log = foldl (\<lambda>d u. snd (uow (body_tx (prog u)) d)) d0 log"

definition rest_equiv :: "stmt list \<Rightarrow> db \<Rightarrow> stmt list \<Rightarrow> db \<Rightarrow> bool" where
  "rest_equiv body c ss d \<longleftrightarrow> uow (body_tx body) c = (case body_tx ss d of
     Done x d' \<Rightarrow> (Inr x, d') | Raised e \<Rightarrow> (Inl e, c) | CommittedRaise e d' \<Rightarrow> (Inl e, d'))"

text \<open>
  What holds of one block, given the committed database, the open transaction, whether the block
  holds the lock, whether it is finalized, its phase and whether it is in the log.
\<close>

fun block_ok :: "stmt list \<Rightarrow> db \<Rightarrow> db option \<Rightarrow> bool \<Rightarrow> bool \<Rightarrow> phase \<Rightarrow> bool \<Rightarrow> bool" where
  "block_ok body c w h f Idle m \<longleftrightarrow> \<not> h \<and> \<not> f \<and> \<not> m"
| "block_ok body c w h f Waiting m \<longleftrightarrow> \<not> h \<and> \<not> f \<and> \<not> m"
| "block_ok body c w h f (Inside ss) m \<longleftrightarrow>
     (if f then \<not> h \<and> m \<and> list_all quiet_stmt ss
      else h \<and> \<not> m \<and> wf_body ss \<and> (\<exists>d. w = Some d \<and> rest_equiv body c ss d))"
| "block_ok body c w h f (Finished r) m \<longleftrightarrow>
     \<not> h \<and> (r = Inr () \<or> f \<longrightarrow> m) \<and> (m \<longrightarrow> f \<or> r = Inr ())"

lemma block_ok_frame:
  "block_ok body c w False f p m \<Longrightarrow> block_ok body c' w' False f p m"
  by (cases p) (auto split: if_splits)

definition core :: "(nat \<Rightarrow> stmt list) \<Rightarrow> db \<Rightarrow> nat option \<Rightarrow> db option \<Rightarrow> db \<Rightarrow> (nat \<Rightarrow> bool) \<Rightarrow>
    (nat \<Rightarrow> phase) \<Rightarrow> nat list \<Rightarrow> bool" where
  "core prog d0 holder w c fin ph log \<longleftrightarrow>
     (\<forall>u. block_ok (prog u) c w (holder = Some u) (fin u) (ph u) (u \<in> set log)) \<and>
     (holder = None \<longrightarrow> w = None) \<and> c = serial prog d0 log \<and> distinct log"

text \<open>A step of block \<open>u\<close>, which holds the lock before or after it, or when nobody does.\<close>

lemma core_step:
  assumes "core prog d0 holder w c fin ph log"
    and "holder' = holder \<and> w' = w \<and> c' = c \<or> holder \<in> {None, Some u} \<and> holder' \<in> {None, Some u}"
    and "block_ok (prog u) c' w' (holder' = Some u) f p (u \<in> set log')"
    and "\<And>v. v \<noteq> u \<Longrightarrow> v \<in> set log' \<longleftrightarrow> v \<in> set log"
    and "holder' = None \<longrightarrow> w' = None" and "c' = serial prog d0 log'" and "distinct log'"
  shows "core prog d0 holder' w' c' (fin(u := f)) (ph(u := p)) log'"
  unfolding core_def
proof (intro conjI allI)
  fix v
  show "block_ok (prog v) c' w' (holder' = Some v) ((fin(u := f)) v) ((ph(u := p)) v) (v \<in> set log')"
  proof (cases "v = u")
    case False
    have "block_ok (prog v) c w (holder = Some v) (fin v) (ph v) (v \<in> set log)"
      using assms(1) unfolding core_def by blast
    with assms(2,4) False show ?thesis by (auto intro: block_ok_frame)
  qed (use assms(3) in simp)
qed (use assms in auto)

lemma core_block:
  "core prog d0 holder w c fin ph log \<Longrightarrow>
   block_ok (prog u) c w (holder = Some u) (fin u) (ph u) (u \<in> set log)"
  unfolding core_def by blast

lemma core_rest:
  "core prog d0 holder w c fin ph log \<Longrightarrow>
   (holder = None \<longrightarrow> w = None) \<and> c = serial prog d0 log \<and> distinct log"
  by (simp add: core_def)

lemma core_same:
  assumes core: "core prog d0 holder w c fin ph log"
    and ok: "block_ok (prog u) c w (holder = Some u) (fin u) p (u \<in> set log)"
  shows "core prog d0 holder w c fin (ph(u := p)) log"
  using core_step [OF core, of holder w c u "fin u" p log] ok core_rest [OF core] by simp

lemma serial_snoc: "serial prog d0 (log @ [u]) = snd (uow (body_tx (prog u)) (serial prog d0 log))"
  by (simp add: serial_def)

text \<open>Leaving an open transaction without a commit.\<close>

lemma core_abort:
  assumes core: "core prog d0 holder w c fin ph log" and ph: "ph u = Inside ss" and "\<not> fin u"
  shows "holder = Some u" and "core prog d0 None None c fin (ph(u := Finished (Inl e))) log"
proof -
  have "block_ok (prog u) c w (holder = Some u) (fin u) (Inside ss) (u \<in> set log)"
    using core_block [OF core, of u] ph by simp
  with assms(3) have h: "holder = Some u" and m: "u \<notin> set log" by auto
  show "holder = Some u" by (rule h)
  from core_step [OF core, of None None c u "fin u" "Finished (Inl e)" log] h m assms(3)
    core_rest [OF core] fun_upd_idem [of fin u False]
  show "core prog d0 None None c fin (ph(u := Finished (Inl e))) log" by simp
qed

text \<open>A successful COMMIT, explicit or at the end of the block.\<close>

lemma core_commit:
  assumes core: "core prog d0 holder w c fin ph log" and ph: "ph u = Inside ss" and active: "\<not> fin u"
    and w: "w = Some d" and p: "(ss = [] \<and> p = Finished (Inr ()) \<and> \<not> f) \<or>
      (\<exists>ss'. ss = Commit # ss' \<and> p = Inside ss' \<and> f)"
  shows "core prog d0 None None d (fin(u := f)) (ph(u := p)) (log @ [u])"
proof -
  have blk: "block_ok (prog u) c w (holder = Some u) (fin u) (Inside ss) (u \<in> set log)"
    using core_block [OF core, of u] ph by simp
  with active w have h: "holder = Some u" and m: "u \<notin> set log" and wf: "wf_body ss"
    and eq: "rest_equiv (prog u) c ss d" by auto
  have "snd (uow (body_tx (prog u)) c) = d"
    using eq p by (auto simp: rest_equiv_def split: option.splits)
  then have "d = serial prog d0 (log @ [u])" using core_rest [OF core] by (simp add: serial_snoc)
  moreover have "block_ok (prog u) d None False f p True" using p wf by auto
  ultimately show ?thesis
    using core_step [OF core, of None None d u f p "log @ [u]"] h m core_rest [OF core] by simp
qed

section \<open>What the methods do to the state\<close>

definition view :: "uow_state \<Rightarrow> bool \<times> db \<times> db option \<times> (nat \<Rightarrow> bool) \<times> (nat \<Rightarrow> bool)" where
  "view us = (us_locked us, cn_committed (us_conn us), cn_work (us_conn us),
     \<lambda>u. uo_lock_held (us_objs us u), \<lambda>u. uo_finalized (us_objs us u))"

lemmas uow_method_defs = uow_aenter_start_def uow_aenter_locked_def uow_aexit_def uow_commit_def
  finalize_with_def best_effort_rollback_def conn_begin_def conn_commit_def conn_rollback_def
  do_commit_def release_lock_def set_obj_def driver_error_def cancelled_def uow_error_def

lemma view_aenter_start: "uow_aenter_start u us = (Inr x, us') \<Longrightarrow> view us' = view us"
  by (auto simp: view_def uow_method_defs fun_eq_iff split: if_splits)

lemma view_acquire:
  assumes "uow_aenter_locked fb u us = (Inr x, us')" and "fb \<noteq> Cancelled" and "view us = (False, c, None, h, f)"
  shows "view us' = (True, c, Some c, h(u := True), f)"
  using assms by (cases fb) (auto simp: view_def uow_method_defs Let_def fun_eq_iff split: if_splits)

lemma view_refuse:
  assumes "uow_aenter_locked fb u us = (Inl e, us')" and "fb \<noteq> Cancelled"
    and "view us = (False, c, None, h, f)" and "\<not> h u"
  shows "view us' = view us"
  using assms by (cases fb) (auto simp: view_def uow_method_defs Let_def fun_eq_iff split: if_splits)

lemma view_abort:
  assumes "uow_aexit (Some e) Works Works u us = (r, us')" and "view us = (l, c, w, h, f)" and "h u \<or> f u"
  shows "r = Inr ()" "view us' = (if f u then view us else (False, c, None, h(u := False), f))"
  using assms by (auto simp: view_def uow_method_defs Let_def fun_eq_iff split: if_splits)

lemma view_commit:
  assumes "uow_commit fc u us = (Inr x, us')" and "fc \<noteq> Cancelled"
    and "view us = (l, c, Some d, h, f)" and "h u"
  shows "\<not> f u" "view us' = (False, d, None, h(u := False), f(u := True))"
  using assms
  by (cases fc; auto simp: view_def uow_method_defs Let_def fun_eq_iff split: if_splits)+

lemma view_commit_fails:
  assumes "uow_commit fc u us = (Inl e, us')" and "fc \<noteq> Cancelled"
  shows "view us' = view us"
  using assms by (cases fc) (auto simp: view_def uow_method_defs Let_def fun_eq_iff split: if_splits)

lemma view_leave:
  assumes "uow_aexit None fc Works u us = (r, us')" and "fc \<noteq> Cancelled"
    and "view us = (l, c, Some d, h, f)" and "h u" and "\<not> f u"
  shows "(r = Inr () \<and> view us' = (False, d, None, h(u := False), f)) \<or>
    (\<exists>e. r = Inl e) \<and> view us' = (False, c, None, h(u := False), f)"
  using assms by (cases fc) (auto simp: view_def uow_method_defs Let_def fun_eq_iff split: if_splits)

lemma view_leave_final:
  assumes "uow_aexit None fc Works u us = (r, us')" and "uo_finalized (us_objs us u)"
  shows "r = Inr ()" "us' = us"
  using assms by (simp_all add: uow_aexit_def)

definition uow_inv :: "(nat \<Rightarrow> stmt list) \<Rightarrow> db \<Rightarrow> system \<Rightarrow> bool" where
  "uow_inv prog d0 s \<longleftrightarrow> (\<exists>holder c w fin.
     view (sy_uow s) = (holder \<noteq> None, c, w, \<lambda>u. holder = Some u, fin) \<and>
     core prog d0 holder w c fin (sy_phase s) (sy_log s))"

lemma uow_inv_init: "uow_init d0 s \<Longrightarrow> uow_inv prog d0 s"
  unfolding uow_inv_def
  by (rule exI [of _ None]) (auto simp: uow_init_def view_def core_def serial_def)

lemma uow_invI:
  "view (sy_uow t) = (holder \<noteq> None, c, w, \<lambda>u. holder = Some u, fin) \<Longrightarrow>
   core prog d0 holder w c fin (sy_phase t) (sy_log t) \<Longrightarrow> uow_inv prog d0 t"
  unfolding uow_inv_def by blast

lemma goto_simps [simp]:
  "sy_uow (goto u p us log s) = us" "sy_phase (goto u p us log s) = (sy_phase s)(u := p)"
  "sy_log (goto u p us log s) = sy_log s @ log"
  by (simp_all add: goto_def)

lemma uow_inv_abort:
  assumes view: "view us = (holder \<noteq> None, c, w, \<lambda>u. holder = Some u, fin)"
    and core: "core prog d0 holder w c fin (sy_phase s) (sy_log s)"
    and ph: "sy_phase s u = Inside ss" and exit: "uow_aexit (Some e) Works Works u us = (r, us')"
  shows "uow_inv prog d0 (goto u (Finished (raised_by e r)) us' [] s)"
proof -
  have blk: "block_ok (prog u) c w (holder = Some u) (fin u) (Inside ss) (u \<in> set (sy_log s))"
    using core_block [OF core, of u] ph by simp
  then have hf: "holder = Some u \<or> fin u" by (auto split: if_splits)
  note eff = view_abort [OF exit view hf]
  have r: "raised_by e r = Inl e" by (simp add: eff(1) raised_by_def)
  show ?thesis
  proof (cases "fin u")
    case True
    have "core prog d0 holder w c fin ((sy_phase s)(u := Finished (Inl e))) (sy_log s)"
      using core_same [OF core] True blk by auto
    with eff(2) True view r show ?thesis by (intro uow_invI [where holder = holder]) auto
  next
    case False
    note abort = core_abort [OF core ph False]
    have "(\<lambda>v. holder = Some v)(u := False) = (\<lambda>v. None = Some v)"
      using abort(1) by (auto simp: fun_eq_iff)
    with eff(2) False abort(2) r show ?thesis by (intro uow_invI [where holder = None]) auto
  qed
qed

lemma holder_released: "holder = Some u \<Longrightarrow> (\<lambda>v. holder = Some v)(u := False) = (\<lambda>v. None = Some v)"
  by (auto simp: fun_eq_iff)

lemma uow_inv_commit:
  assumes view: "view us = (holder \<noteq> None, c, w, \<lambda>u. holder = Some u, fin)"
    and core: "core prog d0 holder w c fin (sy_phase s) (sy_log s)"
    and ph: "sy_phase s u = Inside (Commit # ss)" and fc: "fc \<noteq> Cancelled"
    and com: "uow_commit fc u us = (Inr x, us')"
  shows "uow_inv prog d0 (goto u (Inside ss) us' [u] s)"
proof -
  have blk: "block_ok (prog u) c w (holder = Some u) (fin u) (Inside (Commit # ss)) (u \<in> set (sy_log s))"
    using core_block [OF core, of u] ph by simp
  have fin: "\<not> fin u" using blk by (auto split: if_splits)
  then obtain d where w: "w = Some d" and h: "holder = Some u" using blk by auto
  note eff = view_commit [OF com fc view [unfolded w]]
  have "core prog d0 None None d (fin(u := True)) ((sy_phase s)(u := Inside ss)) (sy_log s @ [u])"
    by (rule core_commit [OF core ph fin w]) simp
  with eff(2) h holder_released [OF h] show ?thesis by (intro uow_invI [where holder = None]) auto
qed

lemma uow_inv_leave:
  assumes view: "view us = (holder \<noteq> None, c, w, \<lambda>u. holder = Some u, fin)"
    and core: "core prog d0 holder w c fin (sy_phase s) (sy_log s)"
    and ph: "sy_phase s u = Inside []" and fc: "fc \<noteq> Cancelled"
    and exit: "uow_aexit None fc Works u us = (r, us')"
  shows "uow_inv prog d0 (goto u (Finished r) us'
    (if uo_finalized (us_objs us u) \<or> r \<noteq> Inr () then [] else [u]) s)"
proof -
  have blk: "block_ok (prog u) c w (holder = Some u) (fin u) (Inside []) (u \<in> set (sy_log s))"
    using core_block [OF core, of u] ph by simp
  have fin_eq: "uo_finalized (us_objs us u) = fin u" using view by (auto simp: view_def)
  show ?thesis
  proof (cases "fin u")
    case True
    then have "core prog d0 holder w c fin ((sy_phase s)(u := Finished (Inr ()))) (sy_log s)"
      using core_same [OF core] blk by auto
    then show ?thesis
      using view_leave_final [OF exit] fin_eq True view by (intro uow_invI [where holder = holder]) auto
  next
    case False
    then obtain d where w: "w = Some d" and h: "holder = Some u" using blk by auto
    from view_leave [OF exit fc view [unfolded w]] h False
    consider (ok) "r = Inr ()" "view us' = (False, d, None, (\<lambda>v. holder = Some v)(u := False), fin)"
      | (failed) e where "r = Inl e" "view us' = (False, c, None, (\<lambda>v. holder = Some v)(u := False), fin)"
      by auto
    then show ?thesis
    proof cases
      case ok
      have "core prog d0 None None d (fin(u := False)) ((sy_phase s)(u := Finished (Inr ())))
          (sy_log s @ [u])"
        by (rule core_commit [OF core ph False w]) simp
      with ok fin_eq False holder_released [OF h] fun_upd_idem [of fin u False] show ?thesis
        by (intro uow_invI [where holder = None]) auto
    next
      case failed
      with core_abort(2) [OF core ph False] holder_released [OF h] show ?thesis
        by (intro uow_invI [where holder = None]) auto
    qed
  qed
qed

lemma uow_inv_step:
  assumes "uow_inv prog d0 s" and wf: "\<And>u. wf_body (prog u)" and "uow_step prog s t"
  shows "uow_inv prog d0 t"
proof -
  obtain holder c w fin where view: "view (sy_uow s) = (holder \<noteq> None, c, w, \<lambda>u. holder = Some u, fin)"
    and core: "core prog d0 holder w c fin (sy_phase s) (sy_log s)"
    using assms(1) unfolding uow_inv_def by blast
  have work: "work s = w" using view by (simp add: work_def view_def)
  from assms(3) show ?thesis
  proof (cases rule: uow_stepE)
    case (enter u us)
    have "core prog d0 holder w c fin ((sy_phase s)(u := Waiting)) (sy_log s)"
      using core_same [OF core, of u Waiting] core_block [OF core, of u] enter(2) by simp
    with view_aenter_start [OF enter(3)] view enter(1) show ?thesis
      by (intro uow_invI [where holder = holder]) auto
  next
    case (acquire u fb us)
    have none: "holder = None" "w = None"
      using acquire(3) view core_rest [OF core] by (auto simp: view_def)
    note eff = view_acquire [OF acquire(5,4), of c "\<lambda>u. holder = Some u" fin]
    have "rest_equiv (prog u) c (prog u) c" by (simp add: rest_equiv_def uow_def)
    then have "core prog d0 (Some u) (Some c) c (fin(u := False)) ((sy_phase s)(u := Inside (prog u))) (sy_log s)"
      using core_step [OF core, of "Some u" "Some c" c u False "Inside (prog u)" "sy_log s"] none
        core_block [OF core, of u] core_rest [OF core] acquire(2) wf by simp
    moreover have "fin(u := False) = fin"
      using core_block [OF core, of u] acquire(2) by (simp add: fun_upd_idem_iff)
    ultimately show ?thesis
      using eff view none acquire(1) by (intro uow_invI [where holder = "Some u"]) (auto simp: fun_eq_iff)
  next
    case (refuse u fb e us)
    have none: "holder = None" "w = None"
      using refuse(3) view core_rest [OF core] by (auto simp: view_def)
    have "view us = view (sy_uow s)"
      by (rule view_refuse [OF refuse(5,4), of c "\<lambda>u. holder = Some u" fin]) (use view none in auto)
    moreover have "core prog d0 holder w c fin ((sy_phase s)(u := Finished (Inl e))) (sy_log s)"
      using core_same [OF core, of u "Finished (Inl e)"] core_block [OF core, of u] refuse(2) by simp
    ultimately show ?thesis
      using view refuse(1) by (intro uow_invI [where holder = holder]) auto
  next
    case (exec u f ss d d')
    have blk: "block_ok (prog u) c w (holder = Some u) (fin u) (Inside (Exec f # ss)) (u \<in> set (sy_log s))"
      using core_block [OF core, of u] exec(2) by simp
    then have h: "holder = Some u" "\<not> fin u" by (auto split: if_splits)
    have "block_ok (prog u) c (Some d') True False (Inside ss) (u \<in> set (sy_log s))"
      using blk h exec(3,4) work by (auto simp: rest_equiv_def)
    then have "core prog d0 holder (Some d') c (fin(u := False)) ((sy_phase s)(u := Inside ss)) (sy_log s)"
      using core_step [OF core, of holder "Some d'" c u False "Inside ss" "sy_log s"] h core_rest [OF core]
      by simp
    moreover have "fin(u := False) = fin" using h by (simp add: fun_upd_idem_iff)
    moreover have "view (set_work d' (sy_uow s)) = (holder \<noteq> None, c, Some d', \<lambda>u. holder = Some u, fin)"
      using view by (simp add: view_def set_work_def)
    ultimately show ?thesis using exec(1) by (intro uow_invI [where holder = holder]) auto
  next
    case (exec_raises u f ss d e r us)
    then show ?thesis using uow_inv_abort [OF view core] by simp
  next
    case (raises u e ss r us)
    then show ?thesis using uow_inv_abort [OF view core] by simp
  next
    case (commit u ss fc us)
    then show ?thesis using uow_inv_commit [OF view core] by simp
  next
    case (commit_raises u ss fc e us r us')
    then show ?thesis
      using uow_inv_abort [OF _ core, of us u] view_commit_fails [of fc u "sy_uow s" e us] view by simp
  next
    case (leave u fc r us)
    then show ?thesis using uow_inv_leave [OF view core] by simp
  next
    case (nested u v ss r)
    have "core prog d0 holder w c fin ((sy_phase s)(u := Inside ss)) (sy_log s)"
      using core_same [OF core, of u "Inside ss"] core_block [OF core, of u] nested(2)
      by (auto simp: rest_equiv_def split: if_splits)
    with view nested(1) show ?thesis by (intro uow_invI [where holder = holder]) auto
  qed
qed

interpretation units: inductive_invariant "uow_init d0"
  "\<lambda>s t. (\<forall>u. wf_body (prog u)) \<and> uow_step prog s t" "uow_inv prog d0" for prog d0
  by unfold_locales (auto intro: uow_inv_init uow_inv_step)

lemma uow_inv_reachable:
  assumes "reachable (uow_init d0) (uow_step prog) s" and "\<And>u. wf_body (prog u)"
  shows "uow_inv prog d0 s"
proof -
  have "(\<lambda>s t. (\<forall>u. wf_body (prog u)) \<and> uow_step prog s t) = uow_step prog"
    using assms(2) by (simp add: fun_eq_iff)
  with assms(1) show ?thesis using units.inv_reachable [of d0 prog s] by simp
qed

section \<open>States in which nothing is entered any more\<close>

definition not_entered :: "phase \<Rightarrow> bool" where
  "not_entered p \<longleftrightarrow> p = Idle \<or> p = Waiting"

text \<open>
  The lock is taken, and every open block waits for another one that has not been entered.
\<close>

definition stuck :: "system \<Rightarrow> bool" where
  "stuck s \<longleftrightarrow> us_locked (sy_uow s) \<and>
     (\<forall>u ss. sy_phase s u = Inside ss \<longrightarrow>
        (if uo_finalized (us_objs (sy_uow s) u) then list_all quiet_stmt ss
         else \<exists>v ss'. ss = Nested v # ss' \<and> not_entered (sy_phase s v)))"

lemma stuck_block:
  "stuck s \<Longrightarrow> sy_phase s u = Inside ss \<Longrightarrow>
   if uo_finalized (us_objs (sy_uow s) u) then list_all quiet_stmt ss
   else \<exists>v ss'. ss = Nested v # ss' \<and> not_entered (sy_phase s v)"
  unfolding stuck_def by blast

lemma stuck_goto:
  assumes stuck: "stuck s" and us: "us_locked us = us_locked (sy_uow s)"
    "\<And>v. uo_finalized (us_objs us v) = uo_finalized (us_objs (sy_uow s) v)"
    and p: "not_entered (sy_phase s u) \<longrightarrow> not_entered p"
    "\<And>ss. p = Inside ss \<Longrightarrow> uo_finalized (us_objs (sy_uow s) u) \<and> list_all quiet_stmt ss"
  shows "stuck (goto u p us log s) \<and>
    (\<forall>k. not_entered (sy_phase s k) \<longrightarrow> not_entered (sy_phase (goto u p us log s) k))"
proof -
  have keep: "not_entered (sy_phase (goto u p us log s) k)" if "not_entered (sy_phase s k)" for k
    using that p(1) by (cases "k = u") simp_all
  have "stuck (goto u p us log s)"
    unfolding stuck_def
  proof (intro conjI allI impI)
    show "us_locked (sy_uow (goto u p us log s))" using stuck us(1) by (simp add: stuck_def)
    fix k ss assume k: "sy_phase (goto u p us log s) k = Inside ss"
    show "if uo_finalized (us_objs (sy_uow (goto u p us log s)) k) then list_all quiet_stmt ss
      else \<exists>v ss'. ss = Nested v # ss' \<and> not_entered (sy_phase (goto u p us log s) v)"
    proof (cases "k = u")
      case True
      then show ?thesis using p(2) [of ss] k us(2) by simp
    next
      case False
      then have "sy_phase s k = Inside ss" using k by simp
      from stuck_block [OF stuck this] show ?thesis
        using keep us(2) [of k] unfolding goto_simps by (metis (full_types))
    qed
  qed
  with keep show ?thesis by blast
qed

lemma stuck_step:
  assumes "stuck s" and "uow_step prog s t"
  shows "stuck t \<and> committed t = committed s \<and>
    (\<forall>u. not_entered (sy_phase s u) \<longrightarrow> not_entered (sy_phase t u))"
  using assms(2)
proof (cases rule: uow_stepE)
  case (enter u us)
  have view: "view us = view (sy_uow s)" by (rule view_aenter_start [OF enter(3)])
  then have us: "us_locked us = us_locked (sy_uow s)"
    "uo_finalized (us_objs us v) = uo_finalized (us_objs (sy_uow s) v)" for v
    by (simp_all add: view_def fun_eq_iff)
  have "committed t = committed s" using enter(1) view by (simp add: view_def committed_def)
  with stuck_goto [OF assms(1) us, of u Waiting "[]"] enter(1) show ?thesis
    by (simp add: not_entered_def [of Waiting])
next
  case (exec u f ss d d')
  then show ?thesis using stuck_block [OF assms(1) exec(2)] by (simp split: if_splits)
next
  case (exec_raises u f ss d e r us)
  then show ?thesis using stuck_block [OF assms(1) exec_raises(2)] by (simp split: if_splits)
next
  case (raises u e ss r us)
  have "uo_finalized (us_objs (sy_uow s) u)"
    using stuck_block [OF assms(1) raises(2)] by (simp split: if_splits)
  then have "us = sy_uow s" using raises(3) by (simp add: uow_aexit_def)
  then show ?thesis
    using stuck_goto [OF assms(1) refl refl, of u "Finished (raised_by e r)" "[]"] raises(1,2)
    by (simp add: committed_def not_entered_def [of "Inside _"])
next
  case (commit u ss fc us)
  then show ?thesis using stuck_block [OF assms(1) commit(2)] by (simp split: if_splits)
next
  case (commit_raises u ss fc e us r us')
  then show ?thesis using stuck_block [OF assms(1) commit_raises(2)] by (simp split: if_splits)
next
  case (leave u fc r us)
  have fin: "uo_finalized (us_objs (sy_uow s) u)"
    using stuck_block [OF assms(1) leave(2)] by (simp split: if_splits)
  then have "us = sy_uow s" using leave(4) by (simp add: uow_aexit_def)
  then show ?thesis
    using stuck_goto [OF assms(1) refl refl, of u "Finished r" "[]"] leave(1,2) fin
    by (simp add: committed_def not_entered_def [of "Inside _"])
next
  case (nested u v ss r)
  have "uo_finalized (us_objs (sy_uow s) u) \<and> list_all quiet_stmt ss"
    using stuck_block [OF assms(1) nested(2)] nested(3)
    by (auto simp: not_entered_def split: if_splits)
  then show ?thesis
    using stuck_goto [OF assms(1) refl refl, of u "Inside ss" "[]"] nested(1,2)
    by (simp add: committed_def not_entered_def [of "Inside _"])
qed (use assms(1) in \<open>simp_all add: stuck_def\<close>)

lemma stuck_steps:
  "(uow_step prog)\<^sup>*\<^sup>* s t \<Longrightarrow> stuck s \<Longrightarrow> stuck t \<and> committed t = committed s \<and>
    (\<forall>u. not_entered (sy_phase s u) \<longrightarrow> not_entered (sy_phase t u))"
proof (induction rule: rtranclp_induct)
  case (step t t')
  then show ?case using stuck_step [of t prog t'] by metis
qed simp

lemma nested_stuck:
  assumes "reachable (uow_init d0) (uow_step prog) s" and "\<And>u. wf_body (prog u)"
    and "sy_phase s u = Inside (Nested v # ss)" and "\<not> uo_finalized (us_objs (sy_uow s) u)"
    and "not_entered (sy_phase s v)"
  shows "stuck s"
proof -
  obtain holder c w fin where view: "view (sy_uow s) = (holder \<noteq> None, c, w, \<lambda>u. holder = Some u, fin)"
    and core: "core prog d0 holder w c fin (sy_phase s) (sy_log s)"
    using uow_inv_reachable [OF assms(1,2)] unfolding uow_inv_def by blast
  have eqs: "us_locked (sy_uow s) = (holder \<noteq> None)" "uo_finalized (us_objs (sy_uow s) k) = fin k" for k
    using view by (auto simp: view_def fun_eq_iff)
  have h: "holder = Some u" using core_block [OF core, of u] assms(3,4) eqs by simp
  have "k = u" if "sy_phase s k = Inside ss'" "\<not> fin k" for k ss'
    using core_block [OF core, of k] that h by simp
  moreover have "list_all quiet_stmt ss'" if "sy_phase s k = Inside ss'" "fin k" for k ss'
    using core_block [OF core, of k] that by simp
  ultimately show "stuck s"
    unfolding stuck_def eqs using h assms(3,5) by (metis option.distinct(1) phase.inject(1))
qed

section \<open>Two reachable states\<close>

definition initial_system :: "db \<Rightarrow> system" where
  "initial_system d = \<lparr> sy_uow = \<lparr> us_locked = False, us_conn = \<lparr> cn_committed = d, cn_work = None \<rparr>,
      us_objs = (\<lambda>u. \<lparr> uo_entered = False, uo_finalized = False, uo_lock_held = False \<rparr>) \<rparr>,
     sy_phase = (\<lambda>u. Idle), sy_log = [] \<rparr>"

definition waiting_system :: "db \<Rightarrow> system" where
  "waiting_system d = goto 0 Waiting (snd (uow_aenter_start 0 (sy_uow (initial_system d)))) []
     (initial_system d)"

definition open_system :: "stmt list \<Rightarrow> db \<Rightarrow> system" where
  "open_system body d = goto 0 (Inside body)
     (snd (uow_aenter_locked Works 0 (sy_uow (waiting_system d)))) [] (waiting_system d)"

lemma initial_reachable: "reachable (uow_init d) (uow_step prog) (initial_system d)"
  by (rule reachable_init) (simp add: uow_init_def initial_system_def)

lemma waiting_reachable: "reachable (uow_init d) (uow_step prog) (waiting_system d)"
  unfolding waiting_system_def
  by (rule reachable_step [OF initial_reachable], rule uow_step.enter)
     (simp_all add: initial_system_def uow_aenter_start_def)

lemma waiting_simps [simp]:
  "sy_phase (waiting_system d) u = (if u = 0 then Waiting else Idle)"
  "us_locked (sy_uow (waiting_system d)) = False" "committed (waiting_system d) = d"
  by (simp_all add: waiting_system_def initial_system_def uow_aenter_start_def set_obj_def committed_def)

lemma open_reachable: "reachable (uow_init d) (uow_step prog) (open_system (prog 0) d)"
  unfolding open_system_def
  by (rule reachable_step [OF waiting_reachable], rule uow_step.acquire [where fb = Works])
     (simp_all add: waiting_system_def initial_system_def uow_method_defs Let_def)

lemma open_simps [simp]:
  "sy_phase (open_system body d) u = (if u = 0 then Inside body else Idle)"
  "us_locked (sy_uow (open_system body d)) = True" "committed (open_system body d) = d"
  "uo_finalized (us_objs (sy_uow (open_system body d)) u) = False"
  by (simp_all add: open_system_def waiting_system_def initial_system_def uow_method_defs Let_def committed_def)

section \<open>Properties\<close>

text \<open>
  C17: whatever the interleaving of \<open>async with\<close> blocks, statements that raise, failing
  BEGINs and COMMITs: at most one block holds the lock, the lock is held exactly while some
  block is open, every block that ended normally was committed, each block commits at most
  once, and the committed database is the one that running the committed blocks one after the
  other, in the order of their commits, as the transactions of the model gives.
\<close>

theorem uow_serializable:
  assumes "reachable (uow_init d0) (uow_step prog) s" and "\<And>u. wf_body (prog u)"
  shows "committed s = serial prog d0 (sy_log s) \<and> distinct (sy_log s) \<and>
    (\<forall>u. sy_phase s u = Finished (Inr ()) \<longrightarrow> u \<in> set (sy_log s)) \<and>
    (\<forall>u v. uo_lock_held (us_objs (sy_uow s) u) \<and> uo_lock_held (us_objs (sy_uow s) v) \<longrightarrow> u = v) \<and>
    (us_locked (sy_uow s) \<longleftrightarrow>
       (\<exists>u ss. sy_phase s u = Inside ss \<and> \<not> uo_finalized (us_objs (sy_uow s) u)))"
proof -
  obtain holder c w fin where view: "view (sy_uow s) = (holder \<noteq> None, c, w, \<lambda>u. holder = Some u, fin)"
    and core: "core prog d0 holder w c fin (sy_phase s) (sy_log s)"
    using uow_inv_reachable [OF assms] unfolding uow_inv_def by blast
  have eqs: "committed s = c" "us_locked (sy_uow s) = (holder \<noteq> None)"
    "uo_lock_held (us_objs (sy_uow s) u) = (holder = Some u)"
    "uo_finalized (us_objs (sy_uow s) u) = fin u" for u
    using view by (auto simp: view_def committed_def fun_eq_iff)
  have blk: "block_ok (prog u) c w (holder = Some u) (fin u) (sy_phase s u) (u \<in> set (sy_log s))" for u
    by (rule core_block [OF core])
  have "\<exists>ss. sy_phase s u = Inside ss \<and> \<not> fin u" if "holder = Some u" for u
    using blk [of u] that by (cases "sy_phase s u") (auto split: if_splits)
  moreover have "holder = Some u" if "sy_phase s u = Inside ss" "\<not> fin u" for u ss
    using blk [of u] that by simp
  ultimately have "(holder \<noteq> None) = (\<exists>u ss. sy_phase s u = Inside ss \<and> \<not> fin u)" by blast
  moreover have "u \<in> set (sy_log s)" if "sy_phase s u = Finished (Inr ())" for u
    using blk [of u] that by simp
  ultimately show ?thesis using core_rest [OF core] unfolding eqs by auto
qed

theorem uow_serializable_witness:
  "us_locked (sy_uow (open_system [Commit] empty_db)) \<and> committed (open_system [Commit] empty_db) = empty_db"
  using uow_serializable [OF open_reachable [of empty_db "\<lambda>u. [Commit]"]] by auto

text \<open>
  A cancellation that strikes while BEGIN is awaited leaves the lock taken although the
  block was never entered: from then on no waiting or later block is ever entered and the
  database never changes again.
\<close>

theorem begin_cancelled_leaks_lock:
  assumes "reachable (uow_init d0) (uow_step prog) s" and "\<And>u. wf_body (prog u)"
    and "sy_phase s u = Waiting" and "\<not> us_locked (sy_uow s)"
    and "uow_aenter_locked Cancelled u (sy_uow s) = (r, us)"
    and "(uow_step prog)\<^sup>*\<^sup>* (goto u (Finished r) us [] s) t"
  shows "r = Inl cancelled \<and> us_locked (sy_uow t) \<and> committed t = committed s \<and>
    (\<forall>v. v \<noteq> u \<and> not_entered (sy_phase s v) \<longrightarrow> not_entered (sy_phase t v))"
proof -
  obtain holder c w fin where view: "view (sy_uow s) = (holder \<noteq> None, c, w, \<lambda>u. holder = Some u, fin)"
    and core: "core prog d0 holder w c fin (sy_phase s) (sy_log s)"
    using uow_inv_reachable [OF assms(1,2)] unfolding uow_inv_def by blast
  have none: "holder = None" "w = None"
    using assms(4) view core_rest [OF core] by (auto simp: view_def)
  have us: "r = Inl cancelled" "us_locked us" "cn_committed (us_conn us) = committed s"
    "uo_finalized (us_objs us v) = uo_finalized (us_objs (sy_uow s) v)" for v
    using assms(5) view none
    by (auto simp: view_def uow_method_defs Let_def committed_def split: if_splits)
  have "uo_finalized (us_objs (sy_uow s) v) \<and> list_all quiet_stmt ss" if "sy_phase s v = Inside ss" for v ss
    using core_block [OF core, of v] that none view by (auto simp: view_def fun_eq_iff split: if_splits)
  then have "stuck (goto u (Finished r) us [] s)"
    using us by (auto simp: stuck_def split: if_splits)
  from stuck_steps [OF assms(6) this] show ?thesis
    using us by (auto simp: stuck_def committed_def)
qed

theorem begin_cancelled_leaks_lock_witness:
  "\<exists>us. uow_aenter_locked Cancelled 0 (sy_uow (waiting_system empty_db)) = (Inl cancelled, us) \<and>
     us_locked (sy_uow (goto 0 (Finished (Inl cancelled)) us [] (waiting_system empty_db)))"
proof -
  obtain r us where enter: "uow_aenter_locked Cancelled 0 (sy_uow (waiting_system empty_db)) = (r, us)"
    by (cases "uow_aenter_locked Cancelled 0 (sy_uow (waiting_system empty_db))")
  from begin_cancelled_leaks_lock [of empty_db "\<lambda>u. []", OF waiting_reachable _ _ _ enter rtranclp.rtrancl_refl]
  have "r = Inl cancelled \<and> us_locked (sy_uow (goto 0 (Finished r) us [] (waiting_system empty_db)))"
    by auto
  with enter show ?thesis by auto
qed

text \<open>
  A block that, while it holds the lock, awaits another block that has not been entered
  yet never ends: the other one, and every block after it, waits for ever.
\<close>

lemma nested_block_deadlocks:
  assumes "reachable (uow_init d0) (uow_step prog) s" and "\<And>u. wf_body (prog u)"
    and "sy_phase s u = Inside (Nested v # ss)" and "\<not> uo_finalized (us_objs (sy_uow s) u)"
    and "not_entered (sy_phase s v)" and "(uow_step prog)\<^sup>*\<^sup>* s t"
  shows "us_locked (sy_uow t) \<and> committed t = committed s \<and>
    (\<forall>k. not_entered (sy_phase s k) \<longrightarrow> not_entered (sy_phase t k))"
  using stuck_steps [OF assms(6) nested_stuck [OF assms(1-5)]] by (simp add: stuck_def)

end
