(* ===== verification/Auth.thy ===== *)
theory Auth
  imports Repo_User Repo_Audit World Unit_Of_Work
begin

text \<open>
  Passwords (\<open>Password\<close>, \<open>Argon2PasswordHasher.verify\<close>), \<open>LoginUseCase\<close>,
  \<open>LogoutUseCase\<close>, the session and CSRF middleware and the administrator guard of
  \<open>interfaces/rest/app.py\<close>.  The Argon2 library, SHA-256 and the random token are the
  record \<open>auth\<close>.

  The lemmas say exactly when a login succeeds and what it stores, that its failures look
  alike, when a session authenticates a request, and that a request with an unknown cookie
  whose handler opens a unit of work never ends.
\<close>

section \<open>Passwords\<close>

definition password_post_init :: "string \<Rightarrow> exn + string" where
  "password_post_init s = check (s = []) value_error (Inr s)"

definition password_repr :: "string \<Rightarrow> string" where
  "password_repr s = ''<Password>''"

text \<open>The Argon2 library on an encoded hash and a plaintext.\<close>

datatype argon2_result = Verified | Mismatch | InvalidHash

record auth =
  au_argon2_verify :: "string \<Rightarrow> string \<Rightarrow> argon2_result"
  au_argon2_hash :: "string \<Rightarrow> string"
  au_sha256_hex :: "string \<Rightarrow> string"
  au_decoy_hash :: string
  au_token :: string

definition password_verify :: "auth \<Rightarrow> string \<Rightarrow> string \<Rightarrow> exn + bool" where
  "password_verify au password encoded =
     (if encoded = [] then Inr False
      else case au_argon2_verify au encoded password of
        Verified \<Rightarrow> Inr True | Mismatch \<Rightarrow> Inr False | InvalidHash \<Rightarrow> Inl value_error)"

section \<open>Login\<close>

definition auth_error :: exn where
  "auth_error = PyExc AuthenticationError ''invalid credentials''"

definition user_resource :: "user_id \<Rightarrow> string" where
  "user_resource i = ''user:'' @ show_int i"

definition login_failed_event :: "int \<Rightarrow> string \<Rightarrow> string \<Rightarrow> user_id option \<Rightarrow> audit_event" where
  "login_failed_event now email reason uid =
     \<lparr> ae_timestamp = utc now, ae_action = LOGIN_FAILED, ae_actor = ''username:'' @ email,
       ae_resource = (case uid of None \<Rightarrow> ''username:'' @ email | Some i \<Rightarrow> user_resource i),
       ae_outcome = FAILURE, ae_details = [(''email'', JStr email), (''reason'', JStr reason)],
       ae_audit_id = None \<rparr>"

definition audited_refusal :: "audit_event \<Rightarrow> 'a tx" where
  "audited_refusal ev =
     tx_bind (tx_lift (audit_event_post_init ev)) (\<lambda>ev.
     tx_then (audit_record ev) (tx_commit_raise auth_error))"

definition login_event :: "int \<Rightarrow> string \<Rightarrow> user_id \<Rightarrow> audit_event" where
  "login_event now email i =
     \<lparr> ae_timestamp = utc now, ae_action = LOGIN, ae_actor = user_resource i,
       ae_resource = user_resource i, ae_outcome = SUCCESS, ae_details = [(''email'', JStr email)],
       ae_audit_id = None \<rparr>"

definition new_session :: "auth \<Rightarrow> int \<Rightarrow> user_id \<Rightarrow> session" where
  "new_session au now i = \<lparr> ses_token_hash = au_sha256_hex au (au_token au), ses_user_id = i,
     ses_created_at = utc now, ses_last_activity_at = utc now \<rparr>"

definition login_tx :: "auth \<Rightarrow> int \<Rightarrow> string \<Rightarrow> string \<Rightarrow> user_id tx" where
  "login_tx au now email password =
     tx_bind (user_get_by_email email) (\<lambda>uo. case uo of
       None \<Rightarrow> tx_bind (tx_lift (password_verify au password (au_decoy_hash au))) (\<lambda>_.
         audited_refusal (login_failed_event now email ''unknown_email'' None))
     | Some u \<Rightarrow>
         if user_disabled u
         then tx_bind (tx_lift (password_verify au password (user_password_hash u))) (\<lambda>_.
           audited_refusal (login_failed_event now email ''account_disabled'' (user_user_id u)))
         else tx_bind (tx_lift (password_verify au password (user_password_hash u))) (\<lambda>good.
           if \<not> good
           then audited_refusal (login_failed_event now email ''bad_password'' (user_user_id u))
           else case user_user_id u of
             None \<Rightarrow> tx_raise (PyExc RuntimeError [])
           | Some i \<Rightarrow>
               tx_bind (tx_lift (session_post_init (new_session au now i))) (\<lambda>s.
               tx_bind (tx_lift (audit_event_post_init (login_event now email i))) (\<lambda>ev.
               tx_then (audit_record ev) (tx_then (session_save s) (tx_return i))))))"

definition login :: "auth \<Rightarrow> int \<Rightarrow> string \<Rightarrow> string \<Rightarrow> world \<Rightarrow> (exn + string \<times> user_id) \<times> world" where
  "login au now email password w = (case in_uow (login_tx au now email password) w of
     (Inl e, w') \<Rightarrow> (Inl e, w') | (Inr i, w') \<Rightarrow> (Inr (au_token au, i), w'))"

section \<open>Logout\<close>

definition logout_event :: "int \<Rightarrow> user_id \<Rightarrow> audit_event" where
  "logout_event now i =
     \<lparr> ae_timestamp = utc now, ae_action = LOGOUT, ae_actor = user_resource i,
       ae_resource = user_resource i, ae_outcome = SUCCESS, ae_details = [(''user_id'', JInt i)],
       ae_audit_id = None \<rparr>"

definition logout_tx :: "string \<Rightarrow> int \<Rightarrow> user_id \<Rightarrow> unit tx" where
  "logout_tx token_hash now i =
     tx_bind (tx_lift (audit_event_post_init (logout_event now i))) (\<lambda>ev.
     tx_then (audit_record ev) (session_delete token_hash))"

definition logout :: "auth \<Rightarrow> int \<Rightarrow> string \<Rightarrow> user_id \<Rightarrow> world \<Rightarrow> (exn + unit) \<times> world" where
  "logout au now token i = in_uow (logout_tx (au_sha256_hex au token) now i)"

section \<open>Sessions of requests\<close>

text \<open>
  \<open>SessionAuthMiddleware.dispatch\<close> up to \<open>call_next\<close>: the user of the request, if any.
  An explicit commit followed by the end of the block is a commit.
\<close>

definition session_lookup_tx :: "int \<Rightarrow> int \<Rightarrow> string \<Rightarrow> user_id option tx" where
  "session_lookup_tx idle_timeout now token_hash =
     tx_bind (session_get token_hash) (\<lambda>so. case so of
       None \<Rightarrow> tx_return None
     | Some s \<Rightarrow>
         if idle_timeout \<le> now - dt_us (ses_last_activity_at s)
         then tx_then (session_delete token_hash) (tx_return None)
         else tx_then (session_touch token_hash (utc now)) (tx_return (Some (ses_user_id s))))"

definition session_dispatch ::
  "auth \<Rightarrow> int \<Rightarrow> int \<Rightarrow> string option \<Rightarrow> world \<Rightarrow> (exn + user_id option) \<times> world" where
  "session_dispatch au idle_timeout now cookie w = (case cookie of
     None \<Rightarrow> (Inr None, w)
   | Some token \<Rightarrow> in_uow (session_lookup_tx idle_timeout now (au_sha256_hex au token)) w)"

text \<open>\<open>require_session\<close> and \<open>require_admin_factory\<close>: the user, or the HTTP status.\<close>

definition require_session :: "user_id option \<Rightarrow> nat + user_id" where
  "require_session u = (case u of None \<Rightarrow> Inl 401 | Some i \<Rightarrow> Inr i)"

definition require_admin :: "user_id option \<Rightarrow> world \<Rightarrow> (exn + (nat + user_id)) \<times> world" where
  "require_admin u w = (case require_session u of
     Inl status \<Rightarrow> (Inr (Inl status), w)
   | Inr i \<Rightarrow> (case in_uow (user_get_by_id i) w of
        (Inl e, w') \<Rightarrow> (Inl e, w')
      | (Inr None, w') \<Rightarrow> (Inr (Inl 401), w')
      | (Inr (Some usr), w') \<Rightarrow>
          (Inr (if user_disabled usr then Inl 401
                else if \<not> user_is_admin usr then Inl 403 else Inr i), w')))"

definition state_changing_methods :: "string set" where
  "state_changing_methods = {''POST'', ''PATCH'', ''PUT'', ''DELETE''}"

definition csrf_exempt_paths :: "string set" where
  "csrf_exempt_paths = {''/login''}"

definition csrf_dispatch :: "string \<Rightarrow> string \<Rightarrow> string option \<Rightarrow> string option \<Rightarrow> nat option" where
  "csrf_dispatch meth path cookie header =
     (if meth \<in> state_changing_methods \<and> path \<notin> csrf_exempt_paths \<and>
         (cookie = None \<or> header = None \<or> cookie \<noteq> header) then Some 403 else None)"

section \<open>When a login succeeds\<close>

lemma login_events_ok [simp]:
  "audit_event_post_init (login_failed_event now email reason i) = Inr (login_failed_event now email reason i)"
  "audit_event_post_init (login_event now email uid) = Inr (login_event now email uid)"
  "audit_event_post_init (logout_event now uid) = Inr (logout_event now uid)"
  "dt_aware (ae_timestamp (login_failed_event now email reason i))"
  "dt_aware (ae_timestamp (login_event now email uid))" "dt_aware (ae_timestamp (logout_event now uid))"
  by (auto simp: audit_event_post_init_Inr audit_event_ok_def login_failed_event_def login_event_def
      logout_event_def user_resource_def split: option.splits)

lemma audited_refusal_eq:
  "audit_event_post_init ev = Inr ev \<Longrightarrow> dt_aware (ae_timestamp ev) \<Longrightarrow>
   audited_refusal ev d = CommittedRaise auth_error (add_audit ev d)"
  by (simp add: audited_refusal_def tx_bind_def tx_lift_def tx_read_def tx_then_def
      audit_record_event tx_commit_raise_def)

definition credentials_ok :: "auth \<Rightarrow> string \<Rightarrow> string \<Rightarrow> db \<Rightarrow> user_row \<Rightarrow> bool" where
  "credentials_ok au email password d r \<longleftrightarrow> find_row wr_email email (db_users d) = Some r \<and>
     \<not> wr_disabled r \<and> password_verify au password (wr_password_hash r) = Inr True"

lemma row_to_user_fields:
  "row_to_user r = Inr u \<Longrightarrow> user_user_id u = Some (wr_user_id r) \<and> user_disabled u = wr_disabled r \<and>
     user_password_hash u = wr_password_hash r \<and> user_is_admin u = wr_is_admin r"
  by (auto simp: row_to_user_Inr)

lemma login_tx_Done:
  assumes "login_tx au now email password d = Done i d'"
  shows "\<exists>r. credentials_ok au email password d r \<and> i = wr_user_id r \<and>
    session_ok (new_session au now i) \<and>
    d' = db_sessions_update (\<lambda>rows. rows @ [session_row_of (new_session au now i)])
           (add_audit (login_event now email i) d)"
proof -
  obtain uo where get: "opt_row_to_user (find_row wr_email email (db_users d)) = Inr uo"
    using assms by (auto simp: login_tx_def tx_bind_Done user_get_by_email_Done)
  have refusal: "audited_refusal (login_failed_event now email reason j) d1 \<noteq> Done x d2"
    for reason j d1 and x :: 'a and d2
    by (simp add: audited_refusal_eq)
  obtain r u where r: "find_row wr_email email (db_users d) = Some r" and u: "row_to_user r = Inr u"
    and uo: "uo = Some u"
    using get assms
    by (cases "find_row wr_email email (db_users d)")
      (auto simp: opt_row_to_user_Inr login_tx_def tx_bind_Done user_get_by_email_Done tx_lift_Done
        audited_refusal_eq)
  note fields = row_to_user_fields [OF u]
  have "\<not> wr_disabled r" "password_verify au password (wr_password_hash r) = Inr True"
    "session_post_init (new_session au now (wr_user_id r)) = Inr (new_session au now (wr_user_id r))"
    "session_save (new_session au now (wr_user_id r)) (add_audit (login_event now email (wr_user_id r)) d)
       = Done () d'" "i = wr_user_id r"
    using assms get r uo fields
    by (auto simp: login_tx_def tx_bind_Done user_get_by_email_Done tx_lift_Done tx_then_Done
        tx_return_def audited_refusal_eq audit_record_event session_post_init_Inr split: if_splits)
  with r show ?thesis
    by (auto simp: credentials_ok_def session_post_init_Inr session_save_Done)
qed

lemma login_tx_commits:
  assumes "login_tx au now email password d = CommittedRaise e d'"
  shows "e = auth_error \<and> (\<exists>reason i. d' = add_audit (login_failed_event now email reason i) d)"
proof -
  have plain: "plain (tx_bind (tx_lift (session_post_init (new_session au now i))) (\<lambda>s.
      tx_bind (tx_lift (audit_event_post_init (login_event now email i))) (\<lambda>ev.
      tx_then (audit_record ev) (tx_then (session_save s) (tx_return i)))))" for i
    by (intro plain_intro)
  show ?thesis
    using assms plain
    by (auto simp: login_tx_def tx_bind_def user_get_by_email_def tx_read_def tx_lift_def plain_def
        audited_refusal_eq tx_raise_def split: sum.splits option.splits if_splits tx_result.splits)
qed

section \<open>Samples\<close>

definition sample_auth :: auth where
  "sample_auth = \<lparr> au_argon2_verify = (\<lambda>h p. if h = ''h:'' @ p then Verified else Mismatch),
     au_argon2_hash = (\<lambda>p. ''h:'' @ p), au_sha256_hex = (\<lambda>t. replicate 64 (CHR ''0'')),
     au_decoy_hash = ''h:x'', au_token = ''tok'' \<rparr>"

definition sample_account :: "int \<Rightarrow> string \<Rightarrow> bool \<Rightarrow> user_row" where
  "sample_account i email admin = \<lparr> wr_user_id = i, wr_email = email, wr_display_name = ''A'',
     wr_disabled = False, wr_created_at = 1, wr_password_hash = ''h:pw'', wr_is_admin = admin \<rparr>"

definition accounts_world :: "user_row list \<Rightarrow> session_row list \<Rightarrow> world" where
  "accounts_world us ss = \<lparr> w_db = empty_db\<lparr> db_users := us, db_sessions := ss, db_next_user := 9 \<rparr>,
     w_metrics = [], w_tasks = [], w_sent = [], w_reports = [] \<rparr>"

definition sample_session_row :: session_row where
  "sample_session_row = \<lparr> er_token_hash = replicate 64 (CHR ''0''), er_user_id = 1, er_created_at = 5,
     er_last_activity_at = 5 \<rparr>"

section \<open>Properties\<close>

lemma login_outcome:
  "case login au now email password w of
     (Inr (token, i), w') \<Rightarrow> token = au_token au \<and>
       (\<exists>r. credentials_ok au email password (w_db w) r \<and> i = wr_user_id r \<and>
          w' = w\<lparr> w_db := db_sessions_update (\<lambda>rows. rows @ [session_row_of (new_session au now i)])
            (add_audit (login_event now email i) (w_db w)) \<rparr>)
   | (Inl e, w') \<Rightarrow> w' = w \<or> (e = auth_error \<and>
       (\<exists>reason i. w' = w\<lparr> w_db := add_audit (login_failed_event now email reason i) (w_db w) \<rparr>))"
proof (cases "login_tx au now email password (w_db w)")
  case (Done i d)
  then show ?thesis
    using login_tx_Done [OF Done] in_uow_Done [where body = "login_tx au now email password", OF Done]
    by (auto simp: login_def)
next
  case (Raised e)
  then show ?thesis
    using in_uow_Raised [where body = "login_tx au now email password", OF Raised]
    by (simp add: login_def)
next
  case (CommittedRaise e d)
  then show ?thesis
    using login_tx_commits [OF CommittedRaise] by (auto simp: login_def in_uow_def uow_def)
qed

text \<open>
  C18: a login returns only for an enabled user whose stored hash verifies the password; it then
  stores one session for that user, under the hash of the token and not the token, together with
  one LOGIN event.  When it raises, users and sessions are as before, and either nothing changed
  or the error is the one for invalid credentials and exactly one LOGIN_FAILED event was committed.
\<close>

theorem login_result:
  "case login au now email password w of
     (Inr (token, i), w') \<Rightarrow> token = au_token au \<and>
       (\<exists>r. credentials_ok au email password (w_db w) r \<and> i = wr_user_id r \<and>
          w' = w\<lparr> w_db := db_sessions_update (\<lambda>rows. rows @ [session_row_of (new_session au now i)])
            (add_audit (login_event now email i) (w_db w)) \<rparr>)
   | (Inl e, w') \<Rightarrow> w' = w \<or> (e = auth_error \<and>
       (\<exists>reason i. w' = w\<lparr> w_db := add_audit (login_failed_event now email reason i) (w_db w) \<rparr>))"
  by (rule login_outcome)

text \<open>
  An unknown e-mail, a disabled account and a wrong password cannot be told apart by the
  caller: the hash is verified in each case (against the decoy for an unknown e-mail), the same
  exception is raised, and the refusal is in the audit log.
\<close>

theorem login_refusals_alike:
  assumes "case find_row wr_email email (db_users (w_db w)) of
      None \<Rightarrow> password_verify au password (au_decoy_hash au) \<in> range Inr
    | Some r \<Rightarrow> row_to_user r \<in> range Inr \<and>
        (if wr_disabled r then password_verify au password (wr_password_hash r) \<in> range Inr
         else password_verify au password (wr_password_hash r) = Inr False)"
  shows "\<exists>reason i. login au now email password w = (Inl auth_error,
    w\<lparr> w_db := add_audit (login_failed_event now email reason i) (w_db w) \<rparr>)"
proof -
  define refused :: "string \<Rightarrow> user_id option \<Rightarrow> user_id tx_result"
    where "refused reason i = CommittedRaise auth_error
    (add_audit (login_failed_event now email reason i) (w_db w))" for reason and i :: "user_id option"
  have "\<exists>reason i. login_tx au now email password (w_db w) = refused reason i"
  proof (cases "find_row wr_email email (db_users (w_db w))")
    case None
    with assms have "login_tx au now email password (w_db w) = refused ''unknown_email'' None"
      by (auto simp: login_tx_def tx_bind_def user_get_by_email_def opt_row_to_user_def tx_read_def
          tx_lift_def audited_refusal_eq refused_def)
    then show ?thesis by blast
  next
    case (Some r)
    with assms obtain u where u: "row_to_user r = Inr u" by auto
    with assms Some row_to_user_fields [OF u]
    have "login_tx au now email password (w_db w) =
        refused (if wr_disabled r then ''account_disabled'' else ''bad_password'') (Some (wr_user_id r))"
      by (auto simp: login_tx_def tx_bind_def user_get_by_email_def opt_row_to_user_def tx_read_def
          tx_lift_def audited_refusal_eq refused_def split: if_splits)
    then show ?thesis by blast
  qed
  then obtain reason i where "login_tx au now email password (w_db w) = refused reason i" by blast
  then have "login au now email password w = (Inl auth_error,
      w\<lparr> w_db := add_audit (login_failed_event now email reason i) (w_db w) \<rparr>)"
    by (simp add: login_def in_uow_def uow_def refused_def)
  then show ?thesis by blast
qed

theorem login_refusals_alike_witness:
  "\<exists>reason i. login sample_auth 9 ''b@x'' ''pw'' (accounts_world [] []) = (Inl auth_error,
    (accounts_world [] [])\<lparr> w_db := add_audit (login_failed_event 9 ''b@x'' reason i)
      (w_db (accounts_world [] [])) \<rparr>)"
  by (rule login_refusals_alike) (simp add: accounts_world_def password_verify_def sample_auth_def rangeI)

text \<open>
  C21: a cookie whose token hash has a stored session authenticates the session's user exactly
  while the session has been idle for less than the limit, and then renews it; an expired
  session is deleted, and from then on the cookie authenticates nobody.
\<close>

theorem session_dispatch_result:
  assumes row: "find_row er_token_hash (au_sha256_hex au token) (db_sessions (w_db w)) = Some row"
    and s: "row_to_session row = Inr s"
    and clock: "\<And>r. r \<in> set (db_sessions (w_db w)) \<Longrightarrow> er_created_at r \<le> now"
  shows "\<exists>w'. session_dispatch au idle now (Some token) w =
      (Inr (if now - er_last_activity_at row < idle then Some (er_user_id row) else None), w') \<and>
    (if now - er_last_activity_at row < idle
     then w' = w\<lparr> w_db := db_sessions_update (update_rows (\<lambda>r. er_token_hash r = au_sha256_hex au token)
        (\<lambda>r. r\<lparr> er_last_activity_at := now \<rparr>)) (w_db w) \<rparr>
     else w' = w\<lparr> w_db := db_sessions_update (filter (\<lambda>r. er_token_hash r \<noteq> au_sha256_hex au token)) (w_db w) \<rparr>
        \<and> (\<forall>now'. session_dispatch au idle now' (Some token) w' = (Inr None, w')))"
proof -
  let ?h = "au_sha256_hex au token"
  have get: "session_get ?h (w_db w) = Done (Some s) (w_db w)"
    using row s by (simp add: session_get_Done)
  have fields: "dt_us (ses_last_activity_at s) = er_last_activity_at row" "ses_user_id s = er_user_id row"
    using row_to_session_Inr [OF s] by simp_all
  have touch: "session_touch ?h (utc now) (w_db w) = Done () (db_sessions_update
      (update_rows (\<lambda>r. er_token_hash r = ?h) (\<lambda>r. r\<lparr> er_last_activity_at := now \<rparr>)) (w_db w))"
    using clock by (simp add: session_touch_Done)
  show ?thesis
  proof (cases "now - er_last_activity_at row < idle")
    case True
    then show ?thesis
      using get touch fields
      by (simp add: session_dispatch_def in_uow_def uow_def session_lookup_tx_def tx_bind_def
          tx_then_def tx_return_def)
  next
    case False
    let ?w = "w\<lparr> w_db := db_sessions_update (filter (\<lambda>r. er_token_hash r \<noteq> ?h)) (w_db w) \<rparr>"
    have "find_row er_token_hash ?h (db_sessions (w_db ?w)) = None" by (auto simp: find_row_None)
    then have "session_dispatch au idle now' (Some token) ?w = (Inr None, ?w)" for now'
      by (simp add: session_dispatch_def in_uow_def uow_def session_lookup_tx_def tx_bind_def
          session_get_def tx_read_def tx_return_def)
    moreover have "session_dispatch au idle now (Some token) w = (Inr None, ?w)"
      using get fields False
      by (simp add: session_dispatch_def in_uow_def uow_def session_lookup_tx_def tx_bind_def
          tx_then_def tx_return_def session_delete_def tx_write_def)
    ultimately show ?thesis using False by simp
  qed
qed

theorem session_dispatch_result_witness:
  "\<exists>w'. session_dispatch sample_auth 100 9 (Some ''tok'') (accounts_world [] [sample_session_row]) =
     (Inr (Some 1), w')"
proof -
  have h: "au_sha256_hex sample_auth ''tok'' = er_token_hash sample_session_row"
    by (simp add: sample_auth_def sample_session_row_def)
  have "hex_digits_ok (replicate 64 (CHR ''0''))"
    by (rule hex_digits_all) (auto simp: is_hex_def is_lower_hex_def is_digit_def)
  then have "int16_ok (replicate 64 (CHR ''0''))"
    by (simp add: int16_ok_def py_strip_def py_space_def numeral_eq_Suc Let_def)
  then obtain s where s: "row_to_session sample_session_row = Inr s"
    by (simp add: row_to_session_def session_post_init_def check_def sample_session_row_def)
  from session_dispatch_result [of sample_auth "''tok''" "accounts_world [] [sample_session_row]"
      sample_session_row s 9 100] h s show ?thesis
    by (simp add: accounts_world_def) (simp add: sample_session_row_def)
qed

text \<open>
  The path of \<open>SessionAuthMiddleware.dispatch\<close> for a cookie without a session: the lookup,
  then \<open>call_next\<close> inside the block.  \<open>v\<close> is the first unit of work of the handler, such
  as that of POST /login.
\<close>

definition unknown_session_path :: "string \<Rightarrow> nat \<Rightarrow> stmt list" where
  "unknown_session_path h v =
     [Exec (\<lambda>d. case session_get h d of Done None _ \<Rightarrow> Inr d | Raised e \<Rightarrow> Inl e | _ \<Rightarrow> Inl driver_error),
      Nested v]"

text \<open>
  C22: a request whose cookie names no session and whose handler opens a unit of work never
  completes: once its lookup is done, neither the handler's block nor any other block that has
  not been entered is ever entered, and the database never changes again.
\<close>

theorem unknown_session_deadlocks:
  assumes reach: "reachable (uow_init d0) (uow_step prog) s" and wf: "\<And>u. wf_body (prog u)"
    and ph: "sy_phase s u = Inside (unknown_session_path h v)"
    and open_tx: "\<not> uo_finalized (us_objs (sy_uow s) u)" "work s = Some d"
    and none: "find_row er_token_hash h (db_sessions d) = None"
    and v: "not_entered (sy_phase s v)"
  shows "\<exists>t. uow_step prog s t \<and> sy_phase t u = Inside [Nested v] \<and>
    (\<forall>t'. (uow_step prog)\<^sup>*\<^sup>* t t' \<longrightarrow> us_locked (sy_uow t') \<and> committed t' = committed s \<and>
       (\<forall>k. not_entered (sy_phase s k) \<longrightarrow> not_entered (sy_phase t' k)))"
proof -
  let ?f = "\<lambda>d. case session_get h d of Done None _ \<Rightarrow> Inr d | Raised e \<Rightarrow> Inl e | _ \<Rightarrow> Inl driver_error"
  define t where "t = goto u (Inside [Nested v]) (set_work d (sy_uow s)) [] s"
  have "session_get h d = Done None d" using none by (simp add: session_get_Done)
  then have step: "uow_step prog s t"
    unfolding t_def
    using uow_step.exec [of s u ?f "[Nested v]" d d prog] ph open_tx(2)
    by (simp add: unknown_session_path_def)
  then have reach_t: "reachable (uow_init d0) (uow_step prog) t" by (rule reachable_step [OF reach])
  have ph_t: "sy_phase t u = Inside [Nested v]" by (simp add: t_def)
  have "v \<noteq> u" using v ph by (auto simp: not_entered_def)
  then have v_t: "not_entered (sy_phase t v)" using v by (simp add: t_def)
  have keep: "not_entered (sy_phase s k) \<longrightarrow> not_entered (sy_phase t k)" for k
    using ph by (auto simp: t_def not_entered_def)
  have com: "committed t = committed s" by (simp add: t_def committed_def set_work_def)
  have fin: "\<not> uo_finalized (us_objs (sy_uow t) u)" using open_tx(1) by (simp add: t_def set_work_def)
  have "\<forall>t'. (uow_step prog)\<^sup>*\<^sup>* t t' \<longrightarrow> us_locked (sy_uow t') \<and> committed t' = committed s \<and>
       (\<forall>k. not_entered (sy_phase s k) \<longrightarrow> not_entered (sy_phase t' k))"
  proof (intro allI impI)
    fix t' assume steps: "(uow_step prog)\<^sup>*\<^sup>* t t'"
    have "stuck t" by (rule nested_stuck [OF reach_t wf ph_t fin v_t])
    from stuck_steps [OF steps this] com keep
    show "us_locked (sy_uow t') \<and> committed t' = committed s \<and>
       (\<forall>k. not_entered (sy_phase s k) \<longrightarrow> not_entered (sy_phase t' k))"
      by (auto simp: stuck_def)
  qed
  with step ph_t show ?thesis by blast
qed

theorem unknown_session_deadlocks_witness:
  "\<exists>t. uow_step (\<lambda>u. unknown_session_path ''h'' 1) (open_system (unknown_session_path ''h'' 1) empty_db) t \<and>
     sy_phase t 0 = Inside [Nested 1]"
proof -
  let ?s = "open_system (unknown_session_path ''h'' 1) empty_db"
  have "work ?s = Some empty_db"
    by (simp add: work_def open_system_def waiting_system_def initial_system_def uow_method_defs Let_def)
  moreover have "find_row er_token_hash ''h'' (db_sessions empty_db) = None" by (simp add: empty_db_def)
  moreover have "wf_body (unknown_session_path ''h'' 1)" by (simp add: unknown_session_path_def)
  ultimately show ?thesis
    using unknown_session_deadlocks [of empty_db "\<lambda>u. unknown_session_path ''h'' 1" ?s 0 "''h''" 1 empty_db,
        OF open_reachable]
    by (auto simp: not_entered_def)
qed

end
