(* ===== verification/Admin_Users.thy ===== *)
theory Admin_Users
  imports Auth
begin

text \<open>
  The user administration of \<open>application/use_cases/admin_users.py\<close>: creating a user,
  changing one and resetting a password.

  The lemmas give the effect of each operation; a step relation over all account operations
  carries the invariant that a disabled user has no session, and the question whether an
  enabled administrator always remains is settled: yes while each change is authorised in the
  state it is made in, no when the authorisation check and the change are separate steps.
\<close>

section \<open>Creating a user\<close>

definition email_char :: "char \<Rightarrow> bool" where
  "email_char c \<longleftrightarrow> \<not> py_space c \<and> c \<noteq> CHR ''@''"

definition email_rx :: rx where
  "email_rx = Seq (Some1 email_char) (Seq (Lit ''@'') (Seq (Some1 email_char)
     (Seq (Lit ''.'') (Some1 email_char))))"

definition validate_email :: "string \<Rightarrow> exn + unit" where
  "validate_email email =
     check (\<not> re_match email_rx email) (err InvalidEmailError [(''email'', JStr email)]) (Inr ())"

text \<open>Python's \<open>needle in text\<close>.\<close>

definition str_in :: "string \<Rightarrow> string \<Rightarrow> bool" where
  "str_in needle s \<longleftrightarrow> (\<exists>k \<le> length s. take (length needle) (drop k s) = needle)"

definition exn_reason :: "exn \<Rightarrow> string" where
  "exn_reason e = (case dict_get (exn_details e) ''reason'' of Some (JStr s) \<Rightarrow> s | _ \<Rightarrow> [])"

definition admin_event :: "audit_action \<Rightarrow> user_id \<Rightarrow> user_id \<Rightarrow> int \<Rightarrow> dict \<Rightarrow> audit_event" where
  "admin_event action admin target now details =
     \<lparr> ae_timestamp = utc now, ae_action = action, ae_actor = user_resource admin,
       ae_resource = user_resource target, ae_outcome = SUCCESS,
       ae_details = (''target_user_id'', JInt target) # details, ae_audit_id = None \<rparr>"

definition record_admin_event :: "audit_action \<Rightarrow> user_id \<Rightarrow> user_id \<Rightarrow> int \<Rightarrow> dict \<Rightarrow> unit tx" where
  "record_admin_event action admin target now details =
     tx_bind (tx_lift (audit_event_post_init (admin_event action admin target now details))) audit_record"

definition create_user_tx :: "user_id \<Rightarrow> user \<Rightarrow> int \<Rightarrow> user tx" where
  "create_user_tx admin new now =
     tx_bind (tx_lift (user_post_init new)) (\<lambda>new.
     tx_try (user_save new)
       (\<lambda>e. if exn_is e PersistenceError \<and> str_in ''UNIQUE'' (exn_reason e) \<and> str_in ''email'' (exn_reason e)
            then tx_raise (err DuplicateEmailError [(''email'', JStr (user_email new))]) else tx_raise e)
       (\<lambda>saved. case user_user_id saved of
          None \<Rightarrow> tx_raise (PyExc RuntimeError [])
        | Some i \<Rightarrow> tx_then (record_admin_event CREATE_USER admin i now
              [(''target_email'', JStr (user_email saved))]) (tx_return saved)))"

definition new_user :: "auth \<Rightarrow> string \<Rightarrow> string \<Rightarrow> string \<Rightarrow> bool \<Rightarrow> bool \<Rightarrow> int \<Rightarrow> user" where
  "new_user au email name password admin disabled now =
     \<lparr> user_email = email, user_display_name = name, user_password_hash = au_argon2_hash au password,
       user_created_at = utc now, user_user_id = None, user_is_admin = admin, user_disabled = disabled \<rparr>"

definition create_user ::
  "auth \<Rightarrow> user_id \<Rightarrow> string \<Rightarrow> string \<Rightarrow> string \<Rightarrow> bool \<Rightarrow> bool \<Rightarrow> int \<Rightarrow> world \<Rightarrow> (exn + user) \<times> world" where
  "create_user au admin email name password is_admin disabled now w =
     (case validate_email email of
        Inl e \<Rightarrow> (Inl e, w)
      | Inr _ \<Rightarrow> in_uow (create_user_tx admin (new_user au email name password is_admin disabled now) now) w)"

section \<open>Changing a user\<close>

text \<open>The field an administrator may not change on the own account, if the request asks for it.\<close>

definition self_protected :: "user_id \<Rightarrow> user_id \<Rightarrow> user_changes \<Rightarrow> string option" where
  "self_protected admin target c =
     (if admin \<noteq> target then None
      else if uc_is_admin c = Some False then Some ''is_admin''
      else if uc_disabled c = Some True then Some ''disabled'' else None)"

definition mutated_fields :: "user_changes \<Rightarrow> string list" where
  "mutated_fields c = sort
     ((if uc_display_name c \<noteq> None then [''display_name''] else []) @
      (if uc_is_admin c \<noteq> None then [''is_admin''] else []) @
      (if uc_disabled c \<noteq> None then [''disabled''] else []))"

definition user_not_found :: "user_id \<Rightarrow> exn" where
  "user_not_found i = err UserNotFoundError [(''user_id'', JInt i)]"

definition update_user_tx :: "user_id \<Rightarrow> user_id \<Rightarrow> user_changes \<Rightarrow> int \<Rightarrow> user tx" where
  "update_user_tx admin target c now =
     tx_bind (user_update target (c\<lparr> uc_password_hash := None \<rparr>)) (\<lambda>updated. case updated of
       None \<Rightarrow> tx_raise (user_not_found target)
     | Some u \<Rightarrow>
         tx_then (if mutated_fields c \<noteq> []
           then record_admin_event UPDATE_USER admin target now
                  [(''mutated_fields'', JStrs (mutated_fields c))]
           else tx_return ())
         (tx_then (if uc_disabled c = Some True
           then tx_then (session_delete_by_user target) (tx_return ()) else tx_return ())
         (tx_return u)))"

definition update_user ::
  "user_id \<Rightarrow> user_id \<Rightarrow> user_changes \<Rightarrow> int \<Rightarrow> world \<Rightarrow> (exn + user \<times> string list) \<times> world" where
  "update_user admin target c now w = (case self_protected admin target c of
     Some field \<Rightarrow> (Inl (err SelfProtectionError [(''admin_id'', JInt admin),
        (''target_user_id'', JInt target), (''attempted_field'', JStr field)]), w)
   | None \<Rightarrow> (case in_uow (update_user_tx admin target c now) w of
        (Inl e, w') \<Rightarrow> (Inl e, w') | (Inr u, w') \<Rightarrow> (Inr (u, mutated_fields c), w')))"

section \<open>Resetting a password\<close>

definition password_change :: "string \<Rightarrow> user_changes" where
  "password_change h = \<lparr> uc_display_name = None, uc_is_admin = None, uc_disabled = None,
     uc_password_hash = Some h \<rparr>"

definition reset_password_tx :: "user_id \<Rightarrow> user_id \<Rightarrow> string \<Rightarrow> int \<Rightarrow> unit tx" where
  "reset_password_tx admin target hash now =
     tx_bind (user_update target (password_change hash)) (\<lambda>updated. case updated of
       None \<Rightarrow> tx_raise (user_not_found target)
     | Some u \<Rightarrow>
         tx_then (record_admin_event UPDATE_USER admin target now
           [(''mutated_fields'', JStrs [''password_hash''])])
         (tx_then (session_delete_by_user target) (tx_return ())))"

definition reset_password ::
  "auth \<Rightarrow> user_id \<Rightarrow> user_id \<Rightarrow> string \<Rightarrow> int \<Rightarrow> world \<Rightarrow> (exn + unit) \<times> world" where
  "reset_password au admin target password now =
     in_uow (reset_password_tx admin target (au_argon2_hash au password) now)"

section \<open>What the operations do\<close>

lemma record_admin_event_eq:
  "record_admin_event a admin target now det d = Done () (add_audit (admin_event a admin target now det) d)"
proof -
  have "audit_event_post_init (admin_event a admin target now det) = Inr (admin_event a admin target now det)"
    and aware: "dt_aware (ae_timestamp (admin_event a admin target now det))"
    by (simp_all add: audit_event_post_init_Inr audit_event_ok_def admin_event_def user_resource_def)
  then show ?thesis
    by (simp add: record_admin_event_def tx_bind_def tx_lift_def tx_read_def audit_record_event)
qed

lemma record_admin_event_plain [plain_intro]: "plain (record_admin_event a admin target now det)"
  unfolding record_admin_event_def by (intro plain_intro)

lemma admin_plain [plain_intro]:
  "plain (create_user_tx admin new now)" "plain (update_user_tx admin target c now)"
  "plain (reset_password_tx admin target h now)"
  unfolding create_user_tx_def update_user_tx_def reset_password_tx_def
  by (intro plain_intro)+

definition drop_sessions :: "user_id \<Rightarrow> db \<Rightarrow> db" where
  "drop_sessions i = db_sessions_update (filter (\<lambda>r. er_user_id r \<noteq> i))"

lemma session_delete_by_user_Done:
  "session_delete_by_user i d = Done (length (filter (\<lambda>r. er_user_id r = i) (db_sessions d))) (drop_sessions i d)"
  by (simp add: session_delete_by_user_def tx_bind_def tx_read_def tx_then_def tx_write_def
      tx_return_def drop_sessions_def)

definition change_user :: "user_id \<Rightarrow> user_changes \<Rightarrow> db \<Rightarrow> db" where
  "change_user i c = db_users_update (update_rows (\<lambda>r. wr_user_id r = i) (apply_changes c))"

lemma create_user_tx_Done:
  assumes "create_user_tx admin new now d = Done u d'"
  shows "user_ok new \<and> user_email new \<notin> wr_email ` set (db_users d) \<and>
    u = new\<lparr> user_user_id := Some (db_next_user d) \<rparr> \<and>
    d' = add_audit (admin_event CREATE_USER admin (db_next_user d) now [(''target_email'', JStr (user_email new))])
      (d\<lparr> db_users := db_users d @ [user_row_of (db_next_user d) new (dt_us (user_created_at new))],
          db_next_user := db_next_user d + 1 \<rparr>)"
proof -
  have new: "user_post_init new = Inr new"
    using assms by (auto simp: create_user_tx_def tx_bind_Done tx_lift_Done user_post_init_Inr)
  show ?thesis
  proof (cases "user_save new d")
    case (Done v d1)
    have saved: "user_email new \<notin> wr_email ` set (db_users d)" "user_ok new"
      "v = new\<lparr> user_user_id := Some (db_next_user d) \<rparr>"
      "d1 = d\<lparr> db_users := db_users d @ [user_row_of (db_next_user d) new (dt_us (user_created_at new))],
         db_next_user := db_next_user d + 1 \<rparr>"
      using Done by (simp_all add: user_save_Done)
    have "tx_then (record_admin_event CREATE_USER admin (db_next_user d) now
        [(''target_email'', JStr (user_email new))]) (tx_return v) d1 = Done u d'"
      using assms Done saved(3)
      by (simp add: create_user_tx_def tx_bind_def tx_lift_def tx_read_def new tx_try_def)
    then show ?thesis
      using saved by (auto simp: tx_then_def tx_bind_def record_admin_event_eq tx_return_def)
  next
    case (Raised e)
    then show ?thesis
      using assms
      by (auto simp: create_user_tx_def tx_bind_def tx_lift_def tx_read_def new tx_try_def tx_raise_def
          split: if_splits)
  next
    case (CommittedRaise e d1)
    then show ?thesis using user_plain(1) by (simp add: plain_def)
  qed
qed

lemma update_user_tx_Done:
  assumes "update_user_tx admin target c now d = Done u d'"
  shows "\<exists>r. find_row wr_user_id target (db_users d) = Some r \<and>
    row_to_user (apply_changes (c\<lparr> uc_password_hash := None \<rparr>) r) = Inr u \<and>
    d' = (if uc_disabled c = Some True then drop_sessions target else (\<lambda>d. d))
      ((if mutated_fields c \<noteq> [] then add_audit (admin_event UPDATE_USER admin target now
          [(''mutated_fields'', JStrs (mutated_fields c))]) else (\<lambda>d. d))
       (change_user target (c\<lparr> uc_password_hash := None \<rparr>) d))"
proof -
  obtain uo d1 where upd: "user_update target (c\<lparr> uc_password_hash := None \<rparr>) d = Done uo d1"
    using assms by (auto simp: update_user_tx_def tx_bind_Done)
  show ?thesis
  proof (cases uo)
    case None
    with upd assms show ?thesis by (simp add: update_user_tx_def tx_bind_def tx_raise_def)
  next
    case (Some v)
    with user_update_Done [OF upd] upd assms show ?thesis
      by (auto simp: update_user_tx_def tx_bind_def tx_then_def record_admin_event_eq tx_return_def
          session_delete_by_user_Done change_user_def)
  qed
qed

lemma reset_password_tx_Done:
  assumes "reset_password_tx admin target h now d = Done u d'"
  shows "\<exists>r. find_row wr_user_id target (db_users d) = Some r \<and>
    d' = drop_sessions target (add_audit (admin_event UPDATE_USER admin target now
          [(''mutated_fields'', JStrs [''password_hash''])]) (change_user target (password_change h) d))"
proof -
  obtain uo d1 where upd: "user_update target (password_change h) d = Done uo d1"
    using assms by (auto simp: reset_password_tx_def tx_bind_Done)
  show ?thesis
  proof (cases uo)
    case None
    with upd assms show ?thesis by (simp add: reset_password_tx_def tx_bind_def tx_raise_def)
  next
    case (Some v)
    with user_update_Done [OF upd] upd assms show ?thesis
      by (auto simp: reset_password_tx_def tx_bind_def tx_then_def record_admin_event_eq tx_return_def
          session_delete_by_user_Done change_user_def)
  qed
qed

section \<open>All account operations together\<close>

text \<open>
  Any sequence of the operations, by anybody: the administrative ones when \<open>allowed\<close> holds of
  the acting user in the current state.
\<close>

inductive account_step :: "(user_id \<Rightarrow> world \<Rightarrow> bool) \<Rightarrow> auth \<Rightarrow> int \<Rightarrow> world \<Rightarrow> world \<Rightarrow> bool"
  for allowed au idle where
  login: "login (au\<lparr> au_token := tok \<rparr>) now email password w = (r, w') \<Longrightarrow>
    account_step allowed au idle w w'"
| logout: "logout au now tok i w = (r, w') \<Longrightarrow> account_step allowed au idle w w'"
| request: "session_dispatch au idle now cookie w = (r, w') \<Longrightarrow> account_step allowed au idle w w'"
| create: "allowed admin w \<Longrightarrow> create_user au admin email name password is_admin disabled now w = (r, w') \<Longrightarrow>
    account_step allowed au idle w w'"
| update: "allowed admin w \<Longrightarrow> update_user admin target c now w = (r, w') \<Longrightarrow>
    account_step allowed au idle w w'"
| reset: "allowed admin w \<Longrightarrow> reset_password au admin target password now w = (r, w') \<Longrightarrow>
    account_step allowed au idle w w'"

inductive_cases account_stepE [consumes 1, case_names login logout request create update reset]:
  "account_step allowed au idle w w'"

definition users_wf :: "db \<Rightarrow> bool" where
  "users_wf d \<longleftrightarrow> users.unique_keys d \<and> (\<forall>r \<in> set (db_users d). wr_user_id r < db_next_user d)"

definition enabled_user :: "db \<Rightarrow> user_id \<Rightarrow> bool" where
  "enabled_user d i \<longleftrightarrow> (\<exists>r \<in> set (db_users d). wr_user_id r = i \<and> \<not> wr_disabled r)"

definition enabled_admin :: "db \<Rightarrow> user_id \<Rightarrow> bool" where
  "enabled_admin d i \<longleftrightarrow> (\<exists>r \<in> set (db_users d). wr_user_id r = i \<and> wr_is_admin r \<and> \<not> wr_disabled r)"

definition live_sessions :: "db \<Rightarrow> bool" where
  "live_sessions d \<longleftrightarrow> (\<forall>s \<in> set (db_sessions d). enabled_user d (er_user_id s))"

text \<open>What one operation did to the two tables.\<close>

datatype account_effect =
    Sessions_Shrink
  | New_Session user_id
  | New_User
  | Changed user_id user_changes

definition has_effect :: "account_effect \<Rightarrow> db \<Rightarrow> db \<Rightarrow> bool" where
  "has_effect eff d d' \<longleftrightarrow> (case eff of
     Sessions_Shrink \<Rightarrow> db_users d' = db_users d \<and> db_next_user d' = db_next_user d \<and>
       er_user_id ` set (db_sessions d') \<subseteq> er_user_id ` set (db_sessions d)
   | New_Session i \<Rightarrow> db_users d' = db_users d \<and> db_next_user d' = db_next_user d \<and>
       enabled_user d i \<and> er_user_id ` set (db_sessions d') \<subseteq> insert i (er_user_id ` set (db_sessions d))
   | New_User \<Rightarrow> db_sessions d' = db_sessions d \<and> db_next_user d' = db_next_user d + 1 \<and>
       (\<exists>r. wr_user_id r = db_next_user d \<and> db_users d' = db_users d @ [r])
   | Changed i c \<Rightarrow> db_users d' = update_rows (\<lambda>r. wr_user_id r = i) (apply_changes c) (db_users d) \<and>
       db_next_user d' = db_next_user d \<and>
       er_user_id ` set (db_sessions d') \<subseteq> er_user_id ` set (db_sessions d) -
         (if uc_disabled c = Some True then {i} else {}))"

lemma enabled_user_change:
  assumes "enabled_user d k" and "db_users d' = update_rows (\<lambda>r. wr_user_id r = i) (apply_changes c) (db_users d)"
    and "k \<noteq> i \<or> uc_disabled c \<noteq> Some True"
  shows "enabled_user d' k"
proof -
  obtain r where r: "r \<in> set (db_users d)" "wr_user_id r = k" "\<not> wr_disabled r"
    using assms(1) by (auto simp: enabled_user_def)
  let ?r = "if wr_user_id r = i then apply_changes c r else r"
  have "?r \<in> set (db_users d')" using r(1) by (auto simp: assms(2) update_rows_def)
  moreover have "wr_user_id ?r = k" "\<not> wr_disabled ?r"
    using r assms(3) by (auto simp: or_else_def split: option.splits)
  ultimately show ?thesis by (auto simp: enabled_user_def)
qed

lemma effect_users_wf:
  assumes "users_wf d" and "has_effect eff d d'"
  shows "users_wf d'"
proof (cases eff)
  case (Changed i c)
  then have d': "db_users d' = update_rows (\<lambda>r. wr_user_id r = i) (apply_changes c) (db_users d)"
    "db_next_user d' = db_next_user d"
    using assms(2) by (simp_all add: has_effect_def)
  have ids: "map wr_user_id (db_users d') = map wr_user_id (db_users d)"
    by (simp add: d'(1) map_key_update_rows)
  have same: "wr_user_id ` set (db_users d') = wr_user_id ` set (db_users d)"
    using arg_cong [OF ids, of set] by simp
  have "wr_user_id k < db_next_user d" if "k \<in> set (db_users d')" for k
  proof -
    have "wr_user_id k \<in> wr_user_id ` set (db_users d)" using that same by blast
    then show ?thesis using assms(1) by (auto simp: users_wf_def)
  qed
  then show ?thesis using assms(1) ids d'(2) by (simp add: users_wf_def users.unique_keys_def)
qed (use assms in \<open>force simp: has_effect_def users_wf_def users.unique_keys_def\<close>)+

lemma effect_live_sessions:
  assumes "live_sessions d" and "has_effect eff d d'"
  shows "live_sessions d'"
  unfolding live_sessions_def
proof
  fix s assume s: "s \<in> set (db_sessions d')"
  have old: "enabled_user d (er_user_id s)" if "er_user_id s \<in> er_user_id ` set (db_sessions d)"
    using assms(1) that by (auto simp: live_sessions_def)
  show "enabled_user d' (er_user_id s)"
  proof (cases eff)
    case Sessions_Shrink
    then show ?thesis using assms(2) s old by (auto simp: has_effect_def enabled_user_def)
  next
    case (New_Session i)
    then have "er_user_id s = i \<or> er_user_id s \<in> er_user_id ` set (db_sessions d)" "enabled_user d i"
      "db_users d' = db_users d"
      using assms(2) s by (auto simp: has_effect_def)
    then show ?thesis using old by (auto simp: enabled_user_def)
  next
    case New_User
    then show ?thesis using assms(2) s old by (auto simp: has_effect_def enabled_user_def)
  next
    case (Changed i c)
    then have "er_user_id s \<in> er_user_id ` set (db_sessions d)"
      "er_user_id s \<noteq> i \<or> uc_disabled c \<noteq> Some True"
      using assms(2) s by (auto simp: has_effect_def split: if_splits)
    then show ?thesis
      using enabled_user_change [OF old] assms(2) Changed by (auto simp: has_effect_def)
  qed
qed

lemma add_audit_next_user [simp]: "db_next_user (add_audit e d) = db_next_user d"
  by (simp add: add_audit_def)

lemma drop_sessions_simps [simp]:
  "db_users (drop_sessions i d) = db_users d" "db_next_user (drop_sessions i d) = db_next_user d"
  "db_sessions (drop_sessions i d) = filter (\<lambda>r. er_user_id r \<noteq> i) (db_sessions d)"
  by (simp_all add: drop_sessions_def)

lemma change_user_simps [simp]:
  "db_users (change_user i c d) = update_rows (\<lambda>r. wr_user_id r = i) (apply_changes c) (db_users d)"
  "db_next_user (change_user i c d) = db_next_user d" "db_sessions (change_user i c d) = db_sessions d"
  by (simp_all add: change_user_def)

lemma effect_refl: "has_effect Sessions_Shrink d d"
  by (simp add: has_effect_def)

lemma login_effect:
  assumes "login au now email password w = (r, w')"
  shows "\<exists>eff. has_effect eff (w_db w) (w_db w') \<and> eff \<in> {Sessions_Shrink} \<union> range New_Session"
proof (cases r)
  case (Inl e)
  then have "w' = w \<or> (\<exists>reason i. w' = w\<lparr> w_db := add_audit (login_failed_event now email reason i) (w_db w) \<rparr>)"
    using login_outcome [where au = au and now = now and email = email and password = password and w = w] assms
    by auto
  then have "has_effect Sessions_Shrink (w_db w) (w_db w')" by (auto simp: has_effect_def)
  then show ?thesis by blast
next
  case (Inr p)
  then obtain tok i where "r = Inr (tok, i)" by (cases p) auto
  then obtain row where row: "credentials_ok au email password (w_db w) row" "i = wr_user_id row"
    and w': "w_db w' = db_sessions_update (\<lambda>rows. rows @ [session_row_of (new_session au now i)])
            (add_audit (login_event now email i) (w_db w))"
    using login_outcome [where au = au and now = now and email = email and password = password and w = w] assms by auto
  have "enabled_user (w_db w) i"
    using row by (auto simp: credentials_ok_def enabled_user_def dest: find_row_Some)
  then have "has_effect (New_Session i) (w_db w) (w_db w')"
    by (auto simp: has_effect_def w' session_row_of_def new_session_def)
  then show ?thesis by blast
qed

lemma logout_effect: "logout au now tok i w = (r, w') \<Longrightarrow> has_effect Sessions_Shrink (w_db w) (w_db w')"
  by (auto simp: logout_def logout_tx_def in_uow_def uow_def tx_bind_def tx_lift_def tx_read_def
      tx_then_def audit_record_event session_delete_def tx_write_def has_effect_def)

lemma dispatch_effect:
  assumes "session_dispatch au idle now cookie w = (r, w')"
  shows "has_effect Sessions_Shrink (w_db w) (w_db w')"
proof (cases cookie)
  case None
  then show ?thesis using assms by (simp add: session_dispatch_def effect_refl)
next
  case (Some token)
  let ?body = "session_lookup_tx idle now (au_sha256_hex au token)"
  have "plain ?body" unfolding session_lookup_tx_def by (intro plain_intro)
  moreover have "in_uow ?body w = (r, w')" using assms Some by (simp add: session_dispatch_def)
  ultimately consider "w' = w" | x d where "?body (w_db w) = Done x d" "w' = w\<lparr> w_db := d \<rparr>"
    using in_uow_plain_cases by blast
  then show ?thesis
  proof cases
    case 1
    then show ?thesis by (simp add: effect_refl)
  next
    case 2
    let ?mine = "\<lambda>r. er_token_hash r = au_sha256_hex au token"
    have d: "d = w_db w \<or> d = db_sessions_update (filter (\<lambda>r. \<not> ?mine r)) (w_db w) \<or>
        d = db_sessions_update (update_rows ?mine (er_last_activity_at_update (\<lambda>_. now))) (w_db w)"
      using 2(1) by (auto simp: session_lookup_tx_def tx_bind_Done session_get_Done tx_then_Done
          tx_return_def session_delete_def tx_write_def session_touch_Done split: if_splits option.splits)
    have owners: "er_user_id ` set (update_rows P (er_last_activity_at_update (\<lambda>_. t)) rows) = er_user_id ` set rows"
      for P t and rows :: "session_row list"
      using arg_cong [OF map_key_update_rows [where key = er_user_id and P = P and
          f = "er_last_activity_at_update (\<lambda>_. t)" and rows = rows], of set] by simp
    from d 2(2) show ?thesis by (elim disjE exE) (simp_all add: has_effect_def owners image_mono)
  qed
qed

lemma create_effect:
  assumes "create_user au admin email name password is_admin disabled now w = (r, w')"
  shows "\<exists>eff. has_effect eff (w_db w) (w_db w') \<and> eff \<in> {Sessions_Shrink, New_User}"
proof -
  let ?new = "new_user au email name password is_admin disabled now"
  have "w' = w \<or> in_uow (create_user_tx admin ?new now) w = (r, w')"
    using assms by (cases "validate_email email") (auto simp: create_user_def)
  then consider "w' = w" | u d where "create_user_tx admin ?new now (w_db w) = Done u d" "w' = w\<lparr> w_db := d \<rparr>"
    using in_uow_plain_cases [OF _ admin_plain(1)] by blast
  then show ?thesis
  proof cases
    case 1
    then show ?thesis using effect_refl by auto
  next
    case 2
    with create_user_tx_Done [OF 2(1)] have "has_effect New_User (w_db w) (w_db w')"
      by (auto simp: has_effect_def user_row_of_def)
    then show ?thesis by blast
  qed
qed

lemma update_effect:
  assumes "update_user admin target c now w = (r, w')"
  shows "\<exists>eff. has_effect eff (w_db w) (w_db w') \<and> (eff = Sessions_Shrink \<or>
    self_protected admin target c = None \<and> eff = Changed target (c\<lparr> uc_password_hash := None \<rparr>))"
proof (cases "self_protected admin target c")
  case (Some f)
  then have "w' = w" using assms by (simp add: update_user_def)
  then show ?thesis using effect_refl by auto
next
  case None
  obtain x where "in_uow (update_user_tx admin target c now) w = (x, w')"
    using assms None by (auto simp: update_user_def split: sum.splits prod.splits)
  then consider "w' = w" | u d where "update_user_tx admin target c now (w_db w) = Done u d" "w' = w\<lparr> w_db := d \<rparr>"
    using in_uow_plain_cases [OF _ admin_plain(2)] by blast
  then show ?thesis
  proof cases
    case 1
    then show ?thesis using effect_refl by auto
  next
    case 2
    with update_user_tx_Done [OF 2(1)]
    have "has_effect (Changed target (c\<lparr> uc_password_hash := None \<rparr>)) (w_db w) (w_db w')"
      by (auto simp: has_effect_def split: if_splits)
    with None show ?thesis by blast
  qed
qed

lemma reset_effect:
  assumes "reset_password au admin target password now w = (r, w')"
  shows "\<exists>eff. has_effect eff (w_db w) (w_db w') \<and>
    (eff = Sessions_Shrink \<or> (\<exists>h. eff = Changed target (password_change h)))"
proof -
  let ?h = "au_argon2_hash au password"
  consider "w' = w" | u d where "reset_password_tx admin target ?h now (w_db w) = Done u d" "w' = w\<lparr> w_db := d \<rparr>"
    using assms in_uow_plain_cases [OF _ admin_plain(3)] unfolding reset_password_def by blast
  then show ?thesis
  proof cases
    case 1
    then show ?thesis using effect_refl by auto
  next
    case 2
    with reset_password_tx_Done [OF 2(1)]
    have "has_effect (Changed target (password_change ?h)) (w_db w) (w_db w')"
      by (auto simp: has_effect_def password_change_def)
    then show ?thesis by blast
  qed
qed

lemma account_step_effect:
  assumes "account_step allowed au idle w w'"
  shows "\<exists>eff. has_effect eff (w_db w) (w_db w') \<and>
    (\<forall>i c. eff = Changed i c \<longrightarrow> (\<exists>admin. allowed admin w \<and>
       (admin = i \<longrightarrow> uc_is_admin c \<noteq> Some False \<and> uc_disabled c \<noteq> Some True)))"
  using assms
proof (cases rule: account_stepE)
  case (login tok now email password r)
  from login_effect [OF login] show ?thesis by blast
next
  case (logout now tok i r)
  from logout_effect [OF logout] show ?thesis by blast
next
  case (request now cookie r)
  from dispatch_effect [OF request] show ?thesis by blast
next
  case (create admin email name password is_admin disabled now r)
  from create_effect [OF create(2)] show ?thesis by blast
next
  case (update admin target c now r)
  from update_effect [OF update(2)] obtain eff where eff: "has_effect eff (w_db w) (w_db w')"
    "eff = Sessions_Shrink \<or> self_protected admin target c = None \<and>
       eff = Changed target (c\<lparr> uc_password_hash := None \<rparr>)" by blast
  have "uc_is_admin c \<noteq> Some False \<and> uc_disabled c \<noteq> Some True"
    if "self_protected admin target c = None" "admin = target"
    using that by (auto simp: self_protected_def split: if_splits)
  with eff update(1) show ?thesis by fastforce
next
  case (reset admin target password now r)
  from reset_effect [OF reset(2)] reset(1) show ?thesis by (fastforce simp: password_change_def)
qed

section \<open>Invariants of the accounts\<close>

definition account_init :: "world \<Rightarrow> bool" where
  "account_init w \<longleftrightarrow> users_wf (w_db w) \<and> db_sessions (w_db w) = []"

definition account_inv :: "world \<Rightarrow> bool" where
  "account_inv w \<longleftrightarrow> users_wf (w_db w) \<and> live_sessions (w_db w)"

interpretation accounts: inductive_invariant account_init "account_step allowed au idle" account_inv
  for allowed au idle
proof
  show "account_init w \<Longrightarrow> account_inv w" for w
    by (simp add: account_init_def account_inv_def live_sessions_def)
  fix w w' assume inv: "account_inv w" and step: "account_step allowed au idle w w'"
  obtain eff where "has_effect eff (w_db w) (w_db w')" using account_step_effect [OF step] by blast
  with inv show "account_inv w'"
    using effect_users_wf effect_live_sessions unfolding account_inv_def by blast
qed

text \<open>The administrators, while every administrative operation is done by an enabled one.\<close>

definition acts_as_admin :: "user_id \<Rightarrow> world \<Rightarrow> bool" where
  "acts_as_admin admin w \<longleftrightarrow> fst (require_admin (Some admin) w) = Inr (Inr admin)"

definition admins_init :: "world \<Rightarrow> bool" where
  "admins_init w \<longleftrightarrow> users_wf (w_db w) \<and> (\<exists>i. enabled_admin (w_db w) i)"

lemma acts_as_admin_row:
  "acts_as_admin admin w \<Longrightarrow> \<exists>r \<in> set (db_users (w_db w)). wr_user_id r = admin \<and> wr_is_admin r \<and> \<not> wr_disabled r"
  by (auto simp: acts_as_admin_def require_admin_def require_session_def in_uow_def uow_def
      user_get_by_id_def tx_read_def opt_row_to_user_def and_then_Inr row_to_user_fields
      split: sum.splits option.splits if_splits dest!: find_row_Some)

lemma enabled_admin_keep:
  assumes "has_effect eff d d'" and "enabled_admin d k"
    and "\<And>i c. eff = Changed i c \<Longrightarrow> k \<noteq> i \<or> uc_is_admin c \<noteq> Some False \<and> uc_disabled c \<noteq> Some True"
  shows "enabled_admin d' k"
proof (cases eff)
  case (Changed i c)
  obtain r where r: "r \<in> set (db_users d)" "wr_user_id r = k" "wr_is_admin r" "\<not> wr_disabled r"
    using assms(2) by (auto simp: enabled_admin_def)
  let ?r = "if wr_user_id r = i then apply_changes c r else r"
  have "?r \<in> set (db_users d')" using r(1) assms(1) Changed by (auto simp: has_effect_def update_rows_def)
  moreover have "wr_user_id ?r = k" "wr_is_admin ?r" "\<not> wr_disabled ?r"
    using r assms(3) [OF Changed] by (auto simp: or_else_def split: option.splits)
  ultimately show ?thesis by (auto simp: enabled_admin_def)
qed (use assms(1,2) in \<open>auto simp: has_effect_def enabled_admin_def\<close>)

interpretation admins: inductive_invariant admins_init "account_step acts_as_admin au idle" admins_init
  for au idle
proof
  fix w w' assume inv: "admins_init w" and step: "account_step acts_as_admin au idle w w'"
  obtain eff where eff: "has_effect eff (w_db w) (w_db w')"
    and who: "\<forall>i c. eff = Changed i c \<longrightarrow> (\<exists>admin. acts_as_admin admin w \<and>
       (admin = i \<longrightarrow> uc_is_admin c \<noteq> Some False \<and> uc_disabled c \<noteq> Some True))"
    using account_step_effect [OF step] by blast
  have "\<exists>k. enabled_admin (w_db w') k"
  proof (cases "\<exists>i c. eff = Changed i c")
    case True
    then obtain i c admin where "eff = Changed i c" "acts_as_admin admin w"
      "admin = i \<longrightarrow> uc_is_admin c \<noteq> Some False \<and> uc_disabled c \<noteq> Some True" using who by blast
    moreover have "enabled_admin (w_db w) admin"
      using acts_as_admin_row [OF calculation(2)] by (auto simp: enabled_admin_def)
    ultimately show ?thesis using enabled_admin_keep [OF eff] by blast
  next
    case False
    then show ?thesis using inv enabled_admin_keep [OF eff] by (auto simp: admins_init_def)
  qed
  moreover have "users_wf (w_db w')" using inv effect_users_wf [OF _ eff] by (simp add: admins_init_def)
  ultimately show "admins_init w'" by (simp add: admins_init_def)
qed

section \<open>Properties\<close>

definition email_taken :: "string \<Rightarrow> db \<Rightarrow> bool" where
  "email_taken email d \<longleftrightarrow> email \<in> wr_email ` set (db_users d)"

lemma unique_email_reason_parts:
  "str_in ''UNIQUE'' unique_email_reason" "str_in ''email'' unique_email_reason"
  unfolding str_in_def unique_email_reason_def
  by (rule exI [of _ 0], simp) (rule exI [of _ 32], simp)

lemma new_user_fields [simp]:
  "user_email (new_user au email name password is_admin disabled now) = email"
  "user_display_name (new_user au email name password is_admin disabled now) = name"
  "user_password_hash (new_user au email name password is_admin disabled now) = au_argon2_hash au password"
  "user_created_at (new_user au email name password is_admin disabled now) = utc now"
  "user_user_id (new_user au email name password is_admin disabled now) = None"
  "user_is_admin (new_user au email name password is_admin disabled now) = is_admin"
  "user_disabled (new_user au email name password is_admin disabled now) = disabled"
  by (simp_all add: new_user_def)

lemma create_user_tx_eval:
  assumes "user_user_id new = None" and "dt_aware (user_created_at new)"
  shows "create_user_tx admin new now d = (case user_post_init new of
      Inl e \<Rightarrow> Raised e
    | Inr _ \<Rightarrow> if email_taken (user_email new) d
        then Raised (err DuplicateEmailError [(''email'', JStr (user_email new))])
        else Done (new\<lparr> user_user_id := Some (db_next_user d) \<rparr>)
          (add_audit (admin_event CREATE_USER admin (db_next_user d) now [(''target_email'', JStr (user_email new))])
            (d\<lparr> db_users := db_users d @ [user_row_of (db_next_user d) new (dt_us (user_created_at new))],
                db_next_user := db_next_user d + 1 \<rparr>)))"
proof (cases "user_post_init new")
  case (Inl e)
  then show ?thesis by (simp add: create_user_tx_def tx_bind_def tx_lift_def tx_read_def)
next
  case (Inr u)
  then have u: "u = new" and ok: "user_ok new" by (simp_all add: user_post_init_Inr)
  show ?thesis
  proof (cases "email_taken (user_email new) d")
    case True
    then have "user_save new d = Raised (err PersistenceError
        [(''email'', JStr (user_email new)), (''reason'', JStr unique_email_reason)])"
      using assms by (simp add: user_save_def tx_bind_def tx_lift_def tx_read_def tx_then_def tx_guard_def
          tx_raise_def tx_return_def iso_col_def iso_z_def email_taken_def)
    then show ?thesis
      using True Inr u unique_email_reason_parts
      by (simp add: create_user_tx_def tx_bind_def tx_lift_def tx_read_def tx_try_def tx_raise_def
          exn_reason_def dict_get_def)
  next
    case False
    have "user_save new d = Done (new\<lparr> user_user_id := Some (db_next_user d) \<rparr>)
        (d\<lparr> db_users := db_users d @ [user_row_of (db_next_user d) new (dt_us (user_created_at new))],
            db_next_user := db_next_user d + 1 \<rparr>)"
      using assms ok False by (simp add: user_save_Done email_taken_def)
    then show ?thesis
      using False Inr u by (simp add: create_user_tx_def tx_bind_def tx_lift_def tx_read_def tx_try_def
          tx_then_def tx_return_def record_admin_event_eq)
  qed
qed

text \<open>
  Creating a user inserts exactly the requested row, with the hash of the password, and one
  CREATE_USER record naming the administrator, in one transaction; a malformed e-mail, an empty
  field and an e-mail already taken are each refused with their own error and change nothing.
\<close>

theorem create_user_result:
  "create_user au admin email name password is_admin disabled now w =
    (let new = new_user au email name password is_admin disabled now; i = db_next_user (w_db w) in
     if \<not> re_match email_rx email then (Inl (err InvalidEmailError [(''email'', JStr email)]), w)
     else if name = [] then (Inl value_error, w)
     else if email_taken email (w_db w) then (Inl (err DuplicateEmailError [(''email'', JStr email)]), w)
     else (Inr (new\<lparr> user_user_id := Some i \<rparr>),
       w\<lparr> w_db := add_audit (admin_event CREATE_USER admin i now [(''target_email'', JStr email)])
         ((w_db w)\<lparr> db_users := db_users (w_db w) @
             [\<lparr> wr_user_id = i, wr_email = email, wr_display_name = name, wr_disabled = disabled,
                wr_created_at = now, wr_password_hash = au_argon2_hash au password, wr_is_admin = is_admin \<rparr>],
           db_next_user := i + 1 \<rparr>) \<rparr>))"
proof (cases "re_match email_rx email")
  case False
  then show ?thesis by (simp add: create_user_def validate_email_def check_def)
next
  case True
  then have email: "email \<noteq> []" by (auto simp: re_match_def email_rx_def)
  let ?new = "new_user au email name password is_admin disabled now"
  have "user_post_init ?new = (if name = [] then Inl value_error else Inr ?new)"
    using email by (simp add: user_post_init_def check_def)
  then show ?thesis
    using True create_user_tx_eval [of ?new admin now "w_db w"]
    by (cases "name = []"; cases "email_taken email (w_db w)")
      (simp_all add: create_user_def validate_email_def check_def in_uow_def uow_def user_row_of_def Let_def)
qed

lemma user_update_eval:
  assumes "find_row wr_user_id i (db_users d) = Some r"
  shows "user_update i c d = (case row_to_user (apply_changes c r) of
     Inl e \<Rightarrow> Raised e | Inr u \<Rightarrow> Done (Some u) (change_user i c d))"
proof (cases "no_changes c")
  case True
  have id: "update_rows P (apply_changes c) rows = rows" for P and rows :: "user_row list"
    by (induction rows) (simp_all add: apply_no_changes [OF True])
  show ?thesis
    using assms True by (simp add: user_update_def user_get_by_id_def tx_read_def opt_row_to_user_def
        and_then_def apply_no_changes change_user_def id split: sum.split)
next
  case False
  then show ?thesis
    using assms by (simp add: user_update_def tx_bind_def tx_read_def find_row_filter_Nil tx_then_def
        tx_write_def user_get_by_id_def opt_row_to_user_def find_row_update_rows and_then_def
        change_user_def split: sum.split)
qed

lemma user_update_missing:
  "find_row wr_user_id i (db_users d) = None \<Longrightarrow> user_update i c d = Done None d"
  by (simp add: user_update_def user_get_by_id_def tx_bind_def tx_read_def find_row_filter_Nil
      tx_return_def opt_row_to_user_def)

lemma update_user_tx_eval:
  "update_user_tx admin target c now d = (case find_row wr_user_id target (db_users d) of
      None \<Rightarrow> Raised (user_not_found target)
    | Some r \<Rightarrow> (case row_to_user (apply_changes (c\<lparr> uc_password_hash := None \<rparr>) r) of
        Inl e \<Rightarrow> Raised e
      | Inr u \<Rightarrow> Done u ((if uc_disabled c = Some True then drop_sessions target else (\<lambda>d. d))
          ((if mutated_fields c \<noteq> [] then add_audit (admin_event UPDATE_USER admin target now
             [(''mutated_fields'', JStrs (mutated_fields c))]) else (\<lambda>d. d))
           (change_user target (c\<lparr> uc_password_hash := None \<rparr>) d)))))"
proof (cases "find_row wr_user_id target (db_users d)")
  case None
  then show ?thesis by (simp add: update_user_tx_def tx_bind_def user_update_missing tx_raise_def)
next
  case (Some r)
  then show ?thesis
    by (cases "row_to_user (apply_changes (c\<lparr> uc_password_hash := None \<rparr>) r)")
      (simp_all add: update_user_tx_def tx_bind_def user_update_eval [OF Some] tx_then_def
        record_admin_event_eq tx_return_def session_delete_by_user_Done)
qed

text \<open>
  Changing a user sets exactly the given columns of that user, writes one UPDATE_USER record
  with the sorted names of the changed fields when there is any, and ends the user's sessions
  when the user is being disabled, in one transaction; an administrator can neither give up the
  own privilege nor disable the own account, and a refused request changes nothing.
\<close>

theorem update_user_result:
  "update_user admin target c now w = (case self_protected admin target c of
      Some field \<Rightarrow> (Inl (err SelfProtectionError [(''admin_id'', JInt admin),
        (''target_user_id'', JInt target), (''attempted_field'', JStr field)]), w)
    | None \<Rightarrow> (case find_row wr_user_id target (db_users (w_db w)) of
        None \<Rightarrow> (Inl (err UserNotFoundError [(''user_id'', JInt target)]), w)
      | Some r \<Rightarrow> (case row_to_user (apply_changes (c\<lparr> uc_password_hash := None \<rparr>) r) of
          Inl e \<Rightarrow> (Inl e, w)
        | Inr u \<Rightarrow> (Inr (u, mutated_fields c), w\<lparr> w_db :=
            (if uc_disabled c = Some True then drop_sessions target else (\<lambda>d. d))
            ((if mutated_fields c \<noteq> [] then add_audit (admin_event UPDATE_USER admin target now
                [(''mutated_fields'', JStrs (mutated_fields c))]) else (\<lambda>d. d))
             (db_users_update (update_rows (\<lambda>r. wr_user_id r = target)
               (apply_changes (c\<lparr> uc_password_hash := None \<rparr>))) (w_db w))) \<rparr>))))"
  by (simp add: update_user_def in_uow_def uow_def update_user_tx_eval user_not_found_def change_user_def
      split: option.split sum.split)

text \<open>
  C19: whatever sequence of logins, logouts, requests and administrative operations runs, a
  disabled user never has a session: disabling ends the sessions, and no login opens a new one.
\<close>

theorem disabled_user_has_no_session:
  assumes "reachable account_init (account_step allowed au idle) w"
    and "r \<in> set (db_users (w_db w))" and "wr_disabled r"
  shows "\<forall>s \<in> set (db_sessions (w_db w)). er_user_id s \<noteq> wr_user_id r"
proof
  fix s assume "s \<in> set (db_sessions (w_db w))"
  moreover have inv: "account_inv w" by (rule accounts.inv_reachable [OF assms(1)])
  ultimately obtain q where q: "q \<in> set (db_users (w_db w))" "wr_user_id q = er_user_id s" "\<not> wr_disabled q"
    by (auto simp: account_inv_def live_sessions_def enabled_user_def)
  have "distinct (map wr_user_id (db_users (w_db w)))"
    using inv by (simp add: account_inv_def users_wf_def users.unique_keys_def)
  then show "er_user_id s \<noteq> wr_user_id r"
    using q assms(2,3) by (auto simp: distinct_map inj_on_def)
qed

definition two_admins :: world where
  "two_admins = accounts_world [sample_account 1 ''a@x'' True, sample_account 2 ''b@x'' True] []"

definition disabling :: user_changes where
  "disabling = \<lparr> uc_display_name = None, uc_is_admin = None, uc_disabled = Some True, uc_password_hash = None \<rparr>"

lemma two_admins_disable:
  "\<exists>res w. update_user 1 2 disabling 9 two_admins = (res, w) \<and>
     db_users (w_db w) = [sample_account 1 ''a@x'' True, (sample_account 2 ''b@x'' True)\<lparr> wr_disabled := True \<rparr>]"
  by (simp add: update_user_def self_protected_def disabling_def in_uow_def uow_def update_user_tx_eval
      two_admins_def accounts_world_def sample_account_def row_to_user_def user_post_init_def check_def
      apply_changes_def or_else_def change_user_def update_rows_def drop_sessions_def add_audit_def)

lemma two_admins_init: "admins_init two_admins" "account_init two_admins"
  by (auto simp: admins_init_def account_init_def users_wf_def users.unique_keys_def enabled_admin_def
      two_admins_def accounts_world_def sample_account_def)

theorem disabled_user_has_no_session_witness:
  "\<exists>w. reachable account_init (account_step (\<lambda>_ _. True) sample_auth 60) w \<and>
     (sample_account 2 ''b@x'' True)\<lparr> wr_disabled := True \<rparr> \<in> set (db_users (w_db w)) \<and>
     (\<forall>s \<in> set (db_sessions (w_db w)). er_user_id s \<noteq> 2)"
proof -
  obtain res w where step: "update_user 1 2 disabling 9 two_admins = (res, w)"
    and users: "db_users (w_db w) = [sample_account 1 ''a@x'' True, (sample_account 2 ''b@x'' True)\<lparr> wr_disabled := True \<rparr>]"
    using two_admins_disable by blast
  have "reachable account_init (account_step (\<lambda>_ _. True) sample_auth 60) w"
    by (rule reachable_step [OF reachable_init [where init = account_init, OF two_admins_init(2)]])
      (rule account_step.update [OF TrueI step])
  moreover from disabled_user_has_no_session [OF this, of "(sample_account 2 ''b@x'' True)\<lparr> wr_disabled := True \<rparr>"] users
  have "\<forall>s \<in> set (db_sessions (w_db w)). er_user_id s \<noteq> 2" by (simp add: sample_account_def)
  ultimately show ?thesis using users by auto
qed

text \<open>
  C20: as long as every administrative operation is made by a user who is an enabled
  administrator in the state in which the operation takes effect, an enabled administrator
  always remains.
\<close>

theorem some_admin_remains:
  assumes "reachable admins_init (account_step acts_as_admin au idle) w"
  shows "\<exists>r \<in> set (db_users (w_db w)). wr_is_admin r \<and> \<not> wr_disabled r"
  using admins.inv_reachable [OF assms] by (auto simp: admins_init_def enabled_admin_def)

theorem some_admin_remains_witness:
  "\<exists>w. reachable admins_init (account_step acts_as_admin sample_auth 60) w \<and>
     (\<exists>r \<in> set (db_users (w_db w)). wr_is_admin r \<and> \<not> wr_disabled r)"
proof -
  obtain res w where step: "update_user 1 2 disabling 9 two_admins = (res, w)"
    using two_admins_disable by blast
  have "acts_as_admin 1 two_admins"
    by (simp add: acts_as_admin_def require_admin_def require_session_def in_uow_def uow_def user_get_by_id_def
        tx_read_def opt_row_to_user_def and_then_def row_to_user_def user_post_init_def check_def
        two_admins_def accounts_world_def sample_account_def)
  then have "account_step acts_as_admin sample_auth 60 two_admins w"
    by (rule account_step.update [OF _ step])
  then have "reachable admins_init (account_step acts_as_admin sample_auth 60) w"
    by (rule reachable_step [OF reachable_init [where init = admins_init, OF two_admins_init(1)]])
  then show ?thesis using some_admin_remains by blast
qed

text \<open>The routes check the privilege in one unit of work and make the change in another.\<close>

definition demotion :: user_changes where
  "demotion = \<lparr> uc_display_name = None, uc_is_admin = Some False, uc_disabled = None, uc_password_hash = None \<rparr>"

lemma acts_as_admin_find:
  assumes "acts_as_admin i w"
  shows "\<exists>r u. find_row wr_user_id i (db_users (w_db w)) = Some r \<and> row_to_user r = Inr u"
  using assms
  by (auto simp: acts_as_admin_def require_admin_def require_session_def in_uow_def uow_def
      user_get_by_id_def tx_read_def opt_row_to_user_def and_then_Inr
      split: sum.splits option.splits if_splits)

definition demote :: "user_id \<Rightarrow> db \<Rightarrow> db" where
  "demote b = change_user b demotion"

lemma demotion_succeeds:
  assumes "find_row wr_user_id b (db_users (w_db w)) = Some r" and "row_to_user r = Inr u" and "a \<noteq> b"
    and "update_user a b demotion now w = (res, w')"
  shows "res \<in> range Inr \<and> db_users (w_db w') = db_users (demote b (w_db w))"
proof -
  have "demotion\<lparr> uc_password_hash := None \<rparr> = demotion" by (simp add: demotion_def)
  moreover obtain v where "row_to_user (apply_changes demotion r) = Inr v"
    using assms(2) by (auto simp: row_to_user_Inr apply_changes_def or_else_def demotion_def)
  ultimately show ?thesis
    using assms by (auto simp: update_user_def in_uow_def uow_def update_user_tx_eval self_protected_def
        demote_def demotion_def)
qed

lemma demote_enabled_admin: "enabled_admin (demote b d) i \<longleftrightarrow> enabled_admin d i \<and> i \<noteq> b"
  by (auto simp: enabled_admin_def demote_def change_user_def update_rows_def apply_changes_def
      or_else_def demotion_def image_iff)

lemma find_row_demote:
  "a \<noteq> b \<Longrightarrow> find_row wr_user_id a (db_users (demote b d)) = find_row wr_user_id a (db_users d)"
  by (simp add: demote_def change_user_def find_row_update_rows)

text \<open>
  Two administrators whose requests both pass the privilege check before either change is
  made demote each other: both requests succeed, and if there was no third administrator, no
  enabled administrator is left.
\<close>

theorem mutual_demotion:
  assumes "acts_as_admin a w" and "acts_as_admin b w" and "a \<noteq> b"
    and "update_user a b demotion now w = (ra, w1)" and "update_user b a demotion now' w1 = (rb, w2)"
  shows "ra \<in> range Inr \<and> rb \<in> range Inr \<and>
    (\<forall>i. enabled_admin (w_db w2) i \<longleftrightarrow> enabled_admin (w_db w) i \<and> i \<noteq> a \<and> i \<noteq> b)"
proof -
  obtain r u q v where rows: "find_row wr_user_id a (db_users (w_db w)) = Some r" "row_to_user r = Inr u"
    "find_row wr_user_id b (db_users (w_db w)) = Some q" "row_to_user q = Inr v"
    using acts_as_admin_find [OF assms(1)] acts_as_admin_find [OF assms(2)] by blast
  have 1: "ra \<in> range Inr" "db_users (w_db w1) = db_users (demote b (w_db w))"
    using demotion_succeeds [OF rows(3,4) assms(3,4)] by simp_all
  then have "find_row wr_user_id a (db_users (w_db w1)) = Some r"
    using rows(1) assms(3) by (simp add: find_row_demote)
  then have 2: "rb \<in> range Inr" "db_users (w_db w2) = db_users (demote a (w_db w1))"
    using demotion_succeeds [OF _ rows(2) _ assms(5)] assms(3) by simp_all
  have same: "enabled_admin d i = enabled_admin d' i" if "db_users d = db_users d'" for d d' i
    using that by (simp add: enabled_admin_def)
  have "enabled_admin (w_db w2) i \<longleftrightarrow> enabled_admin (w_db w) i \<and> i \<noteq> a \<and> i \<noteq> b" for i
    using same [OF 2(2)] same [OF 1(2)] by (auto simp: demote_enabled_admin)
  then show ?thesis using 1(1) 2(1) by blast
qed

theorem mutual_demotion_witness:
  "\<exists>w. acts_as_admin 1 two_admins \<and> acts_as_admin 2 two_admins \<and> \<not> (\<exists>i. enabled_admin (w_db w) i) \<and>
     w = snd (update_user 2 1 demotion 8 (snd (update_user 1 2 demotion 7 two_admins)))"
proof -
  have act: "acts_as_admin 1 two_admins" "acts_as_admin 2 two_admins"
    by (simp_all add: acts_as_admin_def require_admin_def require_session_def in_uow_def uow_def
        user_get_by_id_def tx_read_def opt_row_to_user_def and_then_def row_to_user_def user_post_init_def
        check_def two_admins_def accounts_world_def sample_account_def)
  obtain r1 w1 r2 w2 where steps: "update_user 1 2 demotion 7 two_admins = (r1, w1)"
    "update_user 2 1 demotion 8 w1 = (r2, w2)" by (metis surj_pair)
  have "enabled_admin (w_db two_admins) i \<longleftrightarrow> i = 1 \<or> i = 2" for i
    by (auto simp: enabled_admin_def two_admins_def accounts_world_def sample_account_def)
  then show ?thesis using mutual_demotion [OF act _ steps] act steps by auto
qed

end
