(* ===== verification/Repo_Subscription.thy ===== *)
theory Repo_Subscription
  imports Repo_Run
begin

text \<open>
  \<open>SqliteSubscriptionRepository\<close>.  Besides the conversions and operations: who receives a
  run's report.  The query joins users and subscriptions; its result is a set of addresses.
\<close>

section \<open>Conversions\<close>

definition row_to_subscription :: "subscription_row \<Rightarrow> exn + subscription" where
  "row_to_subscription row =
     and_then (enum_or [(''subscription_id'', JInt (ur_subscription_id row)),
         (''granularity'', JStr (ur_granularity row))]
       (enum_of_value granularity_value granularities (ur_granularity row))) (\<lambda>g.
     aggregate_or [(''subscription_id'', JInt (ur_subscription_id row)), (''reason'', JStr [])]
       (subscription_post_init
         \<lparr> sub_subscription_id = ur_subscription_id row, sub_user_id = ur_user_id row,
           sub_granularity = g, sub_created_at = utc (ur_created_at row),
           sub_target_value = ur_target_value row \<rparr>))"

section \<open>Operations\<close>

text \<open>The disjunction of the query: one branch per granularity, the last only for tagged runs.\<close>

definition branch_matches :: "string \<Rightarrow> string set \<Rightarrow> subscription_row \<Rightarrow> bool" where
  "branch_matches pipeline tags s \<longleftrightarrow>
     ur_granularity s = ''GLOBAL'' \<or>
     (ur_granularity s = ''PIPELINE'' \<and> ur_target_value s = Some pipeline) \<or>
     (tags \<noteq> {} \<and> ur_granularity s = ''TAG'' \<and>
        (case ur_target_value s of Some t \<Rightarrow> t \<in> tags | None \<Rightarrow> False))"

definition recipients_for_run :: "string \<Rightarrow> string set \<Rightarrow> db \<Rightarrow> string set" where
  "recipients_for_run pipeline tags d =
     set [wr_email u. u \<leftarrow> db_users d, \<not> wr_disabled u, s \<leftarrow> db_subscriptions d,
            ur_user_id s = wr_user_id u, branch_matches pipeline tags s]"

definition list_recipients_for_run :: "string \<Rightarrow> string set \<Rightarrow> string set tx" where
  "list_recipients_for_run pipeline tags = tx_read (\<lambda>d. Inr (recipients_for_run pipeline tags d))"

definition subscriptions_for_user :: "user_id \<Rightarrow> subscription list tx" where
  "subscriptions_for_user uid = tx_read (\<lambda>d. map_res row_to_subscription
     (sort_key ur_subscription_id (filter (\<lambda>s. ur_user_id s = uid) (db_subscriptions d))))"

definition subscription_get_by_id :: "subscription_id \<Rightarrow> subscription option tx" where
  "subscription_get_by_id i = tx_read (\<lambda>d. case find_row ur_subscription_id i (db_subscriptions d) of
     None \<Rightarrow> Inr None
   | Some row \<Rightarrow> and_then (row_to_subscription row) (\<lambda>s. Inr (Some s)))"

definition opt_json :: "string option \<Rightarrow> json" where
  "opt_json t = (case t of None \<Rightarrow> JNull | Some s \<Rightarrow> JStr s)"

text \<open>SQLite's message for an INSERT that the table does not accept, as \<open>str(exc)\<close>.\<close>

definition subscription_reason :: "db \<Rightarrow> subscription_row \<Rightarrow> string" where
  "subscription_reason d r =
     (if ur_granularity r = ''GLOBAL'' \<and>
         (ur_user_id r, ''GLOBAL'') \<in> (\<lambda>s. (ur_user_id s, ur_granularity s)) ` set (db_subscriptions d)
      then ''UNIQUE constraint failed: subscriptions.user_id''
      else if ur_target_value r \<noteq> None \<and> (ur_user_id r, ur_granularity r, ur_target_value r)
          \<in> (\<lambda>s. (ur_user_id s, ur_granularity s, ur_target_value s)) ` set (db_subscriptions d)
      then ''UNIQUE constraint failed: subscriptions.user_id, subscriptions.granularity, subscriptions.target_value''
      else ''FOREIGN KEY constraint failed'')"

definition subscription_add :: "int \<Rightarrow> user_id \<Rightarrow> granularity \<Rightarrow> string option \<Rightarrow> subscription tx" where
  "subscription_add now uid g target =
     tx_then (if g = GLOBAL
       then tx_guard (target \<noteq> None) (err PersistenceError
         [(''granularity'', JStr (granularity_value g)), (''target_value'', opt_json target)])
       else tx_guard (target = None \<or> target = Some []) (err PersistenceError
         [(''granularity'', JStr (granularity_value g)), (''target_value'', opt_json target)]))
     (tx_bind (tx_read (\<lambda>d.
        let row = \<lparr> ur_subscription_id = db_next_subscription d, ur_user_id = uid,
                    ur_granularity = granularity_value g, ur_target_value = target,
                    ur_created_at = now \<rparr>
        in if subscriptions_accepts d row then Inr row
           else Inl (err PersistenceError [(''user_id'', JInt uid),
             (''granularity'', JStr (granularity_value g)), (''target_value'', opt_json target),
             (''reason'', JStr (subscription_reason d row))]))) (\<lambda>row.
      tx_then (tx_write (\<lambda>d. d\<lparr> db_subscriptions := db_subscriptions d @ [row],
                              db_next_subscription := db_next_subscription d + 1 \<rparr>))
      (tx_lift (subscription_post_init
        \<lparr> sub_subscription_id = ur_subscription_id row, sub_user_id = uid, sub_granularity = g,
          sub_created_at = utc now, sub_target_value = target \<rparr>))))"

definition subscription_remove :: "subscription_id \<Rightarrow> unit tx" where
  "subscription_remove i =
     tx_write (db_subscriptions_update (filter (\<lambda>s. ur_subscription_id s \<noteq> i)))"

lemma subscription_plain [plain_intro]:
  "plain (list_recipients_for_run p ts)" "plain (subscriptions_for_user uid)"
  "plain (subscription_get_by_id i)" "plain (subscription_add now uid g t)"
  "plain (subscription_remove i)"
  unfolding list_recipients_for_run_def subscriptions_for_user_def subscription_get_by_id_def
    subscription_add_def subscription_remove_def
  by (intro plain_intro)+

section \<open>Who receives a report\<close>

lemma recipients_iff:
  "e \<in> recipients_for_run pipeline tags d \<longleftrightarrow>
   (\<exists>u \<in> set (db_users d). wr_email u = e \<and> \<not> wr_disabled u \<and>
      (\<exists>s \<in> set (db_subscriptions d). ur_user_id s = wr_user_id u \<and> branch_matches pipeline tags s))"
  by (auto simp: recipients_for_run_def)

text \<open>The abstract meaning of a subscription.\<close>

fun covers :: "granularity \<Rightarrow> string option \<Rightarrow> string \<Rightarrow> string set \<Rightarrow> bool" where
  "covers GLOBAL t p tags = True"
| "covers PIPELINE t p tags = (t = Some p)"
| "covers TAG t p tags = (\<exists>x \<in> tags. t = Some x)"

lemma branch_matches_covers:
  "ur_granularity s = granularity_value g \<Longrightarrow> branch_matches p tags s = covers g (ur_target_value s) p tags"
  by (cases g) (auto simp: branch_matches_def split: option.splits)

section \<open>Properties\<close>

text \<open>
  C16: after a subscription is added for an enabled user, that user receives exactly the reports
  the new subscription covers in addition to those covered before: GLOBAL covers every run,
  PIPELINE the runs of its pipeline, TAG the runs carrying its tag.  No other address is added.
\<close>

theorem subscription_add_recipients:
  assumes "subscription_add now uid g target d = Done s d'"
  shows "recipients_for_run p tags d' = recipients_for_run p tags d \<union>
    {wr_email u | u. u \<in> set (db_users d) \<and> wr_user_id u = uid \<and> \<not> wr_disabled u \<and>
       covers g target p tags}"
proof -
  obtain row where row: "row = \<lparr> ur_subscription_id = db_next_subscription d, ur_user_id = uid,
      ur_granularity = granularity_value g, ur_target_value = target, ur_created_at = now \<rparr>"
    and d': "d' = d\<lparr> db_subscriptions := db_subscriptions d @ [row],
                   db_next_subscription := db_next_subscription d + 1 \<rparr>"
    using assms by (auto simp: subscription_add_def tx_then_Done tx_bind_Done tx_read_Done tx_guard_Done
        tx_write_def tx_lift_Done Let_def split: if_splits)
  have "branch_matches p tags row = covers g target p tags"
    using branch_matches_covers [of row g p tags] by (simp add: row)
  moreover have "ur_user_id row = uid" by (simp add: row)
  ultimately show ?thesis
    unfolding set_eq_iff by (auto simp: recipients_iff d')
qed

definition sample_user_row :: user_row where
  "sample_user_row = \<lparr> wr_user_id = 1, wr_email = ''a@x'', wr_display_name = ''A'',
     wr_disabled = False, wr_created_at = 1, wr_password_hash = ''h'', wr_is_admin = False \<rparr>"

theorem subscription_add_recipients_witness:
  "\<exists>s d'. subscription_add 5 1 TAG (Some ''qa'') (empty_db\<lparr> db_users := [sample_user_row] \<rparr>) = Done s d' \<and>
     recipients_for_run ''nightly'' {''qa''} d' = {''a@x''}"
proof -
  let ?d = "empty_db\<lparr> db_users := [sample_user_row] \<rparr>"
  have "\<exists>s d'. subscription_add 5 1 TAG (Some ''qa'') ?d = Done s d'"
    by (simp add: subscription_add_def tx_then_def tx_bind_def tx_guard_def tx_return_def tx_read_def
        tx_write_def tx_lift_def Let_def subscriptions_accepts_def empty_db_def sample_user_row_def
        subscription_post_init_def check_def)
  then obtain s d' where add: "subscription_add 5 1 TAG (Some ''qa'') ?d = Done s d'" by blast
  have "recipients_for_run ''nightly'' {''qa''} ?d = {}"
    by (simp add: recipients_for_run_def empty_db_def)
  moreover have "{wr_email u | u. u \<in> set (db_users ?d) \<and> wr_user_id u = 1 \<and> \<not> wr_disabled u \<and>
      covers TAG (Some ''qa'') ''nightly'' {''qa''}} = {''a@x''}"
    by (auto simp: sample_user_row_def)
  ultimately show ?thesis
    using add subscription_add_recipients [OF add, of "''nightly''" "{''qa''}"] by auto
qed

end
