(* ===== verification/Subscriptions.thy ===== *)
theory Subscriptions
  imports Repo_Subscription Admin_Users
begin

text \<open>
  The subscription use cases: \<open>SubscribeUseCase\<close>, \<open>UnsubscribeUseCase\<close> and the two
  administrative ones of \<open>admin_subscriptions.py\<close>.  The tag vocabulary and the registered
  pipelines are arguments; each operation reads the clock twice, once for the row and once for
  the audit record.

  The lemmas give each operation in closed form on every branch.  The properties: who may remove
  a subscription, and that subscribing and unsubscribing cancel out.
\<close>

section \<open>The use cases\<close>

definition check_target :: "string set \<Rightarrow> string set \<Rightarrow> granularity \<Rightarrow> string option \<Rightarrow> exn + unit" where
  "check_target vocabulary pipelines g target =
     (if g = PIPELINE
      then check (target \<notin> Some ` pipelines) (err UnknownPipelineTypeError
        [(''target_value'', opt_json target), (''registered_pipelines'', JStrs (sorted_of pipelines))]) (Inr ())
      else check (g = TAG \<and> target \<noteq> None \<and> target \<notin> Some ` vocabulary) (err UnknownTagError
        [(''target_value'', opt_json target)]) (Inr ()))"

definition subscription_event ::
  "audit_action \<Rightarrow> user_id \<Rightarrow> string \<Rightarrow> dict \<Rightarrow> granularity \<Rightarrow> string option \<Rightarrow> int \<Rightarrow> audit_event" where
  "subscription_event action actor resource details g target now =
     \<lparr> ae_timestamp = utc now, ae_action = action, ae_actor = user_resource actor,
       ae_resource = resource, ae_outcome = SUCCESS,
       ae_details = details @ [(''granularity'', JStr (granularity_value g)), (''target_value'', opt_json target)],
       ae_audit_id = None \<rparr>"

definition record_event :: "audit_event \<Rightarrow> unit tx" where
  "record_event ev = tx_bind (tx_lift (audit_event_post_init ev)) audit_record"

definition subscription_resource :: "subscription_id \<Rightarrow> string" where
  "subscription_resource i = ''subscription:'' @ show_int i"

definition subscribe_tx :: "user_id \<Rightarrow> granularity \<Rightarrow> string option \<Rightarrow> int \<Rightarrow> int \<Rightarrow> subscription tx" where
  "subscribe_tx uid g target t1 t2 =
     tx_bind (subscription_add t1 uid g target) (\<lambda>saved.
     tx_then (record_event (subscription_event SUBSCRIBE uid
       (subscription_resource (sub_subscription_id saved)) [] g target t2))
     (tx_return saved))"

definition subscribe ::
  "string set \<Rightarrow> string set \<Rightarrow> user_id \<Rightarrow> granularity \<Rightarrow> string option \<Rightarrow> int \<Rightarrow> int \<Rightarrow> world \<Rightarrow>
   (exn + subscription) \<times> world" where
  "subscribe vocabulary pipelines uid g target t1 t2 w =
     (case check_target vocabulary pipelines g target of
        Inl e \<Rightarrow> (Inl e, w) | Inr _ \<Rightarrow> in_uow (subscribe_tx uid g target t1 t2) w)"

definition unsubscribe_tx :: "subscription_id \<Rightarrow> user_id \<Rightarrow> int \<Rightarrow> unit tx" where
  "unsubscribe_tx sid uid now =
     tx_bind (subscription_get_by_id sid) (\<lambda>existing. case existing of
       None \<Rightarrow> tx_raise (err SubscriptionNotFoundError [(''subscription_id'', JInt sid)])
     | Some s \<Rightarrow>
         tx_then (tx_guard (sub_user_id s \<noteq> uid)
           (err SubscriptionForbiddenError [(''subscription_id'', JInt sid)]))
         (tx_then (record_event (subscription_event UNSUBSCRIBE uid (subscription_resource sid) []
            (sub_granularity s) (sub_target_value s) now))
         (subscription_remove sid)))"

definition unsubscribe :: "subscription_id \<Rightarrow> user_id \<Rightarrow> int \<Rightarrow> world \<Rightarrow> (exn + unit) \<times> world" where
  "unsubscribe sid uid now = in_uow (unsubscribe_tx sid uid now)"

definition admin_subscribe_tx ::
  "user_id \<Rightarrow> user_id \<Rightarrow> granularity \<Rightarrow> string option \<Rightarrow> int \<Rightarrow> int \<Rightarrow> subscription tx" where
  "admin_subscribe_tx admin uid g target t1 t2 =
     tx_bind (user_get_by_id uid) (\<lambda>user. case user of
       None \<Rightarrow> tx_raise (err UserNotFoundError [(''target_user_id'', JInt uid)])
     | Some u \<Rightarrow>
         tx_bind (subscription_add t1 uid g target) (\<lambda>saved.
         tx_then (record_event (subscription_event SUBSCRIBE admin (user_resource uid)
           [(''target_user_id'', JInt uid)] g target t2))
         (tx_return saved)))"

definition admin_subscribe ::
  "string set \<Rightarrow> string set \<Rightarrow> user_id \<Rightarrow> user_id \<Rightarrow> granularity \<Rightarrow> string option \<Rightarrow> int \<Rightarrow> int \<Rightarrow> world \<Rightarrow>
   (exn + subscription) \<times> world" where
  "admin_subscribe vocabulary pipelines admin uid g target t1 t2 w =
     (case check_target vocabulary pipelines g target of
        Inl e \<Rightarrow> (Inl e, w) | Inr _ \<Rightarrow> in_uow (admin_subscribe_tx admin uid g target t1 t2) w)"

definition admin_unsubscribe_tx :: "user_id \<Rightarrow> user_id \<Rightarrow> subscription_id \<Rightarrow> int \<Rightarrow> unit tx" where
  "admin_unsubscribe_tx admin uid sid now =
     tx_bind (subscription_get_by_id sid) (\<lambda>existing.
     case (case existing of Some s \<Rightarrow> if sub_user_id s \<noteq> uid then None else Some s | None \<Rightarrow> None) of
       None \<Rightarrow> tx_raise (err SubscriptionNotFoundError
         [(''subscription_id'', JInt sid), (''target_user_id'', JInt uid)])
     | Some s \<Rightarrow>
         tx_then (record_event (subscription_event UNSUBSCRIBE admin (user_resource uid)
           [(''target_user_id'', JInt uid), (''subscription_id'', JInt sid)]
           (sub_granularity s) (sub_target_value s) now))
         (subscription_remove sid))"

definition admin_unsubscribe ::
  "user_id \<Rightarrow> user_id \<Rightarrow> subscription_id \<Rightarrow> int \<Rightarrow> world \<Rightarrow> (exn + unit) \<times> world" where
  "admin_unsubscribe admin uid sid now = in_uow (admin_unsubscribe_tx admin uid sid now)"

section \<open>What they do\<close>

lemma record_event_eq:
  assumes "ae_resource ev \<noteq> []" and "ae_actor ev \<noteq> []" and "dt_aware (ae_timestamp ev)"
  shows "record_event ev d = Done () (add_audit ev d)"
proof -
  have "audit_event_post_init ev = Inr ev" using assms by (simp add: audit_event_post_init_Inr audit_event_ok_def)
  then show ?thesis
    using assms by (simp add: record_event_def tx_bind_def tx_lift_def tx_read_def audit_record_event)
qed

lemma record_subscription_event [simp]:
  "resource \<noteq> [] \<Longrightarrow> record_event (subscription_event action uid resource details g target now) d =
     Done () (add_audit (subscription_event action uid resource details g target now) d)"
  by (simp add: record_event_eq subscription_event_def user_resource_def)

lemma resource_nonempty [simp]: "subscription_resource i \<noteq> []" "user_resource i \<noteq> []"
  by (simp_all add: subscription_resource_def user_resource_def)

definition new_subscription_row :: "db \<Rightarrow> int \<Rightarrow> user_id \<Rightarrow> granularity \<Rightarrow> string option \<Rightarrow> subscription_row" where
  "new_subscription_row d now uid g target = \<lparr> ur_subscription_id = db_next_subscription d, ur_user_id = uid,
     ur_granularity = granularity_value g, ur_target_value = target, ur_created_at = now \<rparr>"

definition new_subscription :: "db \<Rightarrow> int \<Rightarrow> user_id \<Rightarrow> granularity \<Rightarrow> string option \<Rightarrow> subscription" where
  "new_subscription d now uid g target = \<lparr> sub_subscription_id = db_next_subscription d, sub_user_id = uid,
     sub_granularity = g, sub_created_at = utc now, sub_target_value = target \<rparr>"

definition insert_subscription :: "subscription_row \<Rightarrow> db \<Rightarrow> db" where
  "insert_subscription row d = d\<lparr> db_subscriptions := db_subscriptions d @ [row],
     db_next_subscription := db_next_subscription d + 1 \<rparr>"

lemma subscription_add_Done:
  "subscription_add now uid g target d = Done s d' \<longleftrightarrow>
     target_ok g target \<and> subscriptions_accepts d (new_subscription_row d now uid g target) \<and>
     s = new_subscription d now uid g target \<and>
     d' = insert_subscription (new_subscription_row d now uid g target) d"
  by (auto simp: subscription_add_def tx_then_Done tx_bind_Done tx_read_Done tx_guard_Done tx_write_def
      tx_lift_Done Let_def subscription_post_init_Inr target_ok_def new_subscription_row_def
      new_subscription_def insert_subscription_def split: if_splits)

lemma subscribe_tx_Done:
  "subscribe_tx uid g target t1 t2 d = Done s d' \<longleftrightarrow>
     subscription_add t1 uid g target d = Done s (insert_subscription (new_subscription_row d t1 uid g target) d) \<and>
     d' = add_audit (subscription_event SUBSCRIBE uid (subscription_resource (sub_subscription_id s)) [] g target t2)
       (insert_subscription (new_subscription_row d t1 uid g target) d)"
proof (cases "subscription_add t1 uid g target d")
  case (Done s1 d1)
  then have "d1 = insert_subscription (new_subscription_row d t1 uid g target) d"
    by (simp add: subscription_add_Done)
  then show ?thesis
    using Done by (auto simp: subscribe_tx_def tx_bind_def tx_then_def tx_return_def)
qed (simp_all add: subscribe_tx_def tx_bind_def)

lemma subscribe_Inr:
  assumes "subscribe vocabulary pipelines uid g target t1 t2 w = (Inr s, w')"
  shows "target_ok g target \<and> subscriptions_accepts (w_db w) (new_subscription_row (w_db w) t1 uid g target) \<and>
    s = new_subscription (w_db w) t1 uid g target \<and>
    w' = w\<lparr> w_db := add_audit (subscription_event SUBSCRIBE uid
        (subscription_resource (sub_subscription_id s)) [] g target t2)
      (insert_subscription (new_subscription_row (w_db w) t1 uid g target) (w_db w)) \<rparr>"
proof -
  have "plain (subscribe_tx uid g target t1 t2)"
    unfolding subscribe_tx_def record_event_def by (intro plain_intro)
  moreover have run: "in_uow (subscribe_tx uid g target t1 t2) w = (Inr s, w')"
    using assms by (simp add: subscribe_def split: sum.splits)
  ultimately obtain d where "subscribe_tx uid g target t1 t2 (w_db w) = Done s d" "w' = w\<lparr> w_db := d \<rparr>"
    by (cases "subscribe_tx uid g target t1 t2 (w_db w)") (auto simp: in_uow_def uow_def plain_def)
  then show ?thesis by (simp add: subscribe_tx_Done subscription_add_Done)
qed

text \<open>The removal, for a subscription that has been found.\<close>

definition removed :: "subscription_id \<Rightarrow> db \<Rightarrow> db" where
  "removed sid = db_subscriptions_update (filter (\<lambda>s. ur_subscription_id s \<noteq> sid))"

lemma unsubscribe_tx_eval:
  "unsubscribe_tx sid uid now d = (case find_row ur_subscription_id sid (db_subscriptions d) of
      None \<Rightarrow> Raised (err SubscriptionNotFoundError [(''subscription_id'', JInt sid)])
    | Some row \<Rightarrow> (case row_to_subscription row of
        Inl e \<Rightarrow> Raised e
      | Inr s \<Rightarrow> if sub_user_id s \<noteq> uid
          then Raised (err SubscriptionForbiddenError [(''subscription_id'', JInt sid)])
          else Done () (removed sid (add_audit (subscription_event UNSUBSCRIBE uid
            (subscription_resource sid) [] (sub_granularity s) (sub_target_value s) now) d))))"
  by (simp add: unsubscribe_tx_def subscription_get_by_id_def tx_bind_def tx_read_def tx_then_def
      tx_guard_def tx_raise_def tx_return_def and_then_def subscription_remove_def tx_write_def removed_def
      split: option.split sum.split)

section \<open>Properties\<close>

text \<open>
  Unsubscribing removes exactly the named subscription and writes one UNSUBSCRIBE record when
  the caller owns it; a subscription of somebody else, and an unknown one, are refused with their
  own errors and nothing changes.
\<close>

theorem unsubscribe_result:
  "unsubscribe sid uid now w = (case find_row ur_subscription_id sid (db_subscriptions (w_db w)) of
      None \<Rightarrow> (Inl (err SubscriptionNotFoundError [(''subscription_id'', JInt sid)]), w)
    | Some row \<Rightarrow> (case row_to_subscription row of
        Inl e \<Rightarrow> (Inl e, w)
      | Inr s \<Rightarrow> if sub_user_id s \<noteq> uid
          then (Inl (err SubscriptionForbiddenError [(''subscription_id'', JInt sid)]), w)
          else (Inr (), w\<lparr> w_db := db_subscriptions_update (filter (\<lambda>r. ur_subscription_id r \<noteq> sid))
            (add_audit (subscription_event UNSUBSCRIBE uid (subscription_resource sid) []
              (sub_granularity s) (sub_target_value s) now) (w_db w)) \<rparr>)))"
  by (simp add: unsubscribe_def in_uow_def uow_def unsubscribe_tx_eval removed_def split: option.split sum.split)

lemma row_to_new_subscription:
  "target_ok g target \<Longrightarrow>
   row_to_subscription (new_subscription_row d now uid g target) = Inr (new_subscription d now uid g target)"
  by (simp add: row_to_subscription_def new_subscription_row_def new_subscription_def
      granularity_enum.of_value_value aggregate_or_Inr subscription_post_init_Inr)

text \<open>
  A subscription that has just been made can be ended by the user who made it, and then the
  subscriptions, and with them the recipients of every run, are what they were before; what
  remains are the SUBSCRIBE and the UNSUBSCRIBE record.
\<close>

theorem subscribe_unsubscribe:
  assumes new: "subscribe vocabulary pipelines uid g target t1 t2 w = (Inr s, w1)"
    and fresh: "\<forall>r \<in> set (db_subscriptions (w_db w)). ur_subscription_id r < db_next_subscription (w_db w)"
  shows "\<exists>w2. unsubscribe (sub_subscription_id s) uid t3 w1 = (Inr (), w2) \<and>
    db_subscriptions (w_db w2) = db_subscriptions (w_db w) \<and>
    (\<forall>p tags. recipients_for_run p tags (w_db w2) = recipients_for_run p tags (w_db w)) \<and>
    db_audit (w_db w2) = db_audit (add_audit
      (subscription_event UNSUBSCRIBE uid (subscription_resource (sub_subscription_id s)) [] g target t3)
      (add_audit (subscription_event SUBSCRIBE uid (subscription_resource (sub_subscription_id s)) [] g target t2)
        (w_db w)))"
proof -
  let ?row = "new_subscription_row (w_db w) t1 uid g target" and ?id = "db_next_subscription (w_db w)"
  have ok: "target_ok g target" and s: "s = new_subscription (w_db w) t1 uid g target"
    and w1: "w1 = w\<lparr> w_db := add_audit (subscription_event SUBSCRIBE uid
        (subscription_resource (sub_subscription_id s)) [] g target t2) (insert_subscription ?row (w_db w)) \<rparr>"
    using subscribe_Inr [OF new] by simp_all
  have id: "sub_subscription_id s = ?id" "ur_subscription_id ?row = ?id"
    by (simp_all add: s new_subscription_def new_subscription_row_def)
  have old: "find_row ur_subscription_id ?id (db_subscriptions (w_db w)) = None"
    using fresh by (auto simp: find_row_None)
  have keep: "filter (\<lambda>r. ur_subscription_id r \<noteq> ?id) (db_subscriptions (w_db w)) = db_subscriptions (w_db w)"
    by (rule filter_True) (use fresh in fastforce)
  have "find_row ur_subscription_id ?id (db_subscriptions (w_db w1)) = Some ?row"
    using old id(2) by (simp add: w1 insert_subscription_def)
  then have "unsubscribe_tx ?id uid t3 (w_db w1) = Done () (removed ?id (add_audit
      (subscription_event UNSUBSCRIBE uid (subscription_resource ?id) [] g target t3) (w_db w1)))"
    using row_to_new_subscription [OF ok] by (simp add: unsubscribe_tx_eval new_subscription_def)
  then have run: "unsubscribe ?id uid t3 w1 = (Inr (), w1\<lparr> w_db := removed ?id (add_audit
      (subscription_event UNSUBSCRIBE uid (subscription_resource ?id) [] g target t3) (w_db w1)) \<rparr>)"
    unfolding unsubscribe_def by (rule in_uow_Done)
  let ?d = "removed ?id (add_audit
      (subscription_event UNSUBSCRIBE uid (subscription_resource ?id) [] g target t3) (w_db w1))"
  have subs: "db_subscriptions ?d = db_subscriptions (w_db w)" and users: "db_users ?d = db_users (w_db w)"
    using keep id(2) by (simp_all add: removed_def w1 insert_subscription_def add_audit_def)
  have audit: "db_audit ?d = db_audit (add_audit
      (subscription_event UNSUBSCRIBE uid (subscription_resource ?id) [] g target t3)
      (add_audit (subscription_event SUBSCRIBE uid (subscription_resource ?id) [] g target t2) (w_db w)))"
    by (simp add: removed_def w1 insert_subscription_def add_audit_def id(1))
  have "recipients_for_run p tags ?d = recipients_for_run p tags (w_db w)" for p tags
    by (simp add: recipients_for_run_def subs users)
  then show ?thesis using run subs audit unfolding id(1) by auto
qed

theorem subscribe_unsubscribe_witness:
  "\<exists>s w1 w2. subscribe {''qa''} {} 1 TAG (Some ''qa'') 5 6 (accounts_world [sample_account 1 ''a@x'' False] []) = (Inr s, w1) \<and>
     unsubscribe (sub_subscription_id s) 1 7 w1 = (Inr (), w2) \<and> db_subscriptions (w_db w2) = []"
proof -
  let ?w = "accounts_world [sample_account 1 ''a@x'' False] []"
  have "subscription_add 5 1 TAG (Some ''qa'') (w_db ?w) = Done (new_subscription (w_db ?w) 5 1 TAG (Some ''qa''))
      (insert_subscription (new_subscription_row (w_db ?w) 5 1 TAG (Some ''qa'')) (w_db ?w))"
    by (simp add: subscription_add_Done target_ok_def subscriptions_accepts_def new_subscription_row_def
        accounts_world_def sample_account_def empty_db_def)
  then obtain d where tx: "subscribe_tx 1 TAG (Some ''qa'') 5 6 (w_db ?w) =
      Done (new_subscription (w_db ?w) 5 1 TAG (Some ''qa'')) d"
    using subscribe_tx_Done by blast
  have "subscribe {''qa''} {} 1 TAG (Some ''qa'') 5 6 ?w =
      (Inr (new_subscription (w_db ?w) 5 1 TAG (Some ''qa'')), ?w\<lparr> w_db := d \<rparr>)"
    by (simp add: subscribe_def check_target_def check_def in_uow_def uow_def tx)
  from subscribe_unsubscribe [OF this] this show ?thesis
    by (fastforce simp: accounts_world_def empty_db_def)
qed

end
