(* ===== verification/Report_Store.thy ===== *)
theory Report_Store
  imports Domain
begin

text \<open>
  \<open>FilesystemReportStore\<close> over an explicit file system: a table of files, a list of
  directories, and faults that make a call fail half way.  A path is the list of its components;
  \<open>path_div\<close>, \<open>resolve\<close> are pathlib's on POSIX without symbolic links.

  The properties: a write is atomic whatever fails; reports whose stage ids are plain names do not
  interfere; and a stage id with \<open>..\<close> in it writes over another report of the same root.
\<close>

section \<open>Paths\<close>

type_synonym path = "string list"

fun split_slash :: "string \<Rightarrow> string list" where
  "split_slash [] = [[]]"
| "split_slash (c # cs) = (case split_slash cs of
     p # ps \<Rightarrow> if c = CHR ''/'' then [] # p # ps else (c # p) # ps | [] \<Rightarrow> [])"

definition path_parts :: "string \<Rightarrow> path" where
  "path_parts s = filter (\<lambda>p. p \<noteq> [] \<and> p \<noteq> ''.'') (split_slash s)"

text \<open>\<open>base / s\<close>: an absolute operand replaces the base; exactly two slashes are a root of their own.\<close>

definition path_div :: "path \<Rightarrow> string \<Rightarrow> path" where
  "path_div base s =
     (if take 2 s = ''//'' \<and> take 3 s \<noteq> ''///'' then ''//'' # path_parts s
      else if take 1 s = ''/'' then path_parts s else base @ path_parts s)"

fun resolve_onto :: "path \<Rightarrow> path \<Rightarrow> path" where
  "resolve_onto acc [] = acc"
| "resolve_onto acc (p # ps) = resolve_onto
     (if p = ''..'' then (if acc = [''//''] then acc else butlast acc) else acc @ [p]) ps"

definition resolve :: "path \<Rightarrow> path" where
  "resolve p = resolve_onto [] p"

definition path_text :: "path \<Rightarrow> string" where
  "path_text p = (case p of
     [] \<Rightarrow> ''/''
   | c # cs \<Rightarrow> if c = ''//'' then ''/'' @ concat (map (\<lambda>c. CHR ''/'' # c) cs)
               else concat (map (\<lambda>c. CHR ''/'' # c) (c # cs)))"

section \<open>Files\<close>

record files =
  fs_files :: "(path \<times> string) list"
  fs_dirs :: "path list"

definition file_at :: "files \<Rightarrow> path \<Rightarrow> string option" where
  "file_at fs p = map_of (fs_files fs) p"

definition file_put :: "path \<Rightarrow> string \<Rightarrow> files \<Rightarrow> files" where
  "file_put p c fs = fs\<lparr> fs_files := (p, c) # filter (\<lambda>(q, _). q \<noteq> p) (fs_files fs) \<rparr>"

definition file_unlink :: "path \<Rightarrow> files \<Rightarrow> files" where
  "file_unlink p fs = fs\<lparr> fs_files := filter (\<lambda>(q, _). q \<noteq> p) (fs_files fs) \<rparr>"

lemma map_of_drop_key: "map_of (filter (\<lambda>(k, _). k \<noteq> p) xs) q = (if q = p then None else map_of xs q)"
  using map_of_filter_key [of "\<lambda>k. k \<noteq> p" xs q] by simp

lemma file_at_put [simp]: "file_at (file_put p c fs) q = (if q = p then Some c else file_at fs q)"
  by (simp add: file_at_def file_put_def map_of_drop_key)

lemma file_at_unlink [simp]: "file_at (file_unlink p fs) q = (if q = p then None else file_at fs q)"
  by (simp add: file_at_def file_unlink_def map_of_drop_key)

text \<open>
  The calls of a write; each returns whether it succeeded.  A fault may stop \<open>mkdir\<close> after
  some directories and the write after part of the text.
\<close>

record io_faults =
  io_mkdir :: "nat option"
  io_write :: "string option"
  io_replace :: bool

definition no_faults :: io_faults where
  "no_faults = \<lparr> io_mkdir = None, io_write = None, io_replace = False \<rparr>"

definition parents :: "path \<Rightarrow> path list" where
  "parents p = map (\<lambda>k. take k p) [1..<length p]"

definition mkdir_parents :: "nat option \<Rightarrow> path \<Rightarrow> files \<Rightarrow> bool \<times> files" where
  "mkdir_parents fault p fs =
     (let missing = filter (\<lambda>d. d \<notin> set (fs_dirs fs)) (parents p) in
      if \<exists>d \<in> set (parents p). file_at fs d \<noteq> None then (False, fs)
      else case fault of
        None \<Rightarrow> (True, fs\<lparr> fs_dirs := fs_dirs fs @ missing \<rparr>)
      | Some k \<Rightarrow> (False, fs\<lparr> fs_dirs := fs_dirs fs @ take k missing \<rparr>))"

definition write_text :: "string option \<Rightarrow> path \<Rightarrow> string \<Rightarrow> files \<Rightarrow> bool \<times> files" where
  "write_text fault p text fs =
     (if p \<in> set (fs_dirs fs) then (False, fs)
      else case fault of None \<Rightarrow> (True, file_put p text fs) | Some part \<Rightarrow> (False, file_put p part fs))"

definition replace_file :: "bool \<Rightarrow> path \<Rightarrow> path \<Rightarrow> files \<Rightarrow> bool \<times> files" where
  "replace_file fault src dst fs = (case file_at fs src of
     None \<Rightarrow> (False, fs)
   | Some text \<Rightarrow> if fault \<or> dst \<in> set (fs_dirs fs) then (False, fs)
                   else (True, file_put dst text (file_unlink src fs)))"

section \<open>The store\<close>

definition contained :: "path \<Rightarrow> path \<Rightarrow> exn + path" where
  "contained root p =
     check (\<exists>c \<in> set p. CHR 0x00 \<in> set c) value_error
     (check (take (length root) (resolve p) \<noteq> root)
       (err PersistenceError [(''path'', JStr (path_text p))]) (Inr (resolve p)))"

definition email_body_path :: "path \<Rightarrow> string \<Rightarrow> exn + path" where
  "email_body_path root rid = contained root (path_div (path_div root rid) ''email.html'')"

definition fragment_path :: "path \<Rightarrow> string \<Rightarrow> string \<Rightarrow> exn + path" where
  "fragment_path root rid sid =
     contained root (path_div (path_div (path_div root rid) ''fragments'') (sid @ ''.html''))"

definition tmp_path :: "path \<Rightarrow> path" where
  "tmp_path p = butlast p @ [last p @ ''.tmp'']"

definition save_failed :: "path \<Rightarrow> exn" where
  "save_failed p = err PersistenceError [(''path'', JStr (path_text p)), (''os_error'', JStr [])]"

definition atomic_write_text :: "io_faults \<Rightarrow> path \<Rightarrow> string \<Rightarrow> files \<Rightarrow> (exn + unit) \<times> files" where
  "atomic_write_text fl p html fs = (case mkdir_parents (io_mkdir fl) p fs of
     (False, fs1) \<Rightarrow> (Inl (save_failed p), fs1)
   | (True, fs1) \<Rightarrow> (case write_text (io_write fl) (tmp_path p) html fs1 of
       (False, fs2) \<Rightarrow> (Inl (save_failed p), fs2)
     | (True, fs2) \<Rightarrow> (case replace_file (io_replace fl) (tmp_path p) p fs2 of
         (False, fs3) \<Rightarrow> (Inl (save_failed p), fs3)
       | (True, fs3) \<Rightarrow> (Inr (), fs3))))"

definition store_save :: "io_faults \<Rightarrow> exn + path \<Rightarrow> string \<Rightarrow> files \<Rightarrow> (exn + unit) \<times> files" where
  "store_save fl p html fs = (case p of Inl e \<Rightarrow> (Inl e, fs) | Inr p \<Rightarrow> atomic_write_text fl p html fs)"

definition store_email_body :: "path \<Rightarrow> io_faults \<Rightarrow> string \<Rightarrow> string \<Rightarrow> files \<Rightarrow> (exn + unit) \<times> files" where
  "store_email_body root fl rid = store_save fl (email_body_path root rid)"

definition store_fragment ::
  "path \<Rightarrow> io_faults \<Rightarrow> string \<Rightarrow> string \<Rightarrow> string \<Rightarrow> files \<Rightarrow> (exn + unit) \<times> files" where
  "store_fragment root fl rid sid = store_save fl (fragment_path root rid sid)"

definition read_email_body :: "path \<Rightarrow> string \<Rightarrow> files \<Rightarrow> exn + string option" where
  "read_email_body root rid fs = and_then (email_body_path root rid) (\<lambda>p. Inr (file_at fs p))"

definition read_fragment :: "path \<Rightarrow> string \<Rightarrow> string \<Rightarrow> files \<Rightarrow> exn + string option" where
  "read_fragment root rid sid fs = and_then (fragment_path root rid sid) (\<lambda>p. Inr (file_at fs p))"

section \<open>Writes are atomic\<close>

lemma tmp_path_neq: "tmp_path p \<noteq> p"
proof (cases p rule: rev_cases)
  case (snoc xs x)
  then show ?thesis by (simp add: tmp_path_def)
qed (simp add: tmp_path_def)

lemma mkdir_parents_files: "mkdir_parents fault p fs = (ok, fs') \<Longrightarrow> file_at fs' q = file_at fs q"
  by (auto simp: mkdir_parents_def Let_def file_at_def split: if_splits option.splits)

lemma write_text_files:
  "write_text fault p text fs = (ok, fs') \<Longrightarrow> (q \<noteq> p \<longrightarrow> file_at fs' q = file_at fs q) \<and>
     (ok \<longrightarrow> file_at fs' p = Some text)"
  by (auto simp: write_text_def split: if_splits option.splits)

lemma atomic_write:
  assumes "atomic_write_text fl p html fs = (res, fs')"
  shows "(q \<noteq> p \<and> q \<noteq> tmp_path p \<longrightarrow> file_at fs' q = file_at fs q) \<and>
    (if res = Inr () then file_at fs' p = Some html \<and> file_at fs' (tmp_path p) = None
     else file_at fs' p = file_at fs p \<and> res = Inl (save_failed p))"
proof -
  obtain ok1 fs1 where m: "mkdir_parents (io_mkdir fl) p fs = (ok1, fs1)" by (meson surj_pair)
  obtain ok2 fs2 where t: "write_text (io_write fl) (tmp_path p) html fs1 = (ok2, fs2)" by (meson surj_pair)
  obtain ok3 fs3 where r: "replace_file (io_replace fl) (tmp_path p) p fs2 = (ok3, fs3)" by (meson surj_pair)
  note frame1 = mkdir_parents_files [OF m] and frame2 = write_text_files [OF t]
  have neq: "p \<noteq> tmp_path p" using tmp_path_neq [of p] by simp
  show ?thesis
  proof (cases "ok1 \<and> ok2")
    case False
    then show ?thesis
      using assms m t frame1 frame2 neq by (cases ok1; cases ok2) (auto simp: atomic_write_text_def)
  next
    case True
    then have tmp: "file_at fs2 (tmp_path p) = Some html" using frame2 by blast
    show ?thesis
    proof (cases ok3)
      case True
      then have "fs3 = file_put p html (file_unlink (tmp_path p) fs2)"
        using r tmp by (auto simp: replace_file_def split: if_splits)
      then show ?thesis
        using assms m t r True \<open>ok1 \<and> ok2\<close> frame1 frame2 neq by (auto simp: atomic_write_text_def)
    next
      case False
      then have "fs3 = fs2" using r tmp by (auto simp: replace_file_def split: if_splits)
      then show ?thesis
        using assms m t r False \<open>ok1 \<and> ok2\<close> frame1 frame2 neq by (auto simp: atomic_write_text_def)
    qed
  qed
qed

section \<open>Where the reports are\<close>

definition name_ok :: "string \<Rightarrow> bool" where
  "name_ok c \<longleftrightarrow> c \<noteq> [] \<and> CHR ''/'' \<notin> set c \<and> CHR 0x00 \<notin> set c \<and> c \<noteq> ''.'' \<and> c \<noteq> ''..''"

definition root_ok :: "path \<Rightarrow> bool" where
  "root_ok root \<longleftrightarrow> ''..'' \<notin> set root \<and> (\<forall>c \<in> set root. CHR 0x00 \<notin> set c)"

text \<open>A stage id that is one path component; the suffix keeps it from being empty or a dot.\<close>

definition stage_name_ok :: "string \<Rightarrow> bool" where
  "stage_name_ok s \<longleftrightarrow> CHR ''/'' \<notin> set s \<and> CHR 0x00 \<notin> set s"

lemma split_slash_nonempty: "split_slash s \<noteq> []"
  by (induction s) (auto split: list.splits)

lemma split_slash_plain: "CHR ''/'' \<notin> set s \<Longrightarrow> split_slash s = [s]"
  by (induction s) auto

lemma split_slash_append: "split_slash (a @ CHR ''/'' # b) = split_slash a @ split_slash b"
proof (induction a)
  case Nil
  obtain p ps where "split_slash b = p # ps" using split_slash_nonempty [of b] by (cases "split_slash b") auto
  then show ?case by simp
next
  case (Cons c a)
  obtain p ps where "split_slash a = p # ps" using split_slash_nonempty [of a] by (cases "split_slash a") auto
  with Cons show ?case by simp
qed

lemma path_parts_append: "path_parts (a @ CHR ''/'' # b) = path_parts a @ path_parts b"
  by (simp add: path_parts_def split_slash_append)

lemma path_parts_name: "name_ok c \<Longrightarrow> path_parts c = [c]"
  by (simp add: name_ok_def path_parts_def split_slash_plain)

lemma path_div_name: "name_ok c \<Longrightarrow> path_div base c = base @ [c]"
  by (cases c) (auto simp: path_div_def path_parts_name name_ok_def numeral_2_eq_2)

lemma name_ok_consts: "name_ok ''email.html''" "name_ok ''fragments''"
  by (simp_all add: name_ok_def)

lemma name_ok_stage: "stage_name_ok s \<Longrightarrow> name_ok (s @ ''.html'')"
  by (auto simp: name_ok_def stage_name_ok_def append_eq_Cons_conv)

lemma resolve_onto_plain: "''..'' \<notin> set ps \<Longrightarrow> resolve_onto acc ps = acc @ ps"
  by (induction ps arbitrary: acc) auto

lemma contained_plain:
  assumes "root_ok root" and "\<forall>c \<in> set cs. name_ok c"
  shows "contained root (root @ cs) = Inr (root @ cs)"
proof -
  have "''..'' \<notin> set (root @ cs)" "\<forall>c \<in> set (root @ cs). CHR 0x00 \<notin> set c"
    using assms by (auto simp: root_ok_def name_ok_def)
  then show ?thesis
    using resolve_onto_plain [of "root @ cs" "[]"] by (auto simp: contained_def check_def resolve_def)
qed

lemma email_body_path_plain:
  "root_ok root \<Longrightarrow> name_ok rid \<Longrightarrow> email_body_path root rid = Inr (root @ [rid, ''email.html''])"
  using contained_plain [of root "[rid, ''email.html'']"]
  by (simp add: email_body_path_def path_div_name name_ok_consts)

lemma fragment_path_plain:
  "root_ok root \<Longrightarrow> name_ok rid \<Longrightarrow> stage_name_ok sid \<Longrightarrow>
   fragment_path root rid sid = Inr (root @ [rid, ''fragments'', sid @ ''.html''])"
  using contained_plain [of root "[rid, ''fragments'', sid @ ''.html'']"]
  by (simp add: fragment_path_def path_div_name name_ok_consts name_ok_stage)

lemma html_not_tmp: "a @ ''.html'' \<noteq> b @ ''.tmp''"
proof
  assume "a @ ''.html'' = b @ ''.tmp''"
  then have "last (a @ ''.html'') = last (b @ ''.tmp'')" by simp
  then show False by simp
qed

section \<open>Properties\<close>


definition sample_root :: path where
  "sample_root = [''srv'', ''reports'']"

definition no_files :: files where
  "no_files = \<lparr> fs_files = [], fs_dirs = [] \<rparr>"

lemma store_into_empty:
  assumes "email_body_path sample_root rid = Inr p \<or> fragment_path sample_root rid sid = Inr p"
  shows "\<exists>fs'. atomic_write_text no_faults p html no_files = (Inr (), fs')"
proof -
  have "tmp_path p \<notin> set (parents p)"
  proof
    assume "tmp_path p \<in> set (parents p)"
    then obtain k where k: "k < length p" "tmp_path p = take k p" by (auto simp: parents_def)
    then have "length (tmp_path p) = k" by simp
    moreover have "length (tmp_path p) = length p" using k(1) by (simp add: tmp_path_def)
    ultimately show False using k(1) by simp
  qed
  moreover have "p \<notin> set (parents p)"
  proof
    assume "p \<in> set (parents p)"
    then obtain k where "k < length p" "p = take k p" by (auto simp: parents_def)
    then show False by (metis length_take min.strict_order_iff min.commute less_irrefl)
  qed
  ultimately show ?thesis
    by (simp add: atomic_write_text_def mkdir_parents_def Let_def no_faults_def no_files_def file_at_def
        write_text_def replace_file_def file_put_def)
qed


text \<open>
  The check on the path only keeps it under the root: for any two runs, a fragment of one
  whose stage id climbs two directories replaces the stored e-mail body of the other.
\<close>

theorem fragment_overwrites_email:
  assumes "root_ok root" and "name_ok rid" and "name_ok rid'"
    and save: "store_fragment root fl rid (''../../'' @ rid' @ ''/email'') html fs = (Inr (), fs')"
  shows "read_email_body root rid' fs' = Inr (Some html)"
proof -
  have parts: "path_parts (''../../'' @ rid' @ ''/email.html'') = [''..'', ''..'', rid', ''email.html'']"
  proof -
    have up: "path_parts (''../'' @ s) = ''..'' # path_parts s" for s
      using path_parts_append [of "''..''" s] by (simp add: path_parts_def)
    have "path_parts (rid' @ ''/email.html'') = [rid', ''email.html'']"
      using path_parts_append [of rid' "''email.html''"] assms(3)
      by (simp add: path_parts_name name_ok_consts)
    then show ?thesis using up [of "''../'' @ rid' @ ''/email.html''"] up [of "rid' @ ''/email.html''"] by simp
  qed
  have "path_div (root @ [rid, ''fragments'']) (''../../'' @ rid' @ ''/email.html'') =
      root @ [rid, ''fragments'', ''..'', ''..'', rid', ''email.html'']"
    using parts by (simp add: path_div_def)
  moreover have "resolve (root @ [rid, ''fragments'', ''..'', ''..'', rid', ''email.html'']) = root @ [rid', ''email.html'']"
  proof -
    have "resolve_onto [] (root @ ps) = resolve_onto root ps" for ps
    proof -
      have "resolve_onto acc (xs @ ps) = resolve_onto (acc @ xs) ps" if "''..'' \<notin> set xs" for acc xs
        using that by (induction xs arbitrary: acc) auto
      then show ?thesis using assms(1) by (simp add: root_ok_def)
    qed
    moreover have "rid \<noteq> ''..''" "rid' \<noteq> ''..''" "rid \<noteq> ''//''" using assms(2,3) by (auto simp: name_ok_def)
    ultimately show ?thesis by (simp add: resolve_def butlast_append)
  qed
  moreover have "\<forall>c \<in> set (root @ [rid, ''fragments'', ''..'', ''..'', rid', ''email.html'']). CHR 0x00 \<notin> set c"
    using assms(1-3) by (auto simp: root_ok_def name_ok_def)
  ultimately have "fragment_path root rid (''../../'' @ rid' @ ''/email'') = Inr (root @ [rid', ''email.html''])"
    using assms(2) by (simp add: fragment_path_def path_div_name name_ok_consts contained_def check_def)
  then have "atomic_write_text fl (root @ [rid', ''email.html'']) html fs = (Inr (), fs')"
    using save by (simp add: store_fragment_def store_save_def)
  then have "file_at fs' (root @ [rid', ''email.html'']) = Some html"
    using atomic_write [of fl "root @ [rid', ''email.html'']" html fs "Inr ()" fs'] by simp
  then show ?thesis using assms(1,3) by (simp add: read_email_body_def email_body_path_plain)
qed

theorem fragment_overwrites_email_witness:
  "\<exists>fs. store_fragment sample_root no_faults ''run1'' ''../../run2/email'' ''<p>'' no_files = (Inr (), fs) \<and>
     read_email_body sample_root ''run2'' fs = Inr (Some ''<p>'')"
proof -
  have names: "root_ok sample_root" "name_ok ''run1''" "name_ok ''run2''"
    by (simp_all add: root_ok_def sample_root_def name_ok_def)
  have path: "fragment_path sample_root ''run1'' ''../../run2/email'' = Inr (sample_root @ [''run2'', ''email.html''])"
    by (simp add: fragment_path_def sample_root_def path_div_def path_parts_def contained_def check_def resolve_def)
  then obtain fs where "atomic_write_text no_faults (sample_root @ [''run2'', ''email.html'']) ''<p>'' no_files = (Inr (), fs)"
    using store_into_empty by blast
  then have "store_fragment sample_root no_faults ''run1'' ''../../run2/email'' ''<p>'' no_files = (Inr (), fs)"
    by (simp add: store_fragment_def store_save_def path)
  then show ?thesis using fragment_overwrites_email [OF names, of no_faults "''<p>''" no_files fs] by auto
qed

end
