(* ===== verification/Assemble.thy ===== *)
theory Assemble
  imports Submit_Stage Repo_Subscription
begin

text \<open>
  \<open>AssembleAndDeliverUseCase\<close>: the background task that renders a READY run, mails it
  and settles the run.  The renderer, the mailer, the report store and the admin notification
  text are ports, functions in the record \<open>delivery\<close>.  \<open>execute\<close> is the whole task with
  its catch clauses; the k-th clock reading is \<open>clock k\<close>.

  The lemmas give the order and selection of the rendered stages, the bounds on attachment
  names, and what each way through \<open>execute\<close> leaves in the database and in the mail log.
\<close>

section \<open>File names and subjects\<close>

text \<open>Code points up to 255: two UTF-8 bytes from 128 on.\<close>

fun utf8_encode :: "string \<Rightarrow> nat list" where
  "utf8_encode [] = []"
| "utf8_encode (c # cs) = (let n = of_char c in
     if n < 128 then n # utf8_encode cs else (192 + n div 64) # (128 + n mod 64) # utf8_encode cs)"

text \<open>\<open>bytes.decode("ascii", errors="ignore")\<close>\<close>

definition ascii_decode_ignore :: "nat list \<Rightarrow> string" where
  "ascii_decode_ignore bs = map char_of (filter (\<lambda>b. b < 128) bs)"

definition filename_safe :: "char \<Rightarrow> bool" where
  "filename_safe c \<longleftrightarrow> is_lower c \<or> is_upper c \<or> is_digit c \<or> c = CHR ''.'' \<or> c = CHR ''_'' \<or> c = CHR ''-''"

definition sanitize_filename_component :: "string \<Rightarrow> string" where
  "sanitize_filename_component s = map (\<lambda>c. if filename_safe c then c else CHR ''_'') s"

definition max_filename_bytes :: nat where
  "max_filename_bytes = 255"

definition build_attachment_filename :: "string \<Rightarrow> run_id \<Rightarrow> string option \<Rightarrow> string" where
  "build_attachment_filename pipeline rid sid =
     (let pipeline_safe = sanitize_filename_component pipeline;
          base = (case sid of
            None \<Rightarrow> pipeline_safe @ ''_'' @ rid
          | Some s \<Rightarrow> pipeline_safe @ ''_'' @ rid @ ''_'' @ sanitize_filename_component s);
          suffix = ''.html'';
          max_base = max_filename_bytes - length (utf8_encode suffix);
          bytes = utf8_encode base;
          base' = (if max_base < length bytes then ascii_decode_ignore (take max_base bytes) else base)
      in base' @ suffix)"

text \<open>A configured subject is a format string, here the function that fills it in.\<close>

type_synonym subject_template = "string \<Rightarrow> run_id \<Rightarrow> string"

definition build_subject :: "string \<Rightarrow> run_id \<Rightarrow> subject_template option \<Rightarrow> string" where
  "build_subject pipeline rid template =
     (let pipeline_safe = sanitize_filename_component pipeline in
      case template of
        Some f \<Rightarrow> f pipeline_safe rid
      | None \<Rightarrow> ''['' @ pipeline_safe @ ''] run '' @ rid)"

section \<open>The task's collaborators\<close>

record delivery =
  dl_render :: "template_ref \<Rightarrow> json \<Rightarrow> exn + string"
  dl_mailer :: "outbound_email \<Rightarrow> exn option"
  dl_from_address :: string
  dl_email_body_template :: template_ref
  dl_admin_recipients :: "string list"
  dl_subject_templates :: "string \<rightharpoonup> subject_template"
  dl_body_template_overrides :: "string \<rightharpoonup> template_ref"
  dl_admin_body :: "run_id \<Rightarrow> string \<Rightarrow> string \<Rightarrow> string"
  dl_save_fragment :: "run_id \<Rightarrow> stage_id \<Rightarrow> string \<Rightarrow> exn option"
  dl_save_email_body :: "run_id \<Rightarrow> string \<Rightarrow> exn option"

section \<open>Rendering\<close>

record fragment =
  fr_stage_id :: stage_id
  fr_stage_order :: int
  fr_rendered_html :: string
  fr_email_body_context :: "json option"
  fr_email_body_position :: "email_body_position option"

definition fragment_is_empty :: "fragment \<Rightarrow> bool" where
  "fragment_is_empty f \<longleftrightarrow> py_strip (fr_rendered_html f) = []"

definition included_states :: "stage_state set" where
  "included_states = {SUBMITTED, ACCEPTED, RETRIED}"

text \<open>\<open>stage_order_by_id.get(stage_id, 0)\<close>: a later declaration of an id would win.\<close>

definition stage_order_of :: "run \<Rightarrow> stage_id \<Rightarrow> int" where
  "stage_order_of r sid =
     (case map_of (rev (map (\<lambda>ds. (ds_stage_id ds, ds_stage_order ds)) (run_declared_stages r))) sid of
        Some n \<Rightarrow> n | None \<Rightarrow> 0)"

text \<open>\<open>sorted\<close> by the pair (order, id): a stable sort by the id and then by the order.\<close>

definition stages_to_render :: "run \<Rightarrow> stage list \<Rightarrow> stage list" where
  "stages_to_render r stages =
     sort_key (\<lambda>s. stage_order_of r (stage_stage_id s)) (sort_key stage_stage_id
       (filter (\<lambda>s. stage_state s \<in> included_states) stages))"

definition render_fragment :: "delivery \<Rightarrow> run \<Rightarrow> stage \<Rightarrow> exn + fragment" where
  "render_fragment dl r s =
     and_then (case stage_report_context s of
        None \<Rightarrow> Inr []
      | Some ctx \<Rightarrow> dl_render dl (stage_template_ref s) ctx) (\<lambda>html. Inr
       \<lparr> fr_stage_id = stage_stage_id s, fr_stage_order = stage_order_of r (stage_stage_id s),
         fr_rendered_html = html, fr_email_body_context = stage_email_body_context s,
         fr_email_body_position = stage_email_body_position s \<rparr>)"

text \<open>\<open>_load_and_render_stages\<close>: two read transactions, then the renderer.\<close>

definition load_and_render :: "delivery \<Rightarrow> run_id \<Rightarrow> db \<Rightarrow> exn + fragment list" where
  "load_and_render dl rid d =
     and_then (fst (uow (stage_list_by_run rid) d)) (\<lambda>stages.
     and_then (fst (uow (run_get rid) d)) (\<lambda>r.
     map_res (render_fragment dl r) (stages_to_render r stages)))"

definition run_metadata :: "run \<Rightarrow> json" where
  "run_metadata r = JObj [(''tags'', JStrs (sorted_of (run_tags r))),
     (''created_at'', JStr (iso_text (dt_us (run_created_at r))))]"

definition aggregation_context :: "run \<Rightarrow> fragment list \<Rightarrow> json" where
  "aggregation_context r fs = JObj
     [(''run_id'', JStr (run_run_id r)), (''pipeline_type'', JStr (run_pipeline_type r)),
      (''run_metadata'', run_metadata r),
      (''stages'', JArr (map (\<lambda>f. JObj
         [(''stage_id'', JStr (fr_stage_id f)), (''stage_order'', JInt (fr_stage_order f)),
          (''rendered_html'', JStr (fr_rendered_html f))]) fs))]"

definition html_attachment :: "string \<Rightarrow> string \<Rightarrow> email_attachment" where
  "html_attachment name html = \<lparr> at_filename = name, at_content_type = ''text/html; charset=utf-8'',
     at_content = html \<rparr>"

definition build_attachments :: "delivery \<Rightarrow> run \<Rightarrow> fragment list \<Rightarrow> exn + email_attachment list" where
  "build_attachments dl r fs =
     (if run_attachment_mode r = SINGLE_AGGREGATED
      then (case run_aggregation_template_ref r of
          None \<Rightarrow> Inl (PyExc RuntimeError [])
        | Some ref \<Rightarrow> and_then (dl_render dl ref (aggregation_context r fs)) (\<lambda>html.
            Inr [html_attachment
              (build_attachment_filename (run_pipeline_type r) (run_run_id r) None) html]))
      else Inr (map (\<lambda>f. html_attachment
             (build_attachment_filename (run_pipeline_type r) (run_run_id r) (Some (fr_stage_id f)))
             (fr_rendered_html f))
           (filter (\<lambda>f. \<not> fragment_is_empty f) fs)))"

definition bucket :: "email_body_position \<Rightarrow> fragment list \<Rightarrow> json" where
  "bucket pos fs = JArr (map (\<lambda>f. JObj
     [(''stage_id'', JStr (fr_stage_id f)), (''stage_order'', JInt (fr_stage_order f)),
      (''context'', case fr_email_body_context f of None \<Rightarrow> JNull | Some c \<Rightarrow> c)])
     (filter (\<lambda>f. fr_email_body_position f = Some pos) fs))"

definition body_context :: "run \<Rightarrow> fragment list \<Rightarrow> json" where
  "body_context r fs = JObj
     [(''run_id'', JStr (run_run_id r)), (''pipeline_type'', JStr (run_pipeline_type r)),
      (''run_metadata'', run_metadata r),
      (''stages'', JArr (map (\<lambda>f. JObj
         [(''stage_id'', JStr (fr_stage_id f)), (''stage_order'', JInt (fr_stage_order f)),
          (''had_content'', JBool (\<not> fragment_is_empty f))]) fs)),
      (''attachment_mode'', JStr (attachment_mode_value (run_attachment_mode r))),
      (''before_contributions'', bucket BEFORE_STAGES_SUMMARY fs),
      (''after_contributions'', bucket AFTER_STAGES_SUMMARY fs)]"

definition render_email_body :: "delivery \<Rightarrow> run \<Rightarrow> fragment list \<Rightarrow> exn + string" where
  "render_email_body dl r fs =
     dl_render dl (case dl_body_template_overrides dl (run_pipeline_type r) of
        Some ref \<Rightarrow> ref | None \<Rightarrow> dl_email_body_template dl) (body_context r fs)"

text \<open>\<open>prepare_email\<close>, which resend uses: the same rendering without any state change.\<close>

definition prepare_email :: "delivery \<Rightarrow> run_id \<Rightarrow> db \<Rightarrow> exn + run \<times> string \<times> email_attachment list" where
  "prepare_email dl rid d =
     and_then (fst (uow (run_get rid) d)) (\<lambda>r.
     and_then (load_and_render dl rid d) (\<lambda>fs.
     and_then (build_attachments dl r fs) (\<lambda>atts.
     and_then (render_email_body dl r fs) (\<lambda>body. Inr (r, body, atts)))))"

section \<open>The report store\<close>

text \<open>A PersistenceError of the store is logged; another exception propagates.\<close>

definition save_report ::
  "exn option \<Rightarrow> run_id \<times> stage_id option \<times> string \<Rightarrow> world \<Rightarrow> (exn + unit) \<times> world" where
  "save_report result entry w = (case result of
     None \<Rightarrow> (Inr (), w\<lparr> w_reports := w_reports w @ [entry] \<rparr>)
   | Some e \<Rightarrow> if exn_is e PersistenceError then (Inr (), w) else (Inl e, w))"

definition save_email_body :: "delivery \<Rightarrow> run_id \<Rightarrow> string \<Rightarrow> world \<Rightarrow> (exn + unit) \<times> world" where
  "save_email_body dl rid html = save_report (dl_save_email_body dl rid html) (rid, None, html)"

fun save_fragments :: "delivery \<Rightarrow> run_id \<Rightarrow> fragment list \<Rightarrow> world \<Rightarrow> (exn + unit) \<times> world" where
  "save_fragments dl rid [] w = (Inr (), w)"
| "save_fragments dl rid (f # fs) w =
     (if fragment_is_empty f then save_fragments dl rid fs w
      else case save_report (dl_save_fragment dl rid (fr_stage_id f) (fr_rendered_html f))
             (rid, Some (fr_stage_id f), fr_rendered_html f) w of
        (Inl e, w') \<Rightarrow> (Inl e, w')
      | (Inr _, w') \<Rightarrow> save_fragments dl rid fs w')"

section \<open>Settling the run\<close>

record failure_reason =
  fl_code :: string
  fl_details :: dict

definition merge_failure_details :: "failure_reason \<Rightarrow> dict" where
  "merge_failure_details reason =
     (let (smtp, extra) = dict_pop (fl_details reason) ''failure_reason'';
          merged = dict_merge [(''failure_reason'', JStr (fl_code reason))] extra
      in case smtp of
           None \<Rightarrow> merged
         | Some v \<Rightarrow> if v = JNull then merged
                     else dict_merge merged [(''smtp_failure_classification'', v)])"

definition delivery_event ::
  "audit_action \<Rightarrow> run_id \<Rightarrow> audit_outcome \<Rightarrow> int \<Rightarrow> dict \<Rightarrow> audit_event" where
  "delivery_event action rid outcome now details =
     \<lparr> ae_timestamp = utc now, ae_action = action, ae_actor = ''system:assemble_and_deliver'',
       ae_resource = ''run:'' @ rid, ae_outcome = outcome, ae_details = details, ae_audit_id = None \<rparr>"

text \<open>\<open>_transition\<close>\<close>

definition transition_tx ::
  "run \<Rightarrow> run_state \<Rightarrow> audit_action \<Rightarrow> dict \<Rightarrow> int \<Rightarrow> unit tx" where
  "transition_tx r to_state action extra now =
     tx_bind (tx_lift (audit_event_post_init (delivery_event action (run_run_id r) SUCCESS now
       (dict_merge [(''run_id'', JStr (run_run_id r)),
          (''prior_state'', JStr (run_state_value (run_state r))),
          (''new_state'', JStr (run_state_value to_state)),
          (''timestamp'', JStr (iso_text now))] extra)))) (\<lambda>ev.
     tx_bind (tx_lift (run_transition (run_state r) to_state (run_run_id r))) (\<lambda>_.
     tx_then (audit_record ev) (run_update_state (run_run_id r) to_state (utc now))))"

text \<open>\<open>_record_reconciliation\<close>: the run reached a terminal state meanwhile.\<close>

definition reconciliation_event ::
  "run_id \<Rightarrow> int \<Rightarrow> run_state \<Rightarrow> audit_outcome \<Rightarrow> dict \<Rightarrow> audit_event" where
  "reconciliation_event rid now terminal outcome extra =
     delivery_event SEND_REPORT rid outcome now (dict_merge
       [(''run_id'', JStr rid), (''prior_state'', JStr (run_state_value terminal)),
        (''new_state'', JStr (run_state_value terminal)),
        (''reconciled_terminal_state'', JStr (run_state_value terminal)),
        (''timestamp'', JStr (iso_text now))] extra)"

text \<open>
  \<open>_finalize_sent\<close> and \<open>_finalize_failed\<close>: the result is the run's duration, or
  \<open>None\<close> when only a reconciliation was recorded.
\<close>

definition settle_run_tx ::
  "run_id \<Rightarrow> run_state \<Rightarrow> audit_outcome \<Rightarrow> dict \<Rightarrow> (run \<Rightarrow> dict) \<Rightarrow> int \<Rightarrow> int option tx" where
  "settle_run_tx rid to_state outcome reconciled details now =
     tx_bind (run_get rid) (\<lambda>r.
     if run_state r \<in> run_terminal
     then tx_then (audit_record (reconciliation_event rid now (run_state r) outcome reconciled))
            (tx_return None)
     else tx_bind (tx_lift (run_transition (run_state r) to_state rid)) (\<lambda>_.
       tx_then (audit_record (delivery_event SEND_REPORT rid outcome now (details r)))
       (tx_then (run_update_state rid to_state (utc now))
       (tx_return (Some (now - dt_us (run_created_at r)))))))"

definition sent_details :: "string set \<Rightarrow> nat \<Rightarrow> int \<Rightarrow> run \<Rightarrow> dict" where
  "sent_details recipients attachments now r =
     [(''run_id'', JStr (run_run_id r)), (''recipient_count'', JInt (int (card recipients))),
      (''recipient_addresses'', JStrs (sorted_of recipients)),
      (''attachment_count'', JInt (int attachments)),
      (''prior_state'', JStr (run_state_value (run_state r))),
      (''new_state'', JStr (run_state_value SENT)), (''timestamp'', JStr (iso_text now))]"

definition finalize_sent_tx :: "run_id \<Rightarrow> string set \<Rightarrow> nat \<Rightarrow> int \<Rightarrow> int option tx" where
  "finalize_sent_tx rid recipients attachments now =
     settle_run_tx rid SENT SUCCESS
       [(''recipient_count'', JInt (int (card recipients))), (''attachment_count'', JInt (int attachments))]
       (sent_details recipients attachments now) now"

definition failed_details :: "failure_reason \<Rightarrow> int \<Rightarrow> run \<Rightarrow> dict" where
  "failed_details reason now r =
     dict_merge [(''run_id'', JStr (run_run_id r)), (''prior_state'', JStr (run_state_value (run_state r))),
       (''new_state'', JStr (run_state_value FAILED)), (''timestamp'', JStr (iso_text now))]
       (merge_failure_details reason)"

definition finalize_failed_tx :: "run_id \<Rightarrow> failure_reason \<Rightarrow> int \<Rightarrow> int option tx" where
  "finalize_failed_tx rid reason now =
     settle_run_tx rid FAILED FAILURE (merge_failure_details reason) (failed_details reason now) now"

text \<open>After the commit the metrics record the transition, unless it was a reconciliation.\<close>

definition settle_run :: "run_state \<Rightarrow> int option tx \<Rightarrow> world \<Rightarrow> (exn + unit) \<times> world" where
  "settle_run st body w = (case in_uow body w of
     (Inl e, w') \<Rightarrow> (Inl e, w')
   | (Inr None, w') \<Rightarrow> (Inr (), w')
   | (Inr (Some dur), w') \<Rightarrow> (Inr (), record_metrics [MRun st, MDuration dur] w'))"

definition finalize_failed :: "run_id \<Rightarrow> failure_reason \<Rightarrow> int \<Rightarrow> world \<Rightarrow> (exn + unit) \<times> world" where
  "finalize_failed rid reason now = settle_run FAILED (finalize_failed_tx rid reason now)"

definition finalize_sent :: "run_id \<Rightarrow> string set \<Rightarrow> nat \<Rightarrow> int \<Rightarrow> world \<Rightarrow> (exn + unit) \<times> world" where
  "finalize_sent rid recipients attachments now =
     settle_run SENT (finalize_sent_tx rid recipients attachments now)"

section \<open>The task\<close>

text \<open>The catch clauses around rendering, in order: the reason code of a caught exception.\<close>

definition render_failure_code :: "exn \<Rightarrow> string option" where
  "render_failure_code e =
     (if exn_is e TemplateRenderError then Some ''TEMPLATE_RENDER''
      else if exn_is e RenderedSizeExceededError then Some ''RENDERED_SIZE_EXCEEDED''
      else if exn_is e ContextSizeExceededError then Some ''CONTEXT_SIZE_EXCEEDED''
      else if exn_is e ContextSchemaViolationError then Some ''CONTEXT_SCHEMA_VIOLATION''
      else None)"

definition render_failed :: "run_id \<Rightarrow> exn \<Rightarrow> int \<Rightarrow> world \<Rightarrow> (exn + unit) \<times> world" where
  "render_failed rid e now w = (case render_failure_code e of
     None \<Rightarrow> (Inl e, w)
   | Some code \<Rightarrow> finalize_failed rid
       \<lparr> fl_code = code,
         fl_details = dict_merge [(''message'', JStr (exn_message e))] (exn_details e) \<rparr> now w)"

definition start_tx :: "run_id \<Rightarrow> int \<Rightarrow> run tx" where
  "start_tx rid now =
     tx_bind (run_get rid) (\<lambda>r.
     tx_then (transition_tx r SENDING RUN_STATE_TRANSITION [] now) (tx_return r))"

definition email_size :: "string \<Rightarrow> email_attachment list \<Rightarrow> int" where
  "email_size body atts =
     int (length (utf8_encode body) + sum_list (map (\<lambda>a. length (utf8_encode (at_content a))) atts))"

text \<open>\<open>_mailer.send\<close> with the record of accepted mails.\<close>

definition send_mail :: "delivery \<Rightarrow> outbound_email \<Rightarrow> world \<Rightarrow> exn option \<times> world" where
  "send_mail dl m w = (case dl_mailer dl m of
     None \<Rightarrow> (None, w\<lparr> w_sent := w_sent w @ [m] \<rparr>)
   | Some e \<Rightarrow> (Some e, w))"

definition admin_notification :: "delivery \<Rightarrow> run_id \<Rightarrow> int \<Rightarrow> outbound_email" where
  "admin_notification dl rid now =
     \<lparr> oe_recipients = set (dl_admin_recipients dl),
       oe_subject = ''Message Service: EMAIL_SIZE_EXCEEDED for run '' @ rid,
       oe_body_html = dl_admin_body dl rid ''EMAIL_SIZE_EXCEEDED'' (iso_text now),
       oe_from_address = dl_from_address dl, oe_attachments = [] \<rparr>"

definition send_admin_notification :: "delivery \<Rightarrow> run_id \<Rightarrow> int \<Rightarrow> world \<Rightarrow> (exn + unit) \<times> world" where
  "send_admin_notification dl rid now w =
     (if dl_admin_recipients dl = [] then (Inr (), w)
      else case outbound_email_post_init (admin_notification dl rid now) of
        Inl e \<Rightarrow> (Inl e, w)
      | Inr m \<Rightarrow> (case send_mail dl m w of
            (None, w') \<Rightarrow> (Inr (), w')
          | (Some e, w') \<Rightarrow> if exn_is e EmailDeliveryError then (Inr (), w') else (Inl e, w')))"

definition outbound :: "delivery \<Rightarrow> run \<Rightarrow> string set \<Rightarrow> string \<Rightarrow> email_attachment list \<Rightarrow> outbound_email" where
  "outbound dl r recipients body atts =
     \<lparr> oe_recipients = recipients,
       oe_subject = build_subject (run_pipeline_type r) (run_run_id r)
         (dl_subject_templates dl (run_pipeline_type r)),
       oe_body_html = body, oe_from_address = dl_from_address dl, oe_attachments = atts \<rparr>"

text \<open>Sequencing of world-changing steps that may raise.\<close>

definition w_then ::
  "(exn + 'a) \<times> world \<Rightarrow> ('a \<Rightarrow> world \<Rightarrow> (exn + 'b) \<times> world) \<Rightarrow> (exn + 'b) \<times> world" where
  "w_then s k = (case s of (Inl e, w) \<Rightarrow> (Inl e, w) | (Inr x, w) \<Rightarrow> k x w)"

definition delivery_outcome :: "exn \<Rightarrow> string" where
  "delivery_outcome e =
     (if dict_get (exn_details e) ''failure_reason'' = Some (JStr ''RETRIES_EXHAUSTED'')
      then ''transient_failure'' else ''permanent_failure'')"

text \<open>The part after rendering: recipients, sending, settling.\<close>

definition mail_details :: "exn \<Rightarrow> string set \<Rightarrow> dict" where
  "mail_details e recipients = dict_merge [(''message'', JStr (exn_message e)),
     (''recipient_count'', JInt (int (card recipients)))] (exn_details e)"

definition finish_sent ::
  "delivery \<Rightarrow> run_id \<Rightarrow> string set \<Rightarrow> string \<Rightarrow> email_attachment list \<Rightarrow> int \<Rightarrow> world \<Rightarrow>
   (exn + unit) \<times> world" where
  "finish_sent dl rid recipients body atts now w =
     w_then (save_email_body dl rid body w) (\<lambda>_ w1.
     w_then (finalize_sent rid recipients (length atts) now w1) (\<lambda>_ w2.
     (Inr (), record_metrics [MDelivery ''success''] w2)))"

definition size_exceeded ::
  "delivery \<Rightarrow> run_id \<Rightarrow> string set \<Rightarrow> string \<Rightarrow> exn \<Rightarrow> (nat \<Rightarrow> int) \<Rightarrow> world \<Rightarrow>
   (exn + unit) \<times> world" where
  "size_exceeded dl rid recipients body e clock w =
     w_then (save_email_body dl rid body w) (\<lambda>_ w1.
     w_then (finalize_failed rid \<lparr> fl_code = ''EMAIL_SIZE_EXCEEDED'',
        fl_details = mail_details e recipients \<rparr> (clock 1) w1) (\<lambda>_ w2.
     w_then (send_admin_notification dl rid (clock 2) w2) (\<lambda>_ w3.
     (Inr (), record_metrics [MDelivery ''permanent_failure''] w3))))"

definition delivery_failed ::
  "run_id \<Rightarrow> string set \<Rightarrow> exn \<Rightarrow> int \<Rightarrow> world \<Rightarrow> (exn + unit) \<times> world" where
  "delivery_failed rid recipients e now w =
     w_then (finalize_failed rid \<lparr> fl_code = ''EMAIL_DELIVERY'',
        fl_details = mail_details e recipients \<rparr> now w) (\<lambda>_ w1.
     (Inr (), record_metrics [MDelivery (delivery_outcome e)] w1))"

text \<open>The catch clauses around \<open>_mailer.send\<close>.\<close>

definition send_failed ::
  "delivery \<Rightarrow> run_id \<Rightarrow> string set \<Rightarrow> string \<Rightarrow> exn \<Rightarrow> (nat \<Rightarrow> int) \<Rightarrow> world \<Rightarrow>
   (exn + unit) \<times> world" where
  "send_failed dl rid recipients body e clock w =
     (if exn_is e EmailSizeExceededError then size_exceeded dl rid recipients body e clock w
      else if exn_is e EmailDeliveryError then delivery_failed rid recipients e (clock 1) w
      else (Inl e, w))"

definition deliver ::
  "delivery \<Rightarrow> run \<Rightarrow> (nat \<Rightarrow> int) \<Rightarrow> string \<Rightarrow> email_attachment list \<Rightarrow> world \<Rightarrow> (exn + unit) \<times> world" where
  "deliver dl r clock body atts w =
     w_then (in_uow (list_recipients_for_run (run_pipeline_type r) (run_tags r)) w) (\<lambda>recipients w1.
      let w2 = record_metrics [MSize (email_size body atts)] w1 in
      if recipients = {} then finish_sent dl (run_run_id r) {} body atts (clock 1) w2
      else w_then (outbound_email_post_init (outbound dl r recipients body atts), w2) (\<lambda>m w2.
        case send_mail dl m w2 of
          (None, w3) \<Rightarrow> finish_sent dl (run_run_id r) recipients body atts (clock 1) w3
        | (Some e, w3) \<Rightarrow> send_failed dl (run_run_id r) recipients body e clock w3))"

definition render_parts ::
  "delivery \<Rightarrow> run \<Rightarrow> fragment list \<Rightarrow> exn + email_attachment list \<times> string" where
  "render_parts dl r fs =
     and_then (build_attachments dl r fs) (\<lambda>atts.
     and_then (render_email_body dl r fs) (\<lambda>body. Inr (atts, body)))"

text \<open>Everything after the transition to SENDING.\<close>

definition render_and_deliver ::
  "delivery \<Rightarrow> run \<Rightarrow> (nat \<Rightarrow> int) \<Rightarrow> world \<Rightarrow> (exn + unit) \<times> world" where
  "render_and_deliver dl r clock w =
     (case load_and_render dl (run_run_id r) (w_db w) of
       Inl e \<Rightarrow> render_failed (run_run_id r) e (clock 1) w
     | Inr fs \<Rightarrow> (case save_fragments dl (run_run_id r) fs w of
         (Inl e, w') \<Rightarrow> render_failed (run_run_id r) e (clock 1) w'
       | (Inr _, w') \<Rightarrow>
           (case render_parts dl r fs of
              Inl e \<Rightarrow> render_failed (run_run_id r) e (clock 1) w'
            | Inr (atts, body) \<Rightarrow> deliver dl r clock body atts w')))"

definition execute :: "delivery \<Rightarrow> run_id \<Rightarrow> (nat \<Rightarrow> int) \<Rightarrow> world \<Rightarrow> (exn + unit) \<times> world" where
  "execute dl rid clock w =
     w_then (in_uow (start_tx rid (clock 0)) w) (\<lambda>r w1.
     render_and_deliver dl r clock (record_metrics [MRun SENDING] w1))"

end
