(* ===== verification/Delivery.thy ===== *)
theory Delivery
  imports Assemble "HOL-Library.Multiset"
begin

text \<open>
  What the delivery task does: the shape of attachment names, the order of the rendered stages,
  and for \<open>execute\<close> the state of the run, the audit log and the mail log at its end.
\<close>

section \<open>Attachment names\<close>

text \<open>Every byte of a sanitized name is one safe ASCII character.\<close>

lemma filename_safe_ascii: "filename_safe c \<Longrightarrow> (of_char c :: nat) < 128"
  by (auto simp: filename_safe_def is_lower_def is_upper_def is_digit_def less_eq_char_def)

lemma sanitized_safe: "c \<in> set (sanitize_filename_component s) \<Longrightarrow> filename_safe c"
  by (auto simp: sanitize_filename_component_def filename_safe_def split: if_splits)

lemma utf8_ascii: "\<forall>c \<in> set s. filename_safe c \<Longrightarrow> utf8_encode s = map of_char s"
  by (induction s) (simp_all add: Let_def filename_safe_ascii)

lemma decode_ascii: "\<forall>c \<in> set s. filename_safe c \<Longrightarrow> ascii_decode_ignore (map of_char s) = s"
  by (induction s) (simp_all add: ascii_decode_ignore_def filename_safe_ascii)

lemma canonical_uuid_safe: "canonical_uuid s \<Longrightarrow> \<forall>c \<in> set s. filename_safe c"
proof
  fix c assume uuid: "canonical_uuid s" and "c \<in> set s"
  then obtain i where "i < 36" "c = s ! i" by (auto simp: canonical_uuid_def in_set_conv_nth)
  with uuid have "c = CHR ''-'' \<or> is_lower_hex c"
    by (auto simp: canonical_uuid_def split: if_splits)
  then show "filename_safe c"
    by (auto simp: filename_safe_def is_lower_hex_def is_lower_def is_digit_def less_eq_char_def)
qed

text \<open>Truncation keeps the front: the name is the base cut to 250 bytes, with the suffix.\<close>

lemma attachment_filename_eq:
  assumes "canonical_uuid rid"
  shows "build_attachment_filename p rid sid = take 250
    (sanitize_filename_component p @ ''_'' @ rid @ (case sid of None \<Rightarrow> []
       | Some s \<Rightarrow> ''_'' @ sanitize_filename_component s)) @ ''.html''"
proof -
  define base where "base = sanitize_filename_component p @ ''_'' @ rid @ (case sid of None \<Rightarrow> []
       | Some s \<Rightarrow> ''_'' @ sanitize_filename_component s)"
  have safe: "\<forall>c \<in> set base. filename_safe c"
    using canonical_uuid_safe [OF assms]
    by (auto simp: base_def filename_safe_def [of "CHR ''_''"] dest: sanitized_safe split: option.splits)
  have safe': "\<forall>c \<in> set (take n base). filename_safe c" for n
    using safe by (auto dest: in_set_takeD)
  have limit: "max_filename_bytes - length (utf8_encode ''.html'') = 250"
    by (simp add: max_filename_bytes_def)
  have base: "(case sid of None \<Rightarrow> sanitize_filename_component p @ ''_'' @ rid
      | Some s \<Rightarrow> sanitize_filename_component p @ ''_'' @ rid @ ''_'' @ sanitize_filename_component s)
      = base"
    by (simp add: base_def split: option.split)
  have "build_attachment_filename p rid sid =
      (if 250 < length base then ascii_decode_ignore (take 250 (utf8_encode base)) else base) @ ''.html''"
    unfolding build_attachment_filename_def Let_def limit base
    by (simp add: utf8_ascii [OF safe])
  also have "\<dots> = take 250 base @ ''.html''"
    using decode_ascii [OF safe'] by (simp add: utf8_ascii [OF safe] take_map)
  finally show ?thesis by (simp add: base_def)
qed

section \<open>Stages in order\<close>

lemma stages_to_render_set:
  "set (stages_to_render r stages) = {s \<in> set stages. stage_state s \<in> included_states}"
  by (auto simp: stages_to_render_def)

lemma mset_stages_to_render:
  "mset (stages_to_render r stages) = filter_mset (\<lambda>s. stage_state s \<in> included_states) (mset stages)"
  by (simp add: stages_to_render_def)

text \<open>Sorting by the minor key and then, stably, by the major key sorts by the pair.\<close>

lemma sorted_pair_sort_key:
  "sorted (map g xs) \<Longrightarrow> sorted_wrt (\<lambda>a b. f a < f b \<or> (f a = f b \<and> g a \<le> g b)) (sort_key f xs)"
proof -
  assume g: "sorted (map g xs)"
  have "f (ys ! i) < f (ys ! j) \<or> (f (ys ! i) = f (ys ! j) \<and> g (ys ! i) \<le> g (ys ! j))"
    if ys: "ys = sort_key f xs" and ij: "i < j" "j < length ys" for ys i j
  proof (cases "f (ys ! i) = f (ys ! j)")
    case True
    define k where "k = f (ys ! i)"
    have "filter (\<lambda>y. f y = k) ys = filter (\<lambda>y. f y = k) xs"
      by (simp add: ys sort_key_stable)
    then have "sorted (map g (filter (\<lambda>y. f y = k) ys))" using g by (simp add: sorted_filter)
    moreover have "ys = take j ys @ ys ! j # drop (Suc j) ys" using ij by (simp add: id_take_nth_drop)
    then have "filter (\<lambda>y. f y = k) ys = filter (\<lambda>y. f y = k) (take j ys) @ ys ! j #
        filter (\<lambda>y. f y = k) (drop (Suc j) ys)"
      using True k_def by (metis (mono_tags, lifting) filter.simps(2) filter_append)
    moreover have "ys ! i \<in> set (filter (\<lambda>y. f y = k) (take j ys))"
      using ij k_def by (auto simp: in_set_conv_nth)
    ultimately show ?thesis using True by (auto simp: sorted_append)
  next
    case False
    have "sorted (map f ys)" by (simp add: ys)
    then have "f (ys ! i) \<le> f (ys ! j)" using ij by (auto simp: sorted_iff_nth_mono)
    with False show ?thesis by simp
  qed
  then show ?thesis by (simp add: sorted_wrt_iff_nth_less)
qed

section \<open>State changes with their audit event\<close>

text \<open>The database after an audited state change of a run.\<close>

definition moved :: "run_id \<Rightarrow> run_state \<Rightarrow> int \<Rightarrow> audit_event \<Rightarrow> db \<Rightarrow> db" where
  "moved rid st now ev d =
     db_runs_update (update_rows (\<lambda>x. rr_run_id x = rid) (set_run_state st now)) (add_audit ev d)"

lemma moved_frame [simp, frame]:
  "db_stages (moved rid st now ev d) = db_stages d"
  "db_subscriptions (moved rid st now ev d) = db_subscriptions d"
  "db_actions (moved rid st now ev d) = db_actions d" "db_users (moved rid st now ev d) = db_users d"
  "db_sessions (moved rid st now ev d) = db_sessions d"
  "db_audit (moved rid st now ev d) = db_audit d @ [audit_row_of (db_next_audit d) ev]"
  "db_next_audit (moved rid st now ev d) = db_next_audit d + 1"
  by (simp_all add: moved_def) (simp_all add: add_audit_def)

lemma moved_other:
  "k \<noteq> rid \<Longrightarrow> find_row rr_run_id k (db_runs (moved rid st now ev d)) = find_row rr_run_id k (db_runs d)"
  by (simp add: moved_def find_row_update_rows set_run_state_def)

lemma moved_get:
  assumes "run_get rid d = Done r d" and "dt_us (run_created_at r) \<le> now"
  shows "run_get rid (moved rid st now ev d) =
    Done (r\<lparr> run_state := st, run_updated_at := utc now \<rparr>) (moved rid st now ev d)"
proof -
  obtain row where row: "find_row rr_run_id rid (db_runs d) = Some row" "row_to_run row = Inr r"
    using assms(1) by (auto simp: run_get_Done)
  have "rr_created_at row \<le> now" using assms(2) row_to_run_Inr(4) [OF row(2)] by simp
  then show ?thesis
    using row row_to_run_set_state [OF row(2), of st now]
    by (simp add: run_get_Done moved_def find_row_update_rows set_run_state_def)
qed

lemma audited_update:
  assumes "run_get rid d = Done r d" and "dt_aware (ae_timestamp ev)"
  shows "tx_then (audit_record ev) (run_update_state rid st (utc now)) d = Done () (moved rid st now ev d)"
proof -
  obtain row where "find_row rr_run_id rid (db_runs (add_audit ev d)) = Some row"
    using assms(1) by (auto simp: run_get_Done)
  from run_update_state_run [OF this] show ?thesis
    by (simp add: tx_then_def tx_bind_def audit_record_event [OF assms(2)] moved_def)
qed

lemma delivery_event_ok [simp]:
  "audit_event_post_init (delivery_event a rid out now details) =
     Inr (delivery_event a rid out now details)"
  "dt_aware (ae_timestamp (delivery_event a rid out now details))"
  by (simp_all add: audit_event_post_init_Inr audit_event_ok_def delivery_event_def)

definition start_event :: "run \<Rightarrow> int \<Rightarrow> audit_event" where
  "start_event r now = delivery_event RUN_STATE_TRANSITION (run_run_id r) SUCCESS now
     [(''run_id'', JStr (run_run_id r)), (''prior_state'', JStr (run_state_value READY)),
      (''new_state'', JStr (run_state_value SENDING)), (''timestamp'', JStr (iso_text now))]"

text \<open>The task starts exactly on a READY run.\<close>

lemma start_tx_ready:
  assumes get: "run_get rid d = Done r d" and st: "run_state r = READY"
  shows "start_tx rid now d = Done r (moved rid SENDING now (start_event r now) d)"
proof -
  have id: "run_run_id r = rid" using get by (rule run_get_id)
  have trans: "run_transition READY SENDING rid = Inr SENDING"
    by (simp add: run_transition_Inr run_can_transition_iff run_terminal_def)
  have ev: "delivery_event RUN_STATE_TRANSITION (run_run_id r) SUCCESS now
      (dict_merge [(''run_id'', JStr (run_run_id r)),
          (''prior_state'', JStr (run_state_value (run_state r))),
          (''new_state'', JStr (run_state_value SENDING)), (''timestamp'', JStr (iso_text now))] [])
     = start_event r now"
    by (simp add: st dict_merge_def start_event_def)
  have ok: "audit_event_post_init (start_event r now) = Inr (start_event r now)"
    and aware: "dt_aware (ae_timestamp (start_event r now))"
    by (simp_all add: start_event_def)
  have "transition_tx r SENDING RUN_STATE_TRANSITION [] now d =
      Done () (moved rid SENDING now (start_event r now) d)"
    using audited_update [OF get aware, of SENDING now]
    unfolding transition_tx_def ev ok by (simp add: tx_bind_def tx_lift_def tx_read_def st id trans)
  then show ?thesis by (simp add: start_tx_def tx_bind_def get tx_then_def tx_return_def)
qed

lemma start_tx_not_ready:
  assumes get: "run_get rid d = Done r d" and st: "run_state r \<noteq> READY"
  shows "\<exists>e. start_tx rid now d = Raised e"
proof -
  have "run_transition (run_state r) SENDING (run_run_id r) \<noteq> Inr SENDING"
    using st by (simp add: run_transition_Inr run_can_transition_iff run_terminal_def)
  then obtain e where "run_transition (run_state r) SENDING (run_run_id r) = Inl e"
    by (cases "run_transition (run_state r) SENDING (run_run_id r)")
       (auto simp: run_transition_Inr)
  then show ?thesis
    by (simp add: start_tx_def transition_tx_def tx_then_def tx_bind_def get tx_lift_def tx_read_def)
qed

section \<open>Settling\<close>

lemma settle_run_tx_sending:
  assumes get: "run_get rid d = Done r d" and st: "run_state r = SENDING" "to_state \<in> {SENT, FAILED}"
  shows "settle_run_tx rid to_state out rec details now d =
    Done (Some (now - dt_us (run_created_at r)))
      (moved rid to_state now (delivery_event SEND_REPORT rid out now (details r)) d)"
proof -
  have trans: "run_transition SENDING to_state rid = Inr to_state" and live: "SENDING \<notin> run_terminal"
    using st(2) by (auto simp: run_transition_Inr run_can_transition_iff run_terminal_def)
  note upd = audited_update [OF get, of "delivery_event SEND_REPORT rid out now (details r)" to_state now]
  obtain d1 where d1: "audit_record (delivery_event SEND_REPORT rid out now (details r)) d = Done () d1"
    "run_update_state rid to_state (utc now) d1 =
      Done () (moved rid to_state now (delivery_event SEND_REPORT rid out now (details r)) d)"
    using upd by (auto simp: tx_then_Done)
  show ?thesis
    by (simp add: settle_run_tx_def tx_bind_def get st(1) live tx_lift_def tx_read_def trans
        tx_then_def d1 tx_return_def)
qed

text \<open>A run that became terminal meanwhile is not touched: one audit event, no state change.\<close>

lemma settle_run_tx_terminal:
  assumes get: "run_get rid d = Done r d" and st: "run_state r \<in> run_terminal"
  shows "settle_run_tx rid to_state out rec details now d =
    Done None (add_audit (reconciliation_event rid now (run_state r) out rec) d)"
proof -
  have "dt_aware (ae_timestamp (reconciliation_event rid now (run_state r) out rec))"
    by (simp add: reconciliation_event_def)
  then show ?thesis
    by (simp add: settle_run_tx_def tx_bind_def get st tx_then_def tx_return_def audit_record_event)
qed

section \<open>What the steps of the task leave alone\<close>

lemma save_report_same:
  "save_report res entry w = (x, w') \<Longrightarrow> w_db w' = w_db w \<and> w_sent w' = w_sent w"
  by (auto simp: save_report_def split: option.splits if_splits)

lemma save_email_body_same:
  "save_email_body dl rid html w = (x, w') \<Longrightarrow> w_db w' = w_db w \<and> w_sent w' = w_sent w"
  unfolding save_email_body_def by (rule save_report_same)

lemma save_fragments_same:
  "save_fragments dl rid fs w = (x, w') \<Longrightarrow> w_db w' = w_db w \<and> w_sent w' = w_sent w"
  by (induction dl rid fs w rule: save_fragments.induct)
     (force split: if_splits prod.splits sum.splits dest: save_report_same)+

lemma record_metrics_same [simp]:
  "w_db (record_metrics ms w) = w_db w" "w_sent (record_metrics ms w) = w_sent w"
  "w_reports (record_metrics ms w) = w_reports w" "w_tasks (record_metrics ms w) = w_tasks w"
  by (simp_all add: record_metrics_def)

lemma send_mail_eq:
  "send_mail dl m w = (dl_mailer dl m,
     if dl_mailer dl m = None then w\<lparr> w_sent := w_sent w @ [m] \<rparr> else w)"
  by (simp add: send_mail_def split: option.splits)

lemma w_then_Inr:
  "w_then s k = (Inr y, w') \<longleftrightarrow> (\<exists>x w1. s = (Inr x, w1) \<and> k x w1 = (Inr y, w'))"
  by (auto simp: w_then_def split: prod.splits sum.splits)

lemma send_admin_notification_same:
  assumes "send_admin_notification dl rid now w = (x, w')"
  shows "w_db w' = w_db w \<and> w_sent w' \<in> {w_sent w, w_sent w @ [admin_notification dl rid now]}"
  using assms
  by (auto simp: send_admin_notification_def outbound_email_post_init_Inr send_mail_def
      split: if_splits sum.splits option.splits prod.splits)

section \<open>What settling leaves\<close>

text \<open>The run is in the given state and the log has one more SEND_REPORT event, of the matching outcome.\<close>

definition run_settled :: "run_id \<Rightarrow> run_state \<Rightarrow> int \<Rightarrow> db \<Rightarrow> db \<Rightarrow> bool" where
  "run_settled rid st now d d' \<longleftrightarrow> (\<exists>details. d' = moved rid st now
     (delivery_event SEND_REPORT rid (if st = SENT then SUCCESS else FAILURE) now details) d)"

definition is_sending :: "run_id \<Rightarrow> db \<Rightarrow> bool" where
  "is_sending rid d \<longleftrightarrow> (\<exists>r. run_get rid d = Done r d \<and> run_state r = SENDING)"

lemma settle_run_sending:
  assumes "is_sending rid (w_db w)" and "st \<in> {SENT, FAILED}"
  shows "\<exists>w' details. settle_run st (settle_run_tx rid st out rec det now) w = (Inr (), w') \<and>
    w_db w' = moved rid st now (delivery_event SEND_REPORT rid out now details) (w_db w) \<and>
    w_sent w' = w_sent w"
proof -
  obtain r where r: "run_get rid (w_db w) = Done r (w_db w)" "run_state r = SENDING"
    using assms(1) by (auto simp: is_sending_def)
  let ?body = "settle_run_tx rid st out rec det now"
  note tx = settle_run_tx_sending [OF r assms(2), of out rec det now]
  show ?thesis
    using in_uow_Done [where body = ?body and w = w, OF tx]
    by (simp add: settle_run_def) blast
qed

lemma finalize_sent_sending:
  "is_sending rid (w_db w) \<Longrightarrow> \<exists>w'. finalize_sent rid rs n now w = (Inr (), w') \<and>
     run_settled rid SENT now (w_db w) (w_db w') \<and> w_sent w' = w_sent w"
  using settle_run_sending [of rid w SENT]
  unfolding finalize_sent_def finalize_sent_tx_def run_settled_def by fastforce

lemma finalize_failed_sending:
  "is_sending rid (w_db w) \<Longrightarrow> \<exists>w'. finalize_failed rid reason now w = (Inr (), w') \<and>
     run_settled rid FAILED now (w_db w) (w_db w') \<and> w_sent w' = w_sent w"
  using settle_run_sending [of rid w FAILED]
  unfolding finalize_failed_def finalize_failed_tx_def run_settled_def by fastforce

lemma render_failed_Inr:
  assumes "is_sending rid (w_db w)" and "render_failed rid e now w = (Inr (), w')"
  shows "run_settled rid FAILED now (w_db w) (w_db w') \<and> w_sent w' = w_sent w"
proof (cases "render_failure_code e")
  case None
  then show ?thesis using assms(2) by (simp add: render_failed_def)
next
  case (Some code)
  let ?reason = "\<lparr> fl_code = code,
    fl_details = dict_merge [(''message'', JStr (exn_message e))] (exn_details e) \<rparr>"
  from finalize_failed_sending [OF assms(1), of ?reason now] assms(2) Some show ?thesis
    by (auto simp: render_failed_def)
qed

lemma in_uow_recipients:
  "in_uow (list_recipients_for_run p tags) w = (Inr (recipients_for_run p tags (w_db w)), w)"
  by (simp add: in_uow_def uow_def list_recipients_for_run_def tx_read_def)

section \<open>What delivering leaves\<close>

definition report_mail :: "delivery \<Rightarrow> run \<Rightarrow> db \<Rightarrow> outbound_email \<Rightarrow> bool" where
  "report_mail dl r d m \<longleftrightarrow> (\<exists>body atts. m = outbound dl r
     (recipients_for_run (run_pipeline_type r) (run_tags r) d) body atts)"

definition delivered :: "delivery \<Rightarrow> run \<Rightarrow> db \<Rightarrow> outbound_email list \<Rightarrow> bool" where
  "delivered dl r d mails \<longleftrightarrow>
     (if recipients_for_run (run_pipeline_type r) (run_tags r) d = {} then mails = []
      else \<exists>m. mails = [m] \<and> report_mail dl r d m \<and> dl_mailer dl m = None)"

definition not_delivered :: "delivery \<Rightarrow> run_id \<Rightarrow> int \<Rightarrow> outbound_email list \<Rightarrow> bool" where
  "not_delivered dl rid now mails \<longleftrightarrow> mails \<in> {[], [admin_notification dl rid now]}"

lemma finish_sent_Inr:
  assumes "is_sending rid (w_db w)" and "finish_sent dl rid rs body atts now w = (Inr (), w')"
  shows "run_settled rid SENT now (w_db w) (w_db w') \<and> w_sent w' = w_sent w"
proof -
  obtain u w1 v w2 where save: "save_email_body dl rid body w = (Inr u, w1)"
    and fin: "finalize_sent rid rs (length atts) now w1 = (Inr v, w2)"
    and w': "w' = record_metrics [MDelivery ''success''] w2"
    using assms(2) by (auto simp: finish_sent_def w_then_Inr)
  note same = save_email_body_same [OF save]
  then have "is_sending rid (w_db w1)" using assms(1) by simp
  from finalize_sent_sending [OF this, of rs "length atts" now] show ?thesis
    using fin same by (auto simp: w')
qed

lemma delivery_failed_Inr:
  assumes "is_sending rid (w_db w)" and "delivery_failed rid rs e now w = (Inr (), w')"
  shows "run_settled rid FAILED now (w_db w) (w_db w') \<and> w_sent w' = w_sent w"
  using finalize_failed_sending [OF assms(1), of "\<lparr> fl_code = ''EMAIL_DELIVERY'',
      fl_details = mail_details e rs \<rparr>" now] assms(2)
  by (auto simp: delivery_failed_def w_then_Inr)

lemma size_exceeded_Inr:
  assumes "is_sending rid (w_db w)" and "size_exceeded dl rid rs body e clock w = (Inr (), w')"
  shows "run_settled rid FAILED (clock 1) (w_db w) (w_db w') \<and>
    w_sent w' \<in> {w_sent w, w_sent w @ [admin_notification dl rid (clock 2)]}"
proof -
  let ?reason = "\<lparr> fl_code = ''EMAIL_SIZE_EXCEEDED'', fl_details = mail_details e rs \<rparr>"
  obtain u w1 v w2 x w3 where save: "save_email_body dl rid body w = (Inr u, w1)"
    and fin: "finalize_failed rid ?reason (clock 1) w1 = (Inr v, w2)"
    and admin: "send_admin_notification dl rid (clock 2) w2 = (Inr x, w3)"
    and w': "w' = record_metrics [MDelivery ''permanent_failure''] w3"
    using assms(2) by (auto simp: size_exceeded_def w_then_Inr)
  note same = save_email_body_same [OF save] and admin_same = send_admin_notification_same [OF admin]
  then have "is_sending rid (w_db w1)" using assms(1) by simp
  from finalize_failed_sending [OF this, of ?reason "clock 1"] show ?thesis
    using fin same admin_same by (auto simp: w')
qed

lemma deliver_Inr:
  assumes sending: "is_sending (run_run_id r) (w_db w)"
    and res: "deliver dl r clock body atts w = (Inr (), w')"
  shows "\<exists>mails. w_sent w' = w_sent w @ mails \<and>
    (run_settled (run_run_id r) SENT (clock 1) (w_db w) (w_db w') \<and> delivered dl r (w_db w) mails \<or>
     run_settled (run_run_id r) FAILED (clock 1) (w_db w) (w_db w') \<and>
       not_delivered dl (run_run_id r) (clock 2) mails)"
proof -
  define recs where "recs = recipients_for_run (run_pipeline_type r) (run_tags r) (w_db w)"
  define w2 where "w2 = record_metrics [MSize (email_size body atts)] w"
  define m where "m = outbound dl r recs body atts"
  have w2: "w_db w2 = w_db w" "w_sent w2 = w_sent w" by (simp_all add: w2_def)
  consider (nobody) "recs = {}" "finish_sent dl (run_run_id r) {} body atts (clock 1) w2 = (Inr (), w')"
    | (sent) "recs \<noteq> {}" "dl_mailer dl m = None"
        "finish_sent dl (run_run_id r) recs body atts (clock 1) (w2\<lparr> w_sent := w_sent w2 @ [m] \<rparr>) =
          (Inr (), w')"
    | (failed) e where "send_failed dl (run_run_id r) recs body e clock w2 = (Inr (), w')"
    using res
    unfolding deliver_def in_uow_recipients recs_def [symmetric] w2_def [symmetric] w_then_Inr
    by (auto simp: w_then_Inr outbound_email_post_init_Inr send_mail_eq m_def [symmetric]
        w2_def [symmetric] Let_def split: if_splits option.splits)
  then show ?thesis
  proof cases
    case nobody
    then show ?thesis
      using finish_sent_Inr [OF _ nobody(2)] sending w2 by (auto simp: delivered_def simp flip: recs_def)
  next
    case sent
    have "report_mail dl r (w_db w) m" by (auto simp: report_mail_def m_def recs_def)
    with sent show ?thesis
      using finish_sent_Inr [OF _ sent(3)] sending w2 by (auto simp: delivered_def simp flip: recs_def)
  next
    case failed
    then consider "size_exceeded dl (run_run_id r) recs body e clock w2 = (Inr (), w')"
      | "delivery_failed (run_run_id r) recs e (clock 1) w2 = (Inr (), w')"
      by (auto simp: send_failed_def split: if_splits)
    then show ?thesis
    proof cases
      case 1
      from size_exceeded_Inr [OF _ this] sending w2 show ?thesis by (auto simp: not_delivered_def)
    next
      case 2
      from delivery_failed_Inr [OF _ this] sending w2 show ?thesis by (auto simp: not_delivered_def)
    qed
  qed
qed

section \<open>What the task leaves\<close>

lemma recipients_cong:
  "db_users d = db_users d' \<Longrightarrow> db_subscriptions d = db_subscriptions d' \<Longrightarrow>
   recipients_for_run p tags d = recipients_for_run p tags d'"
  by (simp add: recipients_for_run_def)

definition started :: "run \<Rightarrow> int \<Rightarrow> db \<Rightarrow> db" where
  "started r now d = moved (run_run_id r) SENDING now (start_event r now) d"

lemma started_sending:
  assumes "run_get rid d = Done r d" and "dt_us (run_created_at r) \<le> now"
  shows "is_sending rid (started r now d)"
  using moved_get [OF assms, of SENDING "start_event r now"] run_get_id [OF assms(1)]
  by (auto simp: is_sending_def started_def)

text \<open>The two ways on after the start: rendering fails, or the report is delivered.\<close>

lemma render_and_deliver_cases:
  "\<exists>w3. w_db w3 = w_db w \<and> w_sent w3 = w_sent w \<and>
     ((\<exists>e. render_and_deliver dl r clock w = render_failed (run_run_id r) e (clock 1) w3) \<or>
      (\<exists>atts body. render_and_deliver dl r clock w = deliver dl r clock body atts w3))"
proof (cases "load_and_render dl (run_run_id r) (w_db w)")
  case (Inl e)
  then show ?thesis by (auto simp: render_and_deliver_def)
next
  case (Inr fs)
  obtain x w3 where save: "save_fragments dl (run_run_id r) fs w = (x, w3)"
    by (cases "save_fragments dl (run_run_id r) fs w")
  note same = save_fragments_same [OF save]
  show ?thesis
  proof (cases x)
    case (Inl e)
    then show ?thesis using Inr save same by (auto simp: render_and_deliver_def)
  next
    case x: (Inr u)
    show ?thesis
      using same by (cases "render_parts dl r fs") (auto simp: render_and_deliver_def Inr save x)
  qed
qed

lemma execute_ready:
  assumes get: "run_get rid (w_db w) = Done r (w_db w)" and st: "run_state r = READY"
  shows "execute dl rid clock w = render_and_deliver dl r clock
    (record_metrics [MRun SENDING] (w\<lparr> w_db := started r (clock 0) (w_db w) \<rparr>))"
  using in_uow_Done [where body = "start_tx rid (clock 0)" and w = w, OF start_tx_ready [OF get st]]
  by (simp add: execute_def w_then_def started_def run_get_id [OF get])

text \<open>The final database of the task, when it returns.\<close>

definition task_done :: "delivery \<Rightarrow> run \<Rightarrow> (nat \<Rightarrow> int) \<Rightarrow> world \<Rightarrow> run_state \<Rightarrow> world \<Rightarrow> bool" where
  "task_done dl r clock w st w' \<longleftrightarrow> (\<exists>mails. w_sent w' = w_sent w @ mails \<and>
     run_settled (run_run_id r) st (clock 1) (started r (clock 0) (w_db w)) (w_db w') \<and>
     (st = SENT \<and> delivered dl r (w_db w) mails \<or>
      st = FAILED \<and> not_delivered dl (run_run_id r) (clock 2) mails))"

lemma execute_Inr:
  assumes get: "run_get rid (w_db w) = Done r (w_db w)" and st: "run_state r = READY"
    and clock: "dt_us (run_created_at r) \<le> clock 0"
    and res: "execute dl rid clock w = (Inr (), w')"
  shows "\<exists>st. task_done dl r clock w st w'"
proof -
  have id: "run_run_id r = rid" using get by (rule run_get_id)
  note sending = started_sending [OF get clock]
  have recs: "delivered dl r (started r (clock 0) (w_db w)) = delivered dl r (w_db w)"
    using recipients_cong [of "started r (clock 0) (w_db w)" "w_db w"]
    by (simp add: fun_eq_iff delivered_def report_mail_def started_def)
  let ?w2 = "record_metrics [MRun SENDING] (w\<lparr> w_db := started r (clock 0) (w_db w) \<rparr>)"
  have res: "render_and_deliver dl r clock ?w2 = (Inr (), w')"
    using res execute_ready [OF get st] by simp
  from render_and_deliver_cases [of ?w2 dl r clock, unfolded res] obtain w3
    where same: "w_db w3 = w_db ?w2" "w_sent w3 = w_sent ?w2"
      and way: "(\<exists>e. (Inr (), w') = render_failed (run_run_id r) e (clock 1) w3) \<or>
        (\<exists>atts body. (Inr (), w') = deliver dl r clock body atts w3)"
    by blast
  have w3: "w_db w3 = started r (clock 0) (w_db w)" "w_sent w3 = w_sent w" using same by simp_all
  have sending3: "is_sending (run_run_id r) (w_db w3)" using sending id w3 by simp
  from way show ?thesis
  proof
    assume "\<exists>e. (Inr (), w') = render_failed (run_run_id r) e (clock 1) w3"
    then have "run_settled (run_run_id r) FAILED (clock 1) (w_db w3) (w_db w') \<and> w_sent w' = w_sent w3"
      using render_failed_Inr [OF sending3] by metis
    with w3 show ?thesis by (force simp: task_done_def not_delivered_def)
  next
    assume "\<exists>atts body. (Inr (), w') = deliver dl r clock body atts w3"
    then obtain atts body where "deliver dl r clock body atts w3 = (Inr (), w')" by metis
    from deliver_Inr [OF sending3 this] w3 recs show ?thesis by (auto simp: task_done_def)
  qed
qed

lemma task_done_facts:
  assumes get: "run_get rid (w_db w) = Done r (w_db w)" and fin: "task_done dl r clock w st w'"
    and clock: "dt_us (run_created_at r) \<le> clock 0" "dt_us (run_created_at r) \<le> clock 1"
  shows "run_get rid (w_db w') =
      Done (r\<lparr> run_state := st, run_updated_at := utc (clock 1) \<rparr>) (w_db w')"
    "length (db_audit (w_db w')) = length (db_audit (w_db w)) + 2"
    "k \<noteq> rid \<Longrightarrow> find_row rr_run_id k (db_runs (w_db w')) = find_row rr_run_id k (db_runs (w_db w))"
    "db_stages (w_db w') = db_stages (w_db w)"
proof -
  have id: "run_run_id r = rid" using get by (rule run_get_id)
  obtain ev where ev: "w_db w' = moved rid st (clock 1) ev (started r (clock 0) (w_db w))"
    using fin id by (auto simp: task_done_def run_settled_def)
  have "run_get rid (started r (clock 0) (w_db w)) = Done (r\<lparr> run_state := SENDING,
      run_updated_at := utc (clock 0) \<rparr>) (started r (clock 0) (w_db w))"
    using moved_get [OF get clock(1)] id by (simp add: started_def)
  from moved_get [OF this, of "clock 1" st ev] clock(2) show "run_get rid (w_db w') =
      Done (r\<lparr> run_state := st, run_updated_at := utc (clock 1) \<rparr>) (w_db w')"
    by (simp add: ev)
  show "k \<noteq> rid \<Longrightarrow> find_row rr_run_id k (db_runs (w_db w')) = find_row rr_run_id k (db_runs (w_db w))"
    by (simp add: ev moved_other started_def id)
qed (use fin in \<open>auto simp: task_done_def run_settled_def started_def\<close>)

section \<open>When the task returns\<close>

text \<open>
  The documented behaviour of the collaborators: the renderer raises one of the four errors the
  task handles, the mailer a delivery error, the report store a persistence error; the
  configured addresses and subjects are non-empty and without line breaks.
\<close>

definition ports_ok :: "delivery \<Rightarrow> bool" where
  "ports_ok dl \<longleftrightarrow>
     (\<forall>ref ctx e. dl_render dl ref ctx = Inl e \<longrightarrow> render_failure_code e \<noteq> None) \<and>
     (\<forall>m e. dl_mailer dl m = Some e \<longrightarrow> exn_is e EmailDeliveryError) \<and>
     (\<forall>rid sid html e. dl_save_fragment dl rid sid html = Some e \<longrightarrow> exn_is e PersistenceError) \<and>
     (\<forall>rid html e. dl_save_email_body dl rid html = Some e \<longrightarrow> exn_is e PersistenceError) \<and>
     dl_from_address dl \<noteq> [] \<and> \<not> has_newline (dl_from_address dl) \<and>
     (\<forall>p f a b. dl_subject_templates dl p = Some f \<longrightarrow> \<not> has_newline (f a b))"

lemma safe_no_newline: "\<forall>c \<in> set s. filename_safe c \<Longrightarrow> \<not> has_newline s"
  by (auto simp: has_newline_def filename_safe_def is_lower_def is_upper_def is_digit_def)

lemma has_newline_append: "has_newline (s @ t) \<longleftrightarrow> has_newline s \<or> has_newline t"
  by (auto simp: has_newline_def)

lemma outbound_ok:
  assumes "ports_ok dl" and "canonical_uuid (run_run_id r)" and "recs \<noteq> {}"
  shows "outbound_email_post_init (outbound dl r recs body atts) = Inr (outbound dl r recs body atts)"
proof -
  have "\<not> has_newline (sanitize_filename_component (run_pipeline_type r))"
    by (rule safe_no_newline) (auto dest: sanitized_safe)
  moreover have "\<not> has_newline (run_run_id r)"
    by (rule safe_no_newline [OF canonical_uuid_safe [OF assms(2)]])
  moreover have "\<not> has_newline ''[''" "\<not> has_newline ''] run ''" by (simp_all add: has_newline_def)
  ultimately have "\<not> has_newline (build_subject (run_pipeline_type r) (run_run_id r)
      (dl_subject_templates dl (run_pipeline_type r)))"
    using assms(1)
    by (auto simp: build_subject_def Let_def ports_ok_def has_newline_append simp del: append.simps
        split: option.splits)
  then show ?thesis
    using assms by (simp add: outbound_email_post_init_Inr outbound_email_ok_def outbound_def ports_ok_def)
qed

lemma save_report_returns:
  "(\<And>e. res = Some e \<Longrightarrow> exn_is e PersistenceError) \<Longrightarrow> \<exists>w'. save_report res entry w = (Inr (), w')"
  by (cases res) (auto simp: save_report_def)

lemma save_email_body_returns:
  "ports_ok dl \<Longrightarrow> \<exists>w'. save_email_body dl rid html w = (Inr (), w')"
  unfolding save_email_body_def by (rule save_report_returns) (auto simp: ports_ok_def)

lemma save_fragments_returns:
  "ports_ok dl \<Longrightarrow> \<exists>w'. save_fragments dl rid fs w = (Inr (), w')"
proof (induction fs arbitrary: w)
  case Nil
  then show ?case by simp
next
  case (Cons f fs)
  obtain w1 where "save_report (dl_save_fragment dl rid (fr_stage_id f) (fr_rendered_html f))
      (rid, Some (fr_stage_id f), fr_rendered_html f) w = (Inr (), w1)"
    using save_report_returns Cons.prems by (metis ports_ok_def)
  with Cons show ?case by simp
qed

lemma render_failed_returns:
  assumes "is_sending rid (w_db w)" and "render_failure_code e \<noteq> None"
  shows "\<exists>w'. render_failed rid e now w = (Inr (), w')"
proof -
  obtain code where "render_failure_code e = Some code" using assms(2) by blast
  moreover obtain w' where "finalize_failed rid \<lparr> fl_code = code,
      fl_details = dict_merge [(''message'', JStr (exn_message e))] (exn_details e) \<rparr> now w = (Inr (), w')"
    using finalize_failed_sending [OF assms(1)] by blast
  ultimately show ?thesis by (simp add: render_failed_def)
qed

lemma finish_sent_returns:
  assumes "ports_ok dl" and "is_sending rid (w_db w)"
  shows "\<exists>w'. finish_sent dl rid rs body atts now w = (Inr (), w')"
proof -
  obtain w1 where save: "save_email_body dl rid body w = (Inr (), w1)"
    using save_email_body_returns [OF assms(1)] by blast
  then have "is_sending rid (w_db w1)" using assms(2) save_email_body_same by metis
  from finalize_sent_sending [OF this] obtain w2 where
    "finalize_sent rid rs (length atts) now w1 = (Inr (), w2)" by blast
  with save show ?thesis by (simp add: finish_sent_def w_then_def)
qed

lemma send_admin_notification_returns:
  assumes "ports_ok dl" and "canonical_uuid rid"
  shows "\<exists>w'. send_admin_notification dl rid now w = (Inr (), w')"
proof (cases "dl_admin_recipients dl = []")
  case True
  then show ?thesis by (simp add: send_admin_notification_def)
next
  case False
  have "\<not> has_newline rid" by (rule safe_no_newline [OF canonical_uuid_safe [OF assms(2)]])
  moreover have "\<not> has_newline ''Message Service: EMAIL_SIZE_EXCEEDED for run ''"
    by (simp add: has_newline_def)
  ultimately have "outbound_email_post_init (admin_notification dl rid now) =
      Inr (admin_notification dl rid now)"
    using False assms(1)
    by (auto simp: outbound_email_post_init_Inr outbound_email_ok_def admin_notification_def
        ports_ok_def has_newline_append simp del: append.simps)
  moreover have "dl_mailer dl m = Some e \<Longrightarrow> exn_is e EmailDeliveryError" for m e
    using assms(1) by (simp add: ports_ok_def)
  ultimately show ?thesis
    using False by (auto simp: send_admin_notification_def send_mail_eq split: option.splits)
qed

lemma send_failed_returns:
  assumes "ports_ok dl" and "canonical_uuid rid" and "is_sending rid (w_db w)"
    and "exn_is e EmailDeliveryError"
  shows "\<exists>w'. send_failed dl rid rs body e clock w = (Inr (), w')"
proof (cases "exn_is e EmailSizeExceededError")
  case True
  let ?reason = "\<lparr> fl_code = ''EMAIL_SIZE_EXCEEDED'', fl_details = mail_details e rs \<rparr>"
  obtain w1 where save: "save_email_body dl rid body w = (Inr (), w1)"
    using save_email_body_returns [OF assms(1)] by blast
  then have "is_sending rid (w_db w1)" using assms(3) save_email_body_same by metis
  from finalize_failed_sending [OF this] obtain w2 where
    "finalize_failed rid ?reason (clock 1) w1 = (Inr (), w2)" by blast
  moreover obtain w3 where "send_admin_notification dl rid (clock 2) w2 = (Inr (), w3)"
    using send_admin_notification_returns [OF assms(1,2)] by blast
  ultimately show ?thesis
    using True save by (simp add: send_failed_def size_exceeded_def w_then_def)
next
  case False
  from finalize_failed_sending [OF assms(3)] obtain w1 where "finalize_failed rid
      \<lparr> fl_code = ''EMAIL_DELIVERY'', fl_details = mail_details e rs \<rparr> (clock 1) w = (Inr (), w1)"
    by blast
  with False assms(4) show ?thesis by (simp add: send_failed_def delivery_failed_def w_then_def)
qed

lemma deliver_returns:
  assumes "ports_ok dl" and "canonical_uuid (run_run_id r)" and "is_sending (run_run_id r) (w_db w)"
  shows "\<exists>w'. deliver dl r clock body atts w = (Inr (), w')"
proof -
  define recs where "recs = recipients_for_run (run_pipeline_type r) (run_tags r) (w_db w)"
  define m where "m = outbound dl r recs body atts"
  define w2 where "w2 = record_metrics [MSize (email_size body atts)] w"
  have sending: "is_sending (run_run_id r) (w_db w2)"
    "is_sending (run_run_id r) (w_db (w2\<lparr> w_sent := w_sent w2 @ [m] \<rparr>))"
    using assms(3) by (simp_all add: w2_def)
  show ?thesis
  proof (cases "recs = {}")
    case True
    then show ?thesis using finish_sent_returns [OF assms(1) sending(1)]
      by (simp add: deliver_def in_uow_recipients w_then_def recs_def w2_def)
  next
    case False
    then have "deliver dl r clock body atts w = (case send_mail dl m w2 of
        (None, w3) \<Rightarrow> finish_sent dl (run_run_id r) recs body atts (clock 1) w3
      | (Some e, w3) \<Rightarrow> send_failed dl (run_run_id r) recs body e clock w3)"
      using outbound_ok [OF assms(1,2) False, of body atts]
      by (simp add: deliver_def in_uow_recipients w_then_def w2_def m_def flip: recs_def)
    moreover have "exn_is e EmailDeliveryError" if "dl_mailer dl m = Some e" for e
      using assms(1) that by (simp add: ports_ok_def)
    ultimately show ?thesis
      using finish_sent_returns [OF assms(1) sending(2)]
        send_failed_returns [OF assms(1,2) sending(1)]
      by (cases "dl_mailer dl m") (simp_all add: send_mail_eq)
  qed
qed

lemma load_and_render_failure:
  assumes "ports_ok dl" and "run_get rid d = Done r d" and "stage_list_by_run rid d = Done ss d"
    and "load_and_render dl rid d = Inl e"
  shows "render_failure_code e \<noteq> None"
proof -
  have "map_res (render_fragment dl r) (stages_to_render r ss) = Inl e"
    using assms(2-4) by (simp add: load_and_render_def uow_def)
  then obtain s where "render_fragment dl r s = Inl e" by (auto dest: map_res_Inl)
  then show ?thesis
    using assms(1) by (auto simp: render_fragment_def ports_ok_def and_then_Inl split: option.splits)
qed

lemma render_parts_failure:
  assumes "ports_ok dl" and "run_ok r" and "render_parts dl r fs = Inl e"
  shows "render_failure_code e \<noteq> None"
  using assms
  by (auto simp: render_parts_def build_attachments_def render_email_body_def run_ok_def ports_ok_def
      and_then_Inl split: if_splits option.splits)

lemma execute_returns:
  assumes ports: "ports_ok dl" and uuid: "canonical_uuid rid"
    and get: "run_get rid (w_db w) = Done r (w_db w)" and st: "run_state r = READY"
    and stages: "stage_list_by_run rid (w_db w) = Done ss (w_db w)"
    and clock: "dt_us (run_created_at r) \<le> clock 0"
  shows "\<exists>w'. execute dl rid clock w = (Inr (), w')"
proof -
  define w2 where "w2 = record_metrics [MRun SENDING] (w\<lparr> w_db := started r (clock 0) (w_db w) \<rparr>)"
  have id: "run_run_id r = rid" using get by (rule run_get_id)
  have ok: "run_ok r" using get by (auto simp: run_get_Done dest: row_to_run_Inr(6))
  have w2: "w_db w2 = started r (clock 0) (w_db w)" by (simp add: w2_def)
  have sending: "is_sending rid (w_db w2)" using started_sending [OF get clock] by (simp add: w2)
  obtain r2 where get2: "run_get rid (w_db w2) = Done r2 (w_db w2)"
    using sending by (auto simp: is_sending_def)
  have stages2: "stage_list_by_run rid (w_db w2) = Done ss (w_db w2)"
    using stages by (simp add: stage_list_by_run_def tx_read_Done w2 started_def)
  have "\<exists>w'. render_and_deliver dl r clock w2 = (Inr (), w')"
  proof (cases "load_and_render dl rid (w_db w2)")
    case (Inl e)
    with load_and_render_failure [OF ports get2 stages2] have "render_failure_code e \<noteq> None" by simp
    from render_failed_returns [OF sending this] Inl show ?thesis by (simp add: render_and_deliver_def id)
  next
    case load: (Inr fs)
    obtain w3 where save: "save_fragments dl rid fs w2 = (Inr (), w3)"
      using save_fragments_returns [OF ports] by blast
    then have sending3: "is_sending rid (w_db w3)" using sending save_fragments_same by metis
    show ?thesis
    proof (cases "render_parts dl r fs")
      case (Inl e)
      from render_failed_returns [OF sending3 render_parts_failure [OF ports ok Inl]] Inl load save
      show ?thesis by (simp add: render_and_deliver_def id)
    next
      case (Inr parts)
      with deliver_returns [OF ports, of r w3] uuid sending3 load save show ?thesis
        by (cases parts) (simp add: render_and_deliver_def id)
    qed
  qed
  then show ?thesis using execute_ready [OF get st] by (simp add: w2_def)
qed

section \<open>Properties\<close>


definition sample_state_db :: "run_state \<Rightarrow> db" where
  "sample_state_db st = sample_db\<lparr> db_runs := [set_run_state st 5 sample_run_row] \<rparr>"

definition sample_state_run :: "run_state \<Rightarrow> run" where
  "sample_state_run st = sample_run\<lparr> run_state := st, run_updated_at := utc 5 \<rparr>"

abbreviation sample_ready_db :: db where
  "sample_ready_db \<equiv> sample_state_db READY"

abbreviation sample_ready_run :: run where
  "sample_ready_run \<equiv> sample_state_run READY"

definition sample_delivery :: delivery where
  "sample_delivery = \<lparr> dl_render = (\<lambda>ref ctx. Inr ''<p>''), dl_mailer = (\<lambda>m. None),
     dl_from_address = ''ms@x'', dl_email_body_template = sample_ref, dl_admin_recipients = [],
     dl_subject_templates = Map.empty, dl_body_template_overrides = Map.empty,
     dl_admin_body = (\<lambda>rid reason time. reason), dl_save_fragment = (\<lambda>rid sid html. None),
     dl_save_email_body = (\<lambda>rid html. None) \<rparr>"

lemma sample_state_get: "run_get sample_rid (sample_state_db st) = Done (sample_state_run st) (sample_state_db st)"
proof -
  have "row_to_run sample_run_row = Inr sample_run"
    using sample_run_get by (auto simp: run_get_Done sample_db_def split: if_splits)
  from row_to_run_set_state [OF this, of st 5]
  have "row_to_run (set_run_state st 5 sample_run_row) = Inr (sample_state_run st)"
    by (simp add: sample_state_run_def) (simp add: sample_run_row_def)
  then show ?thesis
    by (simp add: run_get_Done sample_state_db_def) (simp add: set_run_state_def sample_run_row_def)
qed

lemmas sample_ready_get = sample_state_get [of READY]

lemma sample_ready_stages:
  "stage_list_by_run sample_rid sample_ready_db = Done [sample_stage] sample_ready_db"
proof -
  have "row_to_stage sample_stage_row = Inr sample_stage"
    using sample_stage_get by (auto simp: stage_get_Done sample_db_def split: if_splits)
  moreover have "sr_run_id sample_stage_row = sample_rid" by (simp add: sample_stage_row_def)
  ultimately show ?thesis
    by (simp add: stage_list_by_run_def tx_read_Done sample_state_db_def sample_db_def)
qed

lemma sample_rid_canonical: "canonical_uuid sample_rid"
proof -
  have "\<not> (sample_rid = t @ newline \<and> canonical_uuid t)" for t
  proof
    assume t: "sample_rid = t @ newline \<and> canonical_uuid t"
    then have "length sample_rid = length (t @ newline)" by metis
    moreover have "length t = 36" using t by (simp add: canonical_uuid_def)
    ultimately show False by (simp add: sample_rid_def)
  qed
  with sample_rid_valid show ?thesis by (simp add: validate_run_id_str_Inr)
qed


text \<open>
  A delivery task for a run that is not READY raises and changes nothing, so a run is
  never delivered twice.
\<close>

theorem execute_not_ready:
  assumes "run_get rid (w_db w) = Done r (w_db w)" and "run_state r \<noteq> READY"
  shows "\<exists>e. execute dl rid clock w = (Inl e, w)"
proof -
  obtain e where "start_tx rid (clock 0) (w_db w) = Raised e"
    using start_tx_not_ready [OF assms] by blast
  then show ?thesis
    by (simp add: execute_def in_uow_def uow_def w_then_def)
qed

theorem execute_not_ready_witness:
  "\<exists>e. execute sample_delivery sample_rid (\<lambda>k. 9) sample_world = (Inl e, sample_world)"
  using execute_not_ready [of sample_rid sample_world sample_run] sample_run_get
  by (simp add: sample_world_def empty_world_def sample_run_def new_run_def)

text \<open>
  When the renderer raises an error outside the four the task handles (for instance
  UnknownTemplateError), the task raises it after the run was moved to SENDING: no mail is sent
  and the run stays in SENDING.
\<close>

theorem execute_strands:
  assumes render: "\<And>ref ctx. dl_render dl ref ctx = Inl e" and unhandled: "render_failure_code e = None"
    and get: "run_get rid (w_db w) = Done r (w_db w)" and st: "run_state r = READY"
    and stages: "stage_list_by_run rid (w_db w) = Done ss (w_db w)"
    and saves: "\<And>sid html. dl_save_fragment dl rid sid html = None"
    and clock: "dt_us (run_created_at r) \<le> clock 0"
  shows "\<exists>w'. execute dl rid clock w = (Inl e, w') \<and> w_sent w' = w_sent w \<and>
    run_get rid (w_db w') =
      Done (r\<lparr> run_state := SENDING, run_updated_at := utc (clock 0) \<rparr>) (w_db w')"
proof -
  define w2 where "w2 = record_metrics [MRun SENDING] (w\<lparr> w_db := started r (clock 0) (w_db w) \<rparr>)"
  have id: "run_run_id r = rid" using get by (rule run_get_id)
  have ok: "run_ok r" using get by (auto simp: run_get_Done dest: row_to_run_Inr(6))
  have w2: "w_db w2 = started r (clock 0) (w_db w)" "w_sent w2 = w_sent w" by (simp_all add: w2_def)
  define r2 where "r2 = r\<lparr> run_state := SENDING, run_updated_at := utc (clock 0) \<rparr>"
  have get2: "run_get rid (w_db w2) = Done r2 (w_db w2)"
    using moved_get [OF get clock] by (simp add: w2 started_def id r2_def)
  have stages2: "stage_list_by_run rid (w_db w2) = Done ss (w_db w2)"
    using stages by (simp add: stage_list_by_run_def tx_read_Done w2 started_def)
  have parts: "render_parts dl r fs = Inl e" for fs
    using ok by (cases "run_attachment_mode r"; cases "run_aggregation_template_ref r")
      (auto simp: render_parts_def build_attachments_def render_email_body_def render run_ok_def)
  have "\<exists>w3. render_and_deliver dl r clock w2 = (Inl e, w3) \<and> w_db w3 = w_db w2 \<and> w_sent w3 = w_sent w2"
  proof (cases "load_and_render dl rid (w_db w2)")
    case (Inl e')
    then have "map_res (render_fragment dl r2) (stages_to_render r2 ss) = Inl e'"
      using get2 stages2 by (simp add: load_and_render_def uow_def)
    then have "e' = e"
      by (auto dest!: map_res_Inl simp: render_fragment_def render and_then_Inl split: option.splits)
    with Inl show ?thesis by (simp add: render_and_deliver_def id render_failed_def unhandled)
  next
    case (Inr fs)
    have "\<exists>w3. save_fragments dl rid fs v = (Inr (), w3)" for v
      by (induction fs arbitrary: v) (simp_all add: save_report_def saves)
    then obtain w3 where save: "save_fragments dl rid fs w2 = (Inr (), w3)" by blast
    then show ?thesis
      using Inr save_fragments_same [OF save]
      by (simp add: render_and_deliver_def id parts render_failed_def unhandled)
  qed
  then show ?thesis using execute_ready [OF get st, of dl clock] get2 w2 by (auto simp: w2_def r2_def)
qed

theorem execute_strands_witness:
  "\<exists>w'. execute (sample_delivery\<lparr> dl_render := (\<lambda>ref ctx. Inl (err UnknownTemplateError [])) \<rparr>)
      sample_rid (\<lambda>k. 9) (empty_world\<lparr> w_db := sample_ready_db \<rparr>) =
      (Inl (err UnknownTemplateError []), w') \<and>
    run_get sample_rid (w_db w') =
      Done (sample_ready_run\<lparr> run_state := SENDING, run_updated_at := utc 9 \<rparr>) (w_db w')"
proof -
  let ?w = "empty_world\<lparr> w_db := sample_ready_db \<rparr>"
  let ?dl = "sample_delivery\<lparr> dl_render := (\<lambda>ref ctx. Inl (err UnknownTemplateError [])) \<rparr>"
  have db: "w_db ?w = sample_ready_db" by simp
  have render: "dl_render ?dl ref ctx = Inl (err UnknownTemplateError [])" for ref ctx by simp
  have unhandled: "render_failure_code (err UnknownTemplateError []) = None"
    by (simp add: render_failure_code_def isinstance_def mro_unfold)
  have saves: "dl_save_fragment ?dl sample_rid sid html = None" for sid html
    by (simp add: sample_delivery_def)
  have st: "run_state sample_ready_run = READY" by (simp add: sample_state_run_def)
  have created: "dt_us (run_created_at sample_ready_run) \<le> 9"
    by (simp add: sample_state_run_def sample_run_def new_run_def)
  from execute_strands [of ?dl _ sample_rid ?w sample_ready_run "[sample_stage]" "\<lambda>k. 9",
      unfolded db, OF render unhandled sample_ready_get st sample_ready_stages saves created]
  show ?thesis by blast
qed

text \<open>
  When the run reached a terminal state while the task was rendering or mailing, settling it
  records one SEND_REPORT audit event that names the state and leaves the run as it is; no
  metric is recorded.
\<close>

theorem settle_reconciles:
  assumes "run_get rid (w_db w) = Done r (w_db w)" and "run_state r \<in> run_terminal"
  shows "\<exists>out details. (case outcome of
        Inl reason \<Rightarrow> finalize_failed rid reason now w
      | Inr (recipients, n) \<Rightarrow> finalize_sent rid recipients n now w) =
    (Inr (), w\<lparr> w_db := add_audit (reconciliation_event rid now (run_state r) out details) (w_db w) \<rparr>)"
proof (cases outcome)
  case (Inl reason)
  then show ?thesis
    using settle_run_tx_terminal [OF assms, of FAILED FAILURE "merge_failure_details reason"
        "failed_details reason now" now]
    by (auto simp: finalize_failed_def finalize_failed_tx_def settle_run_def in_uow_def uow_def)
next
  case (Inr p)
  then show ?thesis
    using settle_run_tx_terminal [OF assms, of SENT SUCCESS "[(''recipient_count'', JInt (int (card (fst p)))),
        (''attachment_count'', JInt (int (snd p)))]" "sent_details (fst p) (snd p) now" now]
    by (cases p) (auto simp: finalize_sent_def finalize_sent_tx_def settle_run_def in_uow_def uow_def)
qed

theorem settle_reconciles_witness:
  "\<exists>out details. finalize_sent sample_rid {''a@x''} 1 9 (empty_world\<lparr> w_db := sample_state_db ORPHANED \<rparr>) =
    (Inr (), (empty_world\<lparr> w_db := sample_state_db ORPHANED \<rparr>)\<lparr> w_db :=
       add_audit (reconciliation_event sample_rid 9 ORPHANED out details) (sample_state_db ORPHANED) \<rparr>)"
proof -
  let ?w = "empty_world\<lparr> w_db := sample_state_db ORPHANED \<rparr>"
  have db: "w_db ?w = sample_state_db ORPHANED" by simp
  have st: "run_state (sample_state_run ORPHANED) = ORPHANED" by (simp add: sample_state_run_def)
  from settle_reconciles [of sample_rid ?w "sample_state_run ORPHANED" 9 "Inr ({''a@x''}, 1)",
      unfolded db st, OF sample_state_get] show ?thesis
    by (simp add: run_terminal_def)
qed

text \<open>
  The stages are rendered in the order of (stage order, stage id), each SUBMITTED, ACCEPTED
  or RETRIED stage exactly once and no other.
\<close>

theorem stages_to_render_order:
  "mset (stages_to_render r stages) = filter_mset (\<lambda>s. stage_state s \<in> included_states) (mset stages) \<and>
   sorted_wrt (\<lambda>s t. stage_order_of r (stage_stage_id s) < stage_order_of r (stage_stage_id t) \<or>
      (stage_order_of r (stage_stage_id s) = stage_order_of r (stage_stage_id t) \<and>
       stage_stage_id s \<le> stage_stage_id t)) (stages_to_render r stages)"
  using mset_stages_to_render [of r stages]
    sorted_pair_sort_key [of stage_stage_id "sort_key stage_stage_id
      (filter (\<lambda>s. stage_state s \<in> included_states) stages)" "\<lambda>s. stage_order_of r (stage_stage_id s)"]
  by (simp add: stages_to_render_def)

text \<open>
  Whatever the pipeline and stage are called, an attachment name has at most 255 bytes and
  only letters, digits, dots, underscores and dashes.  A pipeline name so long that the run id
  reaches the limit gives every stage of the run the same attachment name.
\<close>

theorem attachment_filename_bounded:
  assumes "canonical_uuid rid"
  shows "length (utf8_encode (build_attachment_filename p rid sid)) \<le> max_filename_bytes \<and>
    (\<forall>c \<in> set (build_attachment_filename p rid sid). filename_safe c) \<and>
    (213 \<le> length p \<longrightarrow>
       build_attachment_filename p rid (Some s) = build_attachment_filename p rid (Some t))"
proof -
  let ?name = "build_attachment_filename p rid sid"
  define base where "base = sanitize_filename_component p @ ''_'' @ rid @ (case sid of None \<Rightarrow> []
     | Some s \<Rightarrow> ''_'' @ sanitize_filename_component s)"
  have name: "?name = take 250 base @ ''.html''"
    using attachment_filename_eq [OF assms] by (simp add: base_def)
  have "\<forall>c \<in> set base. filename_safe c"
    using canonical_uuid_safe [OF assms]
    by (auto simp: base_def filename_safe_def [of "CHR ''_''"] dest: sanitized_safe split: option.splits)
  then have safe: "\<forall>c \<in> set ?name. filename_safe c"
    unfolding name by (auto simp: filename_safe_def is_lower_def less_eq_char_def dest: in_set_takeD)
  moreover have "length ?name \<le> 255" unfolding name by simp
  moreover have "build_attachment_filename p rid (Some s) = build_attachment_filename p rid (Some t)"
    if long: "213 \<le> length p"
  proof -
    define front where "front = sanitize_filename_component p @ ''_'' @ rid"
    have "250 \<le> length front"
      using long assms by (simp add: front_def sanitize_filename_component_def canonical_uuid_def)
    then have "build_attachment_filename p rid (Some u) = take 250 front @ ''.html''" for u
      using attachment_filename_eq [OF assms, of p "Some u"]
        take_append [of 250 front "''_'' @ sanitize_filename_component u"]
      by (simp add: front_def)
    then show ?thesis by simp
  qed
  ultimately show ?thesis by (simp add: utf8_ascii [OF safe] max_filename_bytes_def)
qed

theorem attachment_filename_bounded_witness:
  "length (utf8_encode (build_attachment_filename ''a/b'' sample_rid (Some ''../x''))) \<le> 255"
  using attachment_filename_bounded [OF sample_rid_canonical, of "''a/b''" "Some ''../x''"]
  by (simp add: max_filename_bytes_def)

text \<open>
  The \<open>failure_reason\<close> of a failed run is always the code of the closed vocabulary the
  task chose: a value of that name in the details of the error moves to
  \<open>smtp_failure_classification\<close>, and no other detail changes.
\<close>

theorem failure_reason_is_code:
  "dict_get (merge_failure_details reason) k =
     (if k = ''failure_reason'' then Some (JStr (fl_code reason))
      else if k = ''smtp_failure_classification'' \<and>
              dict_get (fl_details reason) ''failure_reason'' \<notin> {None, Some JNull}
      then dict_get (fl_details reason) ''failure_reason''
      else dict_get (fl_details reason) k)"
proof -
  obtain smtp extra where pop: "dict_pop (fl_details reason) ''failure_reason'' = (smtp, extra)"
    by (cases "dict_pop (fl_details reason) ''failure_reason''")
  have smtp: "smtp = dict_get (fl_details reason) ''failure_reason''"
    using pop by (simp add: dict_pop_def dict_get_def)
  have extra: "dict_get extra k = (if k = ''failure_reason'' then None else dict_get (fl_details reason) k)" for k
    using dict_pop_get [of "fl_details reason" "''failure_reason''" k] pop by simp
  have one: "dict_get [(a, v)] k = (if k = a then Some v else None)" for a v k
    by (simp add: dict_get_def)
  show ?thesis
    by (cases smtp)
      (auto simp: merge_failure_details_def pop Let_def dict_get_merge extra one simp flip: smtp
        split: option.splits)
qed

end
