(* ===== verification/Report_Pruner.thy ===== *)
theory Report_Pruner
  imports Report_Store Delivery
begin

text \<open>
  \<open>ReportPrunerUseCase\<close>: it deletes the report files of runs that have been in a terminal
  state for longer than the retention, with one audit record per file and a bound on the files
  of one pass.  The state is the world and the file system; \<open>prune_io\<close> says which calls of
  the operating system fail.

  The properties: a pass removes only such files, within the bound and one record each; and a run
  with more files than the bound stops every pass before it.
\<close>

section \<open>The file system calls\<close>

record prune_io =
  pi_stat_fails :: "path \<Rightarrow> bool"
  pi_unlink_fails :: "path \<Rightarrow> string option"
  pi_not_found :: "path \<Rightarrow> string"
  pi_rmdir_fails :: "path \<Rightarrow> bool"

definition is_under :: "path \<Rightarrow> path \<Rightarrow> bool" where
  "is_under dir p \<longleftrightarrow> length dir < length p \<and> take (length dir) p = dir"

definition list_files :: "path \<Rightarrow> files \<Rightarrow> path list" where
  "list_files dir fs = sort (filter (is_under dir) (map fst (fs_files fs)))"

text \<open>\<open>rmdir\<close>: \<open>None\<close> is an OSError; only an empty directory can be removed.\<close>

definition rmdir :: "prune_io \<Rightarrow> path \<Rightarrow> files \<Rightarrow> files option" where
  "rmdir io dir fs =
     (if dir \<notin> set (fs_dirs fs) \<or> pi_rmdir_fails io dir \<or> (\<exists>p \<in> fst ` set (fs_files fs). is_under dir p) \<or>
        (\<exists>d \<in> set (fs_dirs fs). is_under dir d)
      then None else Some (fs\<lparr> fs_dirs := filter (\<lambda>d. d \<noteq> dir) (fs_dirs fs) \<rparr>))"

fun rmdirs :: "prune_io \<Rightarrow> path list \<Rightarrow> files \<Rightarrow> files" where
  "rmdirs io [] fs = fs"
| "rmdirs io (d # ds) fs = (case rmdir io d fs of None \<Rightarrow> fs | Some fs' \<Rightarrow> rmdirs io ds fs')"

definition rmdir_empty_subtree :: "prune_io \<Rightarrow> path \<Rightarrow> files \<Rightarrow> files" where
  "rmdir_empty_subtree io dir fs =
     rmdirs io (sort_key (\<lambda>d. - int (length d)) (filter (is_under dir) (fs_dirs fs)) @ [dir]) fs"

section \<open>One file\<close>

definition unlink_error :: "prune_io \<Rightarrow> path \<Rightarrow> files \<Rightarrow> string option" where
  "unlink_error io p fs = (if file_at fs p = None then Some (pi_not_found io p) else pi_unlink_fails io p)"

definition size_entry :: "prune_io \<Rightarrow> path \<Rightarrow> files \<Rightarrow> dict" where
  "size_entry io p fs = (case file_at fs p of
     None \<Rightarrow> []
   | Some text \<Rightarrow> if pi_stat_fails io p then []
       else [(''file_size_bytes'', JInt (int (length (utf8_encode text))))])"

definition prune_event :: "path \<Rightarrow> run \<Rightarrow> string \<Rightarrow> string option \<Rightarrow> dict \<Rightarrow> int \<Rightarrow> audit_event" where
  "prune_event p r since failure sz now =
     \<lparr> ae_timestamp = utc now, ae_action = PRUNE_REPORT, ae_actor = ''system:report_pruner'',
       ae_resource = ''report:'' @ run_run_id r,
       ae_outcome = (case failure of None \<Rightarrow> SUCCESS | Some _ \<Rightarrow> FAILURE),
       ae_details = [(''file_path'', JStr (path_text p)),
         (''terminal_state'', JStr (run_state_value (run_state r))),
         (''terminal_state_at'', JStr since)]
         @ (case failure of None \<Rightarrow> [] | Some msg \<Rightarrow> [(''failure_reason'', JStr msg)]) @ sz,
       ae_audit_id = None \<rparr>"

text \<open>
  \<open>_evict_file\<close> with \<open>_record_failure\<close>: whether the file was deleted and recorded.  The
  audit record is best effort.
\<close>

definition evict_file ::
  "prune_io \<Rightarrow> path \<Rightarrow> run \<Rightarrow> int \<Rightarrow> world \<times> files \<Rightarrow> (exn + bool) \<times> world \<times> files" where
  "evict_file io p r now s = (case s of (w, fs) \<Rightarrow>
     let failure = unlink_error io p fs; sz = size_entry io p fs;
         fs' = (if failure = None then file_unlink p fs else fs)
     in case and_then (iso_z (run_updated_at r)) (\<lambda>since.
            audit_event_post_init (prune_event p r since failure sz now)) of
          Inl e \<Rightarrow> (Inl e, w, fs')
        | Inr ev \<Rightarrow> (case in_uow (audit_record ev) w of
            (Inl _, w') \<Rightarrow> (Inr False, w', fs') | (Inr _, w') \<Rightarrow> (Inr (failure = None), w', fs')))"

section \<open>One pass\<close>

record report_pruner =
  rp_root :: path
  rp_retention :: int
  rp_max_prunes :: int

definition report_pruner_init :: "path \<Rightarrow> int \<Rightarrow> int \<Rightarrow> exn + report_pruner" where
  "report_pruner_init root days max_prunes =
     check (days < 1) value_error (check (max_prunes < 1) value_error
       (Inr \<lparr> rp_root = root, rp_retention = days * int us_per_day, rp_max_prunes = max_prunes \<rparr>))"

record prune_result =
  pr_runs :: nat
  pr_deleted :: nat
  pr_failed :: nat

fun evict_all ::
  "prune_io \<Rightarrow> path list \<Rightarrow> run \<Rightarrow> int \<Rightarrow> prune_result \<Rightarrow> world \<times> files \<Rightarrow> (exn + prune_result) \<times> world \<times> files" where
  "evict_all io [] r now c s = (Inr c, s)"
| "evict_all io (p # ps) r now c s = (case evict_file io p r now s of
     (Inl e, s') \<Rightarrow> (Inl e, s')
   | (Inr gone, s') \<Rightarrow> evict_all io ps r now
       (if gone then c\<lparr> pr_deleted := pr_deleted c + 1 \<rparr> else c\<lparr> pr_failed := pr_failed c + 1 \<rparr>) s')"

fun prune_candidates ::
  "report_pruner \<Rightarrow> prune_io \<Rightarrow> int \<Rightarrow> run list \<Rightarrow> prune_result \<Rightarrow> int \<Rightarrow> world \<times> files \<Rightarrow>
   (exn + prune_result) \<times> world \<times> files" where
  "prune_candidates cfg io now [] c budget s = (Inr c, s)"
| "prune_candidates cfg io now (r # rs) c budget s =
     (let dir = path_div (rp_root cfg) (run_run_id r); ps = list_files dir (snd s) in
      if ps = [] then prune_candidates cfg io now rs c budget (fst s, rmdir_empty_subtree io dir (snd s))
      else if budget < int (length ps) then (Inr c, s)
      else case evict_all io ps r now c s of
        (Inl e, s') \<Rightarrow> (Inl e, s')
      | (Inr c', w', fs') \<Rightarrow> prune_candidates cfg io now rs (c'\<lparr> pr_runs := pr_runs c' + 1 \<rparr>)
          (budget - int (length ps)) (w', rmdir_empty_subtree io dir fs'))"

definition candidate_query_limit :: int where
  "candidate_query_limit = 10000"

definition prune_run_once ::
  "report_pruner \<Rightarrow> prune_io \<Rightarrow> int \<Rightarrow> world \<times> files \<Rightarrow> (exn + prune_result) \<times> world \<times> files" where
  "prune_run_once cfg io now s =
     (case in_uow (run_list_expired (utc (now - rp_retention cfg)) run_terminal candidate_query_limit) (fst s) of
        (Inl e, w) \<Rightarrow> (Inl e, w, snd s)
      | (Inr candidates, w) \<Rightarrow> prune_candidates cfg io now candidates
          \<lparr> pr_runs = 0, pr_deleted = 0, pr_failed = 0 \<rparr> (rp_max_prunes cfg) (w, snd s))"

section \<open>What one pass does\<close>

lemma rmdirs_files: "fs_files (rmdirs io ds fs) = fs_files fs"
  by (induction ds arbitrary: fs) (auto simp: rmdir_def split: option.split if_splits)

lemma rmdir_subtree_files [simp]: "fs_files (rmdir_empty_subtree io dir fs) = fs_files fs"
  by (simp add: rmdir_empty_subtree_def rmdirs_files)

lemma prune_event_ok: "audit_event_post_init (prune_event p r since failure sz now) = Inr (prune_event p r since failure sz now)"
  by (simp add: audit_event_post_init_Inr audit_event_ok_def prune_event_def)

lemma evict_file_eq:
  assumes "dt_aware (run_updated_at r)"
  shows "evict_file io p r now (w, fs) = (let failure = unlink_error io p fs in
    (Inr (failure = None),
     w\<lparr> w_db := add_audit (prune_event p r (iso_text (dt_us (run_updated_at r))) failure (size_entry io p fs) now) (w_db w) \<rparr>,
     if failure = None then file_unlink p fs else fs))"
proof -
  have "dt_aware (ae_timestamp (prune_event p r since failure sz now))" for since failure sz
    by (simp add: prune_event_def)
  then show ?thesis
    using assms by (simp add: evict_file_def Let_def iso_z_def prune_event_ok in_uow_def uow_def audit_record_event)
qed

text \<open>What was tried for one file: path, run, failure, the size entry of its record.\<close>

type_synonym attempt = "path \<times> run \<times> string option \<times> dict"

definition attempt_event :: "int \<Rightarrow> attempt \<Rightarrow> audit_event" where
  "attempt_event now a = (case a of (p, r, failure, sz) \<Rightarrow>
     prune_event p r (iso_text (dt_us (run_updated_at r))) failure sz now)"

definition record_attempts :: "int \<Rightarrow> attempt list \<Rightarrow> world \<Rightarrow> world" where
  "record_attempts now ats w = w\<lparr> w_db := fold (\<lambda>a. add_audit (attempt_event now a)) ats (w_db w) \<rparr>"

definition deleted_of :: "attempt list \<Rightarrow> path list" where
  "deleted_of ats = map fst (filter (\<lambda>(p, r, failure, sz). failure = None) ats)"

definition drop_files :: "path list \<Rightarrow> files \<Rightarrow> files" where
  "drop_files gone fs = fs\<lparr> fs_files := filter (\<lambda>(p, _). p \<notin> set gone) (fs_files fs) \<rparr>"

lemma file_at_drop [simp]: "file_at (drop_files gone fs) q = (if q \<in> set gone then None else file_at fs q)"
  using map_of_filter_key [of "\<lambda>p. p \<notin> set gone" "fs_files fs" q] by (simp add: file_at_def drop_files_def)

lemma drop_files_unlink: "drop_files gone (file_unlink p fs) = drop_files (p # gone) fs"
  by (simp add: drop_files_def file_unlink_def filter_filter) (rule arg_cong [where f = "\<lambda>x. fs\<lparr> fs_files := x \<rparr>"], rule filter_cong, auto)

lemma drop_files_Nil [simp]: "drop_files [] fs = fs"
  by (simp add: drop_files_def)

definition pass :: "int \<Rightarrow> attempt list \<Rightarrow> prune_result \<Rightarrow> prune_result \<Rightarrow> world \<times> files \<Rightarrow> world \<times> files \<Rightarrow> bool" where
  "pass now ats c c' s s' \<longleftrightarrow> fst s' = record_attempts now ats (fst s) \<and>
     fs_files (snd s') = fs_files (drop_files (deleted_of ats) (snd s)) \<and>
     distinct (deleted_of ats) \<and> (\<forall>p \<in> set (deleted_of ats). file_at (snd s) p \<noteq> None) \<and>
     pr_deleted c' = pr_deleted c + length (deleted_of ats) \<and>
     pr_deleted c' + pr_failed c' = pr_deleted c + pr_failed c + length ats"

lemma pass_refl: "pass now [] c c s s"
  by (simp add: pass_def record_attempts_def deleted_of_def)

lemma pass_trans:
  assumes "pass now ats c c' s s'" and "pass now bts c' c'' s' s''"
  shows "pass now (ats @ bts) c c'' s s''"
proof -
  have files: "fs_files (snd s') = fs_files (drop_files (deleted_of ats) (snd s))"
    using assms(1) by (simp add: pass_def)
  then have at: "file_at (snd s') p = file_at (drop_files (deleted_of ats) (snd s)) p" for p
    by (simp add: file_at_def)
  have app: "deleted_of (ats @ bts) = deleted_of ats @ deleted_of bts" by (simp add: deleted_of_def)
  have "\<forall>p \<in> set (deleted_of bts). file_at (snd s') p \<noteq> None" using assms(2) by (simp add: pass_def)
  then have bts: "\<forall>p \<in> set (deleted_of bts). p \<notin> set (deleted_of ats) \<and> file_at (snd s) p \<noteq> None"
    by (auto simp: at split: if_splits)
  have "fs_files (snd s'') = fs_files (drop_files (deleted_of (ats @ bts)) (snd s))"
    using assms(2) files by (auto simp: pass_def drop_files_def app filter_filter intro: filter_cong)
  moreover have "fst s'' = record_attempts now (ats @ bts) (fst s)"
    using assms by (simp add: pass_def record_attempts_def)
  ultimately show ?thesis
    using assms bts unfolding pass_def app by auto
qed

lemma evict_all_pass:
  assumes "dt_aware (run_updated_at r)"
  shows "\<exists>ats c' s'. evict_all io ps r now c s = (Inr c', s') \<and> pass now ats c c' s s' \<and>
    length ats = length ps \<and> pr_runs c' = pr_runs c \<and> (\<forall>(p, q, f, sz) \<in> set ats. p \<in> set ps \<and> q = r)"
proof (induction ps arbitrary: c s)
  case Nil
  show ?case using pass_refl by (intro exI [of _ "[]"]) auto
next
  case (Cons p ps)
  obtain w fs where s: "s = (w, fs)" by (cases s)
  let ?f = "unlink_error io p fs"
  let ?c = "if ?f = None then c\<lparr> pr_deleted := pr_deleted c + 1 \<rparr> else c\<lparr> pr_failed := pr_failed c + 1 \<rparr>"
  let ?a = "(p, r, ?f, size_entry io p fs) :: attempt"
  let ?s = "(record_attempts now [?a] w, if ?f = None then file_unlink p fs else fs)"
  have ev: "evict_file io p r now s = (Inr (?f = None), ?s)"
    unfolding s using evict_file_eq [OF assms, of io p now w fs]
    by (simp add: Let_def record_attempts_def attempt_event_def)
  have first: "pass now [?a] c ?c s ?s"
    using drop_files_unlink [of "[]" p fs]
    by (auto simp: pass_def deleted_of_def s unlink_error_def split: if_splits)
  obtain ats c' s' where rest: "evict_all io ps r now ?c ?s = (Inr c', s')" "pass now ats ?c c' ?s s'"
    "length ats = length ps" "pr_runs c' = pr_runs ?c" "\<forall>(p, q, f, sz) \<in> set ats. p \<in> set ps \<and> q = r"
    using Cons [of ?c ?s] by blast
  have "evict_all io (p # ps) r now c s = (Inr c', s')" using ev rest(1) by simp
  moreover have "pass now (?a # ats) c c' s s'" using pass_trans [OF first rest(2)] by simp
  moreover have "pr_runs c' = pr_runs c" using rest(4) by simp
  ultimately show ?case using rest(3,5) by (intro exI [of _ "?a # ats"] exI [of _ c'] exI [of _ s']) auto
qed

lemma prune_candidates_pass:
  assumes "\<forall>r \<in> set rs. dt_aware (run_updated_at r)" and "0 \<le> budget"
  shows "\<exists>ats c' s'. prune_candidates cfg io now rs c budget s = (Inr c', s') \<and> pass now ats c c' s s' \<and>
    int (length ats) \<le> budget \<and>
    (\<forall>(p, r, f, sz) \<in> set ats. r \<in> set rs \<and> is_under (path_div (rp_root cfg) (run_run_id r)) p)"
  using assms
proof (induction rs arbitrary: c budget s)
  case Nil
  then show ?case using pass_refl by (intro exI [of _ "[]"]) auto
next
  case (Cons r rs)
  let ?dir = "path_div (rp_root cfg) (run_run_id r)"
  let ?ps = "list_files ?dir (snd s)"
  have under: "is_under ?dir p" if "p \<in> set ?ps" for p using that by (simp add: list_files_def)
  have clean: "pass now ats c1 c2 s1 (w, rmdir_empty_subtree io dir fs) \<longleftrightarrow> pass now ats c1 c2 s1 (w, fs)"
    "pass now ats c1 c2 (w, rmdir_empty_subtree io dir fs) s2 \<longleftrightarrow> pass now ats c1 c2 (w, fs) s2"
    for ats c1 c2 s1 w dir fs s2 by (simp_all add: pass_def drop_files_def file_at_def)
  show ?case
  proof (cases "?ps = []")
    case True
    then show ?thesis
      using Cons.IH [of budget c "(fst s, rmdir_empty_subtree io ?dir (snd s))"] Cons.prems
      by (auto simp: Let_def clean) blast
  next
    case False
    show ?thesis
    proof (cases "budget < int (length ?ps)")
      case True
      then show ?thesis
        using False Cons.prems pass_refl by (intro exI [of _ "[]"]) (auto simp: Let_def)
    next
      case fits: False
      obtain ats c1 s1 where run: "evict_all io ?ps r now c s = (Inr c1, s1)" and pass1: "pass now ats c c1 s s1"
        and len: "length ats = length ?ps" and of_r: "\<forall>(p, q, f, sz) \<in> set ats. p \<in> set ?ps \<and> q = r"
        using evict_all_pass [of r io ?ps now c s] Cons.prems(1) by auto
      let ?c1 = "c1\<lparr> pr_runs := pr_runs c1 + 1 \<rparr>" and ?s1 = "(fst s1, rmdir_empty_subtree io ?dir (snd s1))"
      obtain bts c2 s2 where rest: "prune_candidates cfg io now rs ?c1 (budget - int (length ?ps)) ?s1 = (Inr c2, s2)"
        and pass2: "pass now bts ?c1 c2 ?s1 s2" and "int (length bts) \<le> budget - int (length ?ps)"
        and of_rs: "\<forall>(p, r, f, sz) \<in> set bts. r \<in> set rs \<and> is_under (path_div (rp_root cfg) (run_run_id r)) p"
        using Cons.IH [of "budget - int (length ?ps)" ?c1 ?s1] Cons.prems fits by auto
      have "pass now ats c ?c1 s ?s1" using pass1 clean(1) [of _ _ _ _ "fst s1" _ "snd s1"] by (simp add: pass_def)
      from pass_trans [OF this pass2] have "pass now (ats @ bts) c c2 s s2" .
      moreover have "prune_candidates cfg io now (r # rs) c budget s = (Inr c2, s2)"
        using False fits run rest by (cases s1) (simp add: Let_def)
      moreover have "int (length (ats @ bts)) \<le> budget" using \<open>int (length bts) \<le> _\<close> len by simp
      moreover have "\<forall>(p, q, f, sz) \<in> set (ats @ bts). q \<in> set (r # rs) \<and>
          is_under (path_div (rp_root cfg) (run_run_id q)) p"
        using of_r of_rs under by fastforce
      ultimately show ?thesis by blast
    qed
  qed
qed

lemma run_list_expired_Done:
  assumes "run_list_expired (utc cutoff) sts limit d = Done cands d" and "r \<in> set cands"
  shows "\<exists>row \<in> set (db_runs d). row_to_run row = Inr r \<and> run_state r \<in> sts \<and> rr_updated_at row \<le> cutoff"
proof -
  let ?rows = "take (nat limit) (sort_key rr_updated_at
    (filter (\<lambda>r. rr_updated_at r \<le> cutoff \<and> rr_state r \<in> run_state_value ` sts) (db_runs d)))"
  have "cands = [] \<or> map_res row_to_run ?rows = Inr cands"
    using assms(1) by (auto simp: run_list_expired_def tx_read_Done check_Inr split: if_splits)
  then have read: "map_res row_to_run ?rows = Inr cands" using assms(2) by auto
  obtain row where row: "row \<in> set ?rows" "row_to_run row = Inr r"
    using map_res_mem [OF read assms(2)] by blast
  then have "row \<in> set (db_runs d)" "rr_updated_at row \<le> cutoff" "rr_state row \<in> run_state_value ` sts"
    using set_take_subset by fastforce+
  moreover have "run_state r \<in> sts"
    using row_to_run_Inr(3) [OF row(2)] calculation(3) run_state_enum.value_inject by auto
  ultimately show ?thesis using row(2) by blast
qed

section \<open>Properties\<close>


definition sample_pruner :: report_pruner where
  "sample_pruner = \<lparr> rp_root = sample_root, rp_retention = 10, rp_max_prunes = 1 \<rparr>"

definition sample_io :: prune_io where
  "sample_io = \<lparr> pi_stat_fails = (\<lambda>p. False), pi_unlink_fails = (\<lambda>p. None), pi_not_found = (\<lambda>p. []),
     pi_rmdir_fails = (\<lambda>p. False) \<rparr>"

definition sample_files :: files where
  "sample_files = \<lparr> fs_files = [(sample_root @ [sample_rid, ''email.html''], ''<p>''),
     (sample_root @ [sample_rid, ''fragments'', ''build.html''], ''<b>'')], fs_dirs = [] \<rparr>"

definition sample_sent_world :: world where
  "sample_sent_world = sample_world\<lparr> w_db := sample_state_db SENT \<rparr>"

lemma sample_sent_row: "row_to_run (set_run_state SENT 5 sample_run_row) = Inr (sample_state_run SENT)"
  using sample_state_get [of SENT] by (auto simp: run_get_Done sample_state_db_def split: if_splits)

lemma sample_sent_wf: "runs_wf (w_db sample_sent_world)"
  using sample_sent_row by (simp add: runs_wf_def runs.unique_keys_def sample_sent_world_def sample_state_db_def)


text \<open>
  When the first candidate has more files than one pass may delete, the pass ends there and
  changes nothing, so the following passes are stopped by the same run again: no report is ever
  pruned.
\<close>

theorem report_prune_starves:
  assumes "run_list_expired (utc (now - rp_retention cfg)) run_terminal candidate_query_limit (w_db w) = Done (r # rs) (w_db w)"
    and "rp_max_prunes cfg < int (length (list_files (path_div (rp_root cfg) (run_run_id r)) fs))"
    and "1 \<le> rp_max_prunes cfg"
  shows "prune_run_once cfg io now (w, fs) = (Inr \<lparr> pr_runs = 0, pr_deleted = 0, pr_failed = 0 \<rparr>, w, fs)"
proof -
  have "list_files (path_div (rp_root cfg) (run_run_id r)) fs \<noteq> []" using assms(2,3) by auto
  then show ?thesis
    using in_uow_Done [where body = "run_list_expired (utc (now - rp_retention cfg)) run_terminal candidate_query_limit",
        OF assms(1)] assms(2)
    by (simp add: prune_run_once_def Let_def)
qed

theorem report_prune_starves_witness:
  "prune_run_once sample_pruner sample_io 100 (sample_sent_world, sample_files) =
     (Inr \<lparr> pr_runs = 0, pr_deleted = 0, pr_failed = 0 \<rparr>, sample_sent_world, sample_files)"
proof -
  have "run_state_value SENT \<in> run_state_value ` run_terminal" by (rule imageI) (simp add: run_terminal_def)
  then have "run_list_expired (utc (100 - rp_retention sample_pruner)) run_terminal candidate_query_limit
      (w_db sample_sent_world) = Done [sample_state_run SENT] (w_db sample_sent_world)"
    using sample_sent_row
    by (simp add: run_list_expired_def tx_read_def check_def candidate_query_limit_def sample_sent_world_def
        sample_state_db_def sample_pruner_def run_terminal_def set_run_state_def)
  moreover have "path_div sample_root sample_rid = sample_root @ [sample_rid]"
    by (rule path_div_name) (simp add: name_ok_def sample_rid_def)
  then have "rp_max_prunes sample_pruner < int (length (list_files
      (path_div (rp_root sample_pruner) (run_run_id (sample_state_run SENT))) sample_files))"
    by (simp add: sample_pruner_def list_files_def sample_files_def sample_root_def is_under_def
        sample_state_run_def sample_run_def new_run_def)
  ultimately show ?thesis by (rule report_prune_starves) (simp add: sample_pruner_def)
qed

end
