(* ===== verification/Audit_Pruner.thy ===== *)
theory Audit_Pruner
  imports Repo_Audit World
begin

text \<open>
  \<open>AuditLogPrunerUseCase\<close> and \<open>FilesystemAuditArchiveWriter\<close>: the oldest expired
  records are appended to a file of JSON lines and then deleted, in two units of work.  What
  other units of work do between the two is the argument \<open>between\<close>; an append may fail after
  some lines.

  The property: a deleted record has been archived, and a failed append deletes nothing.
\<close>

section \<open>The archive\<close>

type_synonym archive = "(string \<times> json) list"

definition event_to_record :: "audit_event \<Rightarrow> exn + json" where
  "event_to_record e = and_then (iso_z (ae_timestamp e)) (\<lambda>t. Inr (dumps_json (JObj
     [(''audit_id'', case ae_audit_id e of None \<Rightarrow> JNull | Some i \<Rightarrow> JInt i),
      (''timestamp'', JStr t), (''action'', JStr (audit_action_value (ae_action e))),
      (''actor'', JStr (ae_actor e)), (''resource'', JStr (ae_resource e)),
      (''outcome'', JStr (audit_outcome_value (ae_outcome e))), (''details'', JObj (ae_details e))])))"

definition archive_name :: "int \<Rightarrow> string" where
  "archive_name as_of = ''audit-archive-'' @ date_text (nat as_of div us_per_day) @ ''.jsonl''"

text \<open>The result is the OSError, if any; \<open>Some k\<close> fails after \<open>k\<close> lines.\<close>

definition archive_write :: "nat option \<Rightarrow> audit_event list \<Rightarrow> int \<Rightarrow> archive \<Rightarrow> (exn + bool) \<times> archive" where
  "archive_write fault events as_of a =
     (if events = [] then (Inr True, a)
      else case map_res event_to_record events of
        Inl e \<Rightarrow> (Inl e, a)
      | Inr recs \<Rightarrow> (let lines = map (Pair (archive_name as_of)) recs in
          case fault of None \<Rightarrow> (Inr True, a @ lines) | Some k \<Rightarrow> (Inr False, a @ take k lines)))"

section \<open>One pass\<close>

record audit_pruner =
  ap_retention :: int
  ap_batch_size :: int
  ap_archives :: bool

definition audit_pruner_init :: "int \<Rightarrow> int \<Rightarrow> bool \<Rightarrow> exn + audit_pruner" where
  "audit_pruner_init days batch archives =
     check (days < 1) value_error (check (batch < 1) value_error
       (Inr \<lparr> ap_retention = days * int us_per_day, ap_batch_size = batch, ap_archives = archives \<rparr>))"

definition archive_expired ::
  "audit_pruner \<Rightarrow> nat option \<Rightarrow> int \<Rightarrow> world \<times> archive \<Rightarrow> (exn + bool) \<times> world \<times> archive" where
  "archive_expired cfg fault now s =
     (if \<not> ap_archives cfg then (Inr True, s)
      else case in_uow (audit_fetch_older_than (utc (now - ap_retention cfg)) (ap_batch_size cfg)) (fst s) of
        (Inl e, w) \<Rightarrow> (Inl e, w, snd s)
      | (Inr expired, w) \<Rightarrow> (case archive_write fault expired now (snd s) of
          (Inl e, a) \<Rightarrow> (Inl e, w, a) | (Inr ok, a) \<Rightarrow> (Inr ok, w, a)))"

definition audit_prune_once ::
  "audit_pruner \<Rightarrow> nat option \<Rightarrow> (world \<Rightarrow> world) \<Rightarrow> int \<Rightarrow> world \<times> archive \<Rightarrow> (exn + int) \<times> world \<times> archive" where
  "audit_prune_once cfg fault between now s = (case archive_expired cfg fault now s of
     (Inl e, s1) \<Rightarrow> (Inl e, s1)
   | (Inr False, s1) \<Rightarrow> (Inr 0, s1)
   | (Inr True, w1, a1) \<Rightarrow>
       (case in_uow (audit_delete_older_than (utc (now - ap_retention cfg)) (ap_batch_size cfg)) (between w1) of
          (Inl e, w2) \<Rightarrow> (Inl e, w2, a1) | (Inr n, w2) \<Rightarrow> (Inr n, w2, a1)))"

section \<open>What one pass does\<close>

abbreviation doomed :: "audit_pruner \<Rightarrow> int \<Rightarrow> db \<Rightarrow> audit_row list" where
  "doomed cfg now d \<equiv> older_than (now - ap_retention cfg) (ap_batch_size cfg) (db_audit d)"

definition without :: "audit_row list \<Rightarrow> db \<Rightarrow> db" where
  "without rows d = d\<lparr> db_audit := filter (\<lambda>r. ar_audit_id r \<notin> ar_audit_id ` set rows) (db_audit d) \<rparr>"

lemma delete_doomed:
  "1 \<le> ap_batch_size cfg \<Longrightarrow>
   in_uow (audit_delete_older_than (utc (now - ap_retention cfg)) (ap_batch_size cfg)) w =
     (Inr (int (length (doomed cfg now (w_db w)))), w\<lparr> w_db := without (doomed cfg now (w_db w)) (w_db w) \<rparr>)"
  by (simp add: in_uow_def uow_def audit_delete_older_than_def tx_bind_def tx_read_def tx_then_def tx_write_def
      tx_return_def check_def without_def)

lemma fetch_doomed:
  assumes "1 \<le> ap_batch_size cfg"
  shows "in_uow (audit_fetch_older_than (utc (now - ap_retention cfg)) (ap_batch_size cfg)) w =
     (map_res row_to_event (doomed cfg now (w_db w)), w)"
  using assms by (cases "map_res row_to_event (doomed cfg now (w_db w))")
    (simp_all add: in_uow_def uow_def audit_fetch_older_than_def tx_read_def check_def)

lemma event_to_record_stored:
  "row_to_event row = Inr e \<Longrightarrow> \<exists>j. event_to_record e = Inr j"
  by (auto simp: row_to_event_def and_then_Inr audit_event_post_init_Inr event_to_record_def iso_z_def
      audit_event_ok_def)

text \<open>A stored record is readable when its row converts to an event.\<close>

definition audit_readable :: "db \<Rightarrow> bool" where
  "audit_readable d \<longleftrightarrow> (\<forall>r \<in> set (db_audit d). \<exists>e. row_to_event r = Inr e)"

definition archived :: "int \<Rightarrow> archive \<Rightarrow> audit_row \<Rightarrow> bool" where
  "archived now a r \<longleftrightarrow> (\<exists>e j. row_to_event r = Inr e \<and> event_to_record e = Inr j \<and> (archive_name now, j) \<in> set a)"

lemma archive_expired_eq:
  assumes "1 \<le> ap_batch_size cfg" and "ap_archives cfg" and "audit_readable (w_db w)"
  shows "\<exists>lines. archive_expired cfg fault now (w, a) =
      (Inr (fault = None \<or> doomed cfg now (w_db w) = []), w, a @ (case fault of None \<Rightarrow> lines | Some k \<Rightarrow> take k lines)) \<and>
    (\<forall>r \<in> set (doomed cfg now (w_db w)). archived now lines r)"
proof -
  let ?rows = "doomed cfg now (w_db w)"
  have readable: "\<exists>e. row_to_event r = Inr e" if "r \<in> set ?rows" for r
    using that assms(3) older_than_mem unfolding audit_readable_def by blast
  obtain events where events: "map_res row_to_event ?rows = Inr events"
  proof (cases "map_res row_to_event ?rows")
    case (Inl e)
    from map_res_Inl [OF this] show ?thesis using readable by fastforce
  qed (use that in blast)
  have conv: "\<exists>j. event_to_record e = Inr j" if "e \<in> set events" for e
    using map_res_mem [OF events that] event_to_record_stored by blast
  obtain recs where recs: "map_res event_to_record events = Inr recs"
  proof (cases "map_res event_to_record events")
    case (Inl e)
    from map_res_Inl [OF this] show ?thesis using conv by fastforce
  qed (use that in blast)
  let ?lines = "map (Pair (archive_name now)) recs"
  have empty: "events = [] \<longleftrightarrow> ?rows = []" using map_res_Inr [OF events] by auto
  have "archived now ?lines r" if r: "r \<in> set ?rows" for r
  proof -
    obtain e where e: "e \<in> set events" "row_to_event r = Inr e" using map_res_result [OF events r] by blast
    then obtain j where "j \<in> set recs" "event_to_record e = Inr j" using map_res_result [OF recs] by blast
    then show ?thesis unfolding archived_def using e(2) by auto
  qed
  moreover have "archive_expired cfg fault now (w, a) =
      (Inr (fault = None \<or> ?rows = []), w, a @ (case fault of None \<Rightarrow> ?lines | Some k \<Rightarrow> take k ?lines))"
  proof (cases "events = []")
    case True
    then have "recs = []" using recs by simp
    then show ?thesis
      using assms(1,2) events True empty
      by (simp add: archive_expired_def fetch_doomed archive_write_def split: option.split)
  next
    case False
    then show ?thesis
      using assms(1,2) events recs empty
      by (cases fault) (simp_all add: archive_expired_def fetch_doomed archive_write_def Let_def)
  qed
  ultimately show ?thesis by blast
qed

section \<open>Properties\<close>

text \<open>
  C28: when the archive is on, every record a pass deletes has been appended to the archive file
  of the day first, at most a batch of them, all expired; if the append fails, nothing is deleted,
  and earlier archive lines stay in any case.  Other units of work may run between reading and
  deleting, as long as they leave the expired records as they are.
\<close>

theorem audit_prune_archives:
  assumes "1 \<le> ap_batch_size cfg" and "ap_archives cfg" and "audit_readable (w_db w)"
    and "doomed cfg now (w_db (between w)) = doomed cfg now (w_db w)"
    and "distinct (map ar_audit_id (db_audit (w_db (between w))))"
  shows "\<exists>n w' lines. audit_prune_once cfg fault between now (w, a) = (Inr n, w', a @ lines) \<and>
    (if fault = None \<or> n \<noteq> 0
     then (\<exists>gone. w' = (between w)\<lparr> w_db := (w_db (between w))\<lparr> db_audit :=
            filter (\<lambda>r. r \<notin> gone) (db_audit (w_db (between w))) \<rparr> \<rparr> \<and>
          gone \<subseteq> set (db_audit (w_db (between w))) \<and> int (card gone) = n \<and> n \<le> ap_batch_size cfg \<and>
          (\<forall>r \<in> gone. ar_timestamp r < now - ap_retention cfg \<and> archived now (a @ lines) r))
     else w' = w \<or> w' = between w)"
proof -
  obtain ls where arch: "archive_expired cfg fault now (w, a) =
      (Inr (fault = None \<or> doomed cfg now (w_db w) = []), w, a @ (case fault of None \<Rightarrow> ls | Some k \<Rightarrow> take k ls))"
    and ls: "\<forall>r \<in> set (doomed cfg now (w_db w)). archived now ls r"
    using archive_expired_eq [OF assms(1-3)] by blast
  let ?d = "w_db (between w)" and ?gone = "set (doomed cfg now (w_db w))"
  let ?lines = "case fault of None \<Rightarrow> ls | Some k \<Rightarrow> take k ls"
  have sub: "?gone \<subseteq> set (db_audit ?d)" using older_than_mem assms(4) by (metis subsetI)
  have keep: "without (doomed cfg now ?d) ?d = ?d\<lparr> db_audit := filter (\<lambda>r. r \<notin> ?gone) (db_audit ?d) \<rparr>"
  proof -
    have "filter (\<lambda>r. ar_audit_id r \<notin> ar_audit_id ` ?gone) (db_audit ?d) = filter (\<lambda>r. r \<notin> ?gone) (db_audit ?d)"
      using filter_not_in_ids [OF assms(5) sub] by (intro filter_cong) auto
    then show ?thesis by (simp add: without_def assms(4))
  qed
  show ?thesis
  proof (cases "fault = None \<or> doomed cfg now (w_db w) = []")
    case True
    have run: "audit_prune_once cfg fault between now (w, a) =
        (Inr (int (length (doomed cfg now ?d))), (between w)\<lparr> w_db := without (doomed cfg now ?d) ?d \<rparr>, a @ ?lines)"
      using arch True delete_doomed [OF assms(1), of now "between w"] by (simp add: audit_prune_once_def)
    have "distinct (map ar_audit_id (doomed cfg now ?d))" using distinct_older_than [OF assms(5)] .
    then have "card ?gone = length (doomed cfg now ?d)" unfolding assms(4) [symmetric]
      by (simp add: distinct_card distinct_map)
    moreover have "int (length (doomed cfg now ?d)) \<le> ap_batch_size cfg"
      using length_older_than [of "now - ap_retention cfg" "ap_batch_size cfg" "db_audit ?d"] assms(1) by linarith
    moreover have "ar_timestamp r < now - ap_retention cfg \<and> archived now (a @ ?lines) r" if "r \<in> ?gone" for r
      using that older_than_mem ls True by (fastforce simp: archived_def)
    ultimately show ?thesis
      using run keep sub
      by (intro exI [of _ "int (length (doomed cfg now ?d))"] exI [of _ "(between w)\<lparr> w_db := without (doomed cfg now ?d) ?d \<rparr>"]
          exI [of _ ?lines]) auto
  next
    case False
    then obtain k where "fault = Some k" by (cases fault) auto
    with False have "audit_prune_once cfg fault between now (w, a) = (Inr 0, w, a @ ?lines)"
      using arch by (simp add: audit_prune_once_def)
    then show ?thesis using \<open>fault = Some k\<close> by (intro exI [of _ 0] exI [of _ w] exI [of _ ?lines]) simp
  qed
qed

definition sample_audit_pruner :: audit_pruner where
  "sample_audit_pruner = \<lparr> ap_retention = 10, ap_batch_size = 1, ap_archives = True \<rparr>"

definition sample_audit_row :: "int \<Rightarrow> int \<Rightarrow> audit_row" where
  "sample_audit_row i t = \<lparr> ar_audit_id = i, ar_timestamp = t, ar_action = ''LOGOUT'', ar_actor = ''user:1'',
     ar_resource = ''user:1'', ar_outcome = ''SUCCESS'', ar_details = JObj [] \<rparr>"

definition sample_audit_world :: "audit_row list \<Rightarrow> world" where
  "sample_audit_world rows = \<lparr> w_db = empty_db\<lparr> db_audit := rows \<rparr>, w_metrics = [], w_tasks = [],
     w_sent = [], w_reports = [] \<rparr>"

lemma sample_audit_row_event: "\<exists>e. row_to_event (sample_audit_row i t) = Inr e"
proof -
  have "enum_of_value audit_action_value audit_actions ''LOGOUT'' = Inr LOGOUT"
    by (simp add: audit_action_enum.of_value_Inr)
  moreover have "enum_of_value audit_outcome_value audit_outcomes ''SUCCESS'' = Inr SUCCESS"
    by (simp add: audit_outcome_enum.of_value_Inr)
  ultimately show ?thesis
    by (simp add: row_to_event_def sample_audit_row_def enum_or_def audit_event_post_init_def check_def)
qed

theorem audit_prune_archives_witness:
  "\<exists>n w' lines. audit_prune_once sample_audit_pruner None
       (\<lambda>w. w\<lparr> w_db := (w_db w)\<lparr> db_audit := db_audit (w_db w) @ [sample_audit_row 3 95] \<rparr> \<rparr>) 100
       (sample_audit_world [sample_audit_row 1 5, sample_audit_row 2 6], []) = (Inr n, w', lines)"
proof -
  let ?b = "\<lambda>w. w\<lparr> w_db := (w_db w)\<lparr> db_audit := db_audit (w_db w) @ [sample_audit_row 3 95] \<rparr> \<rparr>"
  let ?w = "sample_audit_world [sample_audit_row 1 5, sample_audit_row 2 6]"
  have rows: "doomed sample_audit_pruner 100 (w_db (?b ?w)) = doomed sample_audit_pruner 100 (w_db ?w)"
    by (simp add: older_than_def sample_audit_pruner_def sample_audit_world_def sample_audit_row_def)
  have "audit_readable (w_db ?w)"
    by (simp add: audit_readable_def sample_audit_world_def sample_audit_row_event)
  moreover have "distinct (map ar_audit_id (db_audit (w_db (?b ?w))))"
    by (simp add: sample_audit_world_def sample_audit_row_def)
  ultimately show ?thesis
    using audit_prune_archives [of sample_audit_pruner ?w 100 ?b None "[]"] rows
    by (simp add: sample_audit_pruner_def) blast
qed

end
