(* ===== verification/Migrations.thy ===== *)
theory Migrations
  imports Domain
begin

text \<open>
  The migration runner (\<open>migration_runner.py\<close>): which files are migrations, in which order
  they run, and how an interrupted start-up is resumed.  What a script does to the schema is the
  parameter \<open>sql\<close>; it returns nothing when the script fails, and a fault makes a script fail
  for another reason.  Each script runs with its own row of \<open>_migrations\<close> in one
  transaction.

  The property: whatever fails and however often the service is started, the schema is always
  that of the first \<open>k\<close> migrations, each applied once and in order.
\<close>

section \<open>Discovery\<close>

record migration_file =
  mf_version :: nat
  mf_name :: string
  mf_source :: string

definition word_char :: "char \<Rightarrow> bool" where
  "word_char c \<longleftrightarrow> is_lower c \<or> is_upper c \<or> is_digit c \<or> c = CHR ''_''"

definition migration_name_rx :: rx where
  "migration_name_rx = Seq (Rep 3 (Cls is_digit)) (Seq (Lit ''_'') (Seq (Some1 word_char) (Lit ''.sql'')))"

definition ends_with :: "string \<Rightarrow> string \<Rightarrow> bool" where
  "ends_with s suffix \<longleftrightarrow> length suffix \<le> length s \<and> drop (length s - length suffix) s = suffix"

definition removesuffix :: "string \<Rightarrow> string \<Rightarrow> string" where
  "removesuffix s suffix = (if suffix \<noteq> [] \<and> ends_with s suffix then take (length s - length suffix) s else s)"

definition int_of_digits :: "string \<Rightarrow> nat" where
  "int_of_digits s = foldl (\<lambda>n c. 10 * n + (of_char c - 48)) 0 s"

text \<open>The files of a directory, or of the package: the hidden file \<open>.sql\<close> has no suffix for pathlib.\<close>

definition override_files :: "(string \<times> string) list \<Rightarrow> (string \<times> string) list" where
  "override_files entries = filter (\<lambda>(n, _). ends_with n ''.sql'' \<and> n \<noteq> ''.sql'') (sort_key fst entries)"

definition packaged_files :: "(string \<times> string) list \<Rightarrow> (string \<times> string) list" where
  "packaged_files entries = filter (\<lambda>(n, _). ends_with n ''.sql'') entries"

definition parse_migration :: "string \<times> string \<Rightarrow> exn + migration_file" where
  "parse_migration f = check (\<not> re_match migration_name_rx (fst f))
     (err PersistenceError [(''filename'', JStr (fst f)),
        (''pattern'', JStr (''^('' @ [CHR 0x5C] @ ''d{3})_([A-Za-z0-9_]+)'' @ [CHR 0x5C] @ ''.sql$''))])
     (Inr \<lparr> mf_version = int_of_digits (take 3 (fst f)), mf_name = removesuffix (fst f) ''.sql'',
            mf_source = snd f \<rparr>)"

fun check_sequence :: "migration_file list \<Rightarrow> nat \<Rightarrow> migration_file list \<Rightarrow> exn + unit" where
  "check_sequence all expected [] = Inr ()"
| "check_sequence all expected (m # ms) = check (mf_version m \<noteq> expected)
     (err PersistenceError [(''expected_version'', JInt (int expected)), (''found_version'', JInt (int (mf_version m))),
        (''name'', JStr (mf_name m)), (''discovered_versions'', JArr (map (JInt \<circ> int \<circ> mf_version) all))])
     (check_sequence all (Suc expected) ms)"

definition discover :: "(string \<times> string) list \<Rightarrow> exn + migration_file list" where
  "discover files_list = and_then (map_res parse_migration files_list) (\<lambda>parsed.
     let ms = sort_key mf_version parsed in
     and_then (check_sequence ms 1 ms) (\<lambda>_. Inr ms))"

section \<open>Application\<close>

record 's schema_db =
  sd_schema :: 's
  sd_migrations :: "(nat \<times> string \<times> string) list option"

definition ensure_migrations_table :: "'s schema_db \<Rightarrow> 's schema_db" where
  "ensure_migrations_table d = (case sd_migrations d of
     None \<Rightarrow> d\<lparr> sd_migrations := Some [] \<rparr> | Some _ \<Rightarrow> d)"

definition migration_rows :: "'s schema_db \<Rightarrow> (nat \<times> string \<times> string) list" where
  "migration_rows d = (case sd_migrations d of None \<Rightarrow> [] | Some rows \<Rightarrow> rows)"

definition fetch_applied_versions :: "'s schema_db \<Rightarrow> nat set" where
  "fetch_applied_versions d = fst ` set (migration_rows d)"

definition apply_one ::
  "(string \<Rightarrow> 's \<Rightarrow> 's option) \<Rightarrow> (nat \<Rightarrow> bool) \<Rightarrow> (nat \<Rightarrow> int) \<Rightarrow> migration_file \<Rightarrow> 's schema_db \<Rightarrow>
   (exn + unit) \<times> 's schema_db" where
  "apply_one sql fault clock m d =
     (let failed = err PersistenceError [(''version'', JInt (int (mf_version m))), (''name'', JStr (mf_name m)),
            (''reason'', JStr [])];
          row = (mf_version m, mf_name m, iso_text (clock (mf_version m)))
      in if fault (mf_version m) \<or> mf_version m \<in> fetch_applied_versions d then (Inl failed, d)
         else case sql (mf_source m) (sd_schema d) of
           None \<Rightarrow> (Inl failed, d)
         | Some s \<Rightarrow> (Inr (), d\<lparr> sd_schema := s, sd_migrations := Some (migration_rows d @ [row]) \<rparr>))"

fun apply_all ::
  "(string \<Rightarrow> 's \<Rightarrow> 's option) \<Rightarrow> (nat \<Rightarrow> bool) \<Rightarrow> (nat \<Rightarrow> int) \<Rightarrow> nat set \<Rightarrow> migration_file list \<Rightarrow> 's schema_db \<Rightarrow>
   (exn + migration_file list) \<times> 's schema_db" where
  "apply_all sql fault clock applied [] d = (Inr [], d)"
| "apply_all sql fault clock applied (m # ms) d =
     (if mf_version m \<in> applied then apply_all sql fault clock applied ms d
      else case apply_one sql fault clock m d of
        (Inl e, d') \<Rightarrow> (Inl e, d')
      | (Inr _, d') \<Rightarrow> (case apply_all sql fault clock applied ms d' of
          (Inl e, d'') \<Rightarrow> (Inl e, d'') | (Inr new, d'') \<Rightarrow> (Inr (m # new), d'')))"

definition apply_migrations ::
  "(string \<Rightarrow> 's \<Rightarrow> 's option) \<Rightarrow> (nat \<Rightarrow> bool) \<Rightarrow> (nat \<Rightarrow> int) \<Rightarrow> (string \<times> string) list \<Rightarrow> 's schema_db \<Rightarrow>
   (exn + migration_file list) \<times> 's schema_db" where
  "apply_migrations sql fault clock files_list d = (case discover files_list of
     Inl e \<Rightarrow> (Inl e, d)
   | Inr ms \<Rightarrow> (let d' = ensure_migrations_table d in
       apply_all sql fault clock (fetch_applied_versions d') ms d'))"

section \<open>Versions\<close>

lemma check_sequence_Inr:
  "check_sequence all n ms = Inr () \<longleftrightarrow> map mf_version ms = [n..<n + length ms]"
  by (induction ms arbitrary: n) (auto simp: check_Inr upt_rec [of _ "Suc _"] simp del: upt_Suc)

lemma discover_Inr:
  assumes "discover files_list = Inr ms"
  shows "map mf_version ms = [1..<Suc (length ms)]"
  using assms by (auto simp: discover_def and_then_Inr Let_def check_sequence_Inr)

text \<open>The effect of the scripts of a list of migrations, in order.\<close>

fun run_scripts :: "(string \<Rightarrow> 's \<Rightarrow> 's option) \<Rightarrow> migration_file list \<Rightarrow> 's \<Rightarrow> 's option" where
  "run_scripts sql [] s = Some s"
| "run_scripts sql (m # ms) s = (case sql (mf_source m) s of None \<Rightarrow> None | Some s' \<Rightarrow> run_scripts sql ms s')"

lemma run_scripts_append:
  "run_scripts sql (xs @ ys) s = (case run_scripts sql xs s of None \<Rightarrow> None | Some s' \<Rightarrow> run_scripts sql ys s')"
  by (induction xs arbitrary: s) (auto split: option.split)

text \<open>The first \<open>k\<close> migrations have been applied, each once and in order, to \<open>s0\<close>.\<close>

definition at_version :: "(string \<Rightarrow> 's \<Rightarrow> 's option) \<Rightarrow> migration_file list \<Rightarrow> 's \<Rightarrow> nat \<Rightarrow> 's schema_db \<Rightarrow> bool" where
  "at_version sql ms s0 k d \<longleftrightarrow> k \<le> length ms \<and> map fst (migration_rows d) = map mf_version (take k ms) \<and>
     run_scripts sql (take k ms) s0 = Some (sd_schema d)"

lemma versions_taken:
  assumes "map mf_version ms = [1..<Suc (length ms)]" and "k \<le> length ms"
  shows "set (map mf_version (take k ms)) = {1..<Suc k}"
proof -
  have "map mf_version (take k ms) = take k [1..<Suc (length ms)]"
    by (metis assms(1) take_map)
  also have "\<dots> = [1..<Suc k]" using assms(2) by (simp add: take_upt del: upt_Suc)
  finally show ?thesis by (simp del: upt_Suc)
qed

lemma apply_one_next:
  assumes v: "map mf_version ms = [1..<Suc (length ms)]" and at: "at_version sql ms s0 k d" and k: "k < length ms"
    and run: "apply_one sql fault clock (ms ! k) d = (r, d')"
  shows "if r = Inr () then at_version sql ms s0 (Suc k) d' else d' = d \<and> (fault (Suc k) \<or> sql (mf_source (ms ! k)) (sd_schema d) = None)"
proof -
  have ver: "mf_version (ms ! i) = Suc i" if "i < length ms" for i
    using arg_cong [OF v, of "\<lambda>l. l ! i"] that by (simp del: upt_Suc)
  have versions: "fetch_applied_versions d = {1..<Suc k}"
    using at versions_taken [OF v] k by (simp add: at_version_def fetch_applied_versions_def flip: set_map)
  have take: "take (Suc k) ms = take k ms @ [ms ! k]" using k by (rule take_Suc_conv_app_nth)
  have "mf_version (ms ! k) \<notin> fetch_applied_versions d" using ver [OF k] versions by simp
  then show ?thesis
    using run at k ver [OF k] unfolding take apply_one_def Let_def
    by (auto simp: at_version_def take run_scripts_append migration_rows_def split: if_splits option.splits)
qed

lemma apply_all_skip:
  "\<forall>m \<in> set xs. mf_version m \<in> A \<Longrightarrow> apply_all sql fault clock A (xs @ ys) d = apply_all sql fault clock A ys d"
  by (induction xs) auto

lemma apply_all_rest:
  assumes v: "map mf_version ms = [1..<Suc (length ms)]" and A: "\<forall>n \<in> A. n \<le> k"
    and at: "at_version sql ms s0 i d" and "k \<le> i"
    and run: "apply_all sql fault clock A (drop i ms) d = (r, d')"
  shows "\<exists>j. i \<le> j \<and> at_version sql ms s0 j d' \<and> (case r of
      Inr new \<Rightarrow> j = length ms \<and> new = drop i ms
    | Inl e \<Rightarrow> j < length ms \<and> (fault (Suc j) \<or> sql (mf_source (ms ! j)) (sd_schema d') = None))"
  using at \<open>k \<le> i\<close> run
proof (induction "length ms - i" arbitrary: i d r)
  case 0
  then have "i = length ms" by (simp add: at_version_def)
  with 0 show ?case by auto
next
  case (Suc n)
  then have i: "i < length ms" by simp
  then have drop: "drop i ms = ms ! i # drop (Suc i) ms" by (simp add: Cons_nth_drop_Suc)
  have "mf_version (ms ! i) = Suc i"
    using arg_cong [OF v, of "\<lambda>l. l ! i"] i by (simp del: upt_Suc)
  then have new: "mf_version (ms ! i) \<notin> A" using A Suc.prems(2) by auto
  obtain r1 d1 where one: "apply_one sql fault clock (ms ! i) d = (r1, d1)" by (cases "apply_one sql fault clock (ms ! i) d")
  note step = apply_one_next [OF v Suc.prems(1) i one]
  show ?case
  proof (cases r1)
    case (Inl e)
    then show ?thesis
      using step Suc.prems one new i by (intro exI [of _ i]) (auto simp: drop)
  next
    case (Inr u)
    then have at1: "at_version sql ms s0 (Suc i) d1" using step by simp
    obtain r2 d2 where rest: "apply_all sql fault clock A (drop (Suc i) ms) d1 = (r2, d2)"
      by (cases "apply_all sql fault clock A (drop (Suc i) ms) d1")
    have d2: "d2 = d'" and r: "r = (case r2 of Inl e \<Rightarrow> Inl e | Inr new \<Rightarrow> Inr (ms ! i # new))"
      using Suc.prems(3) one Inr rest new by (auto simp: drop split: sum.splits)
    have "n = length ms - Suc i" "k \<le> Suc i" using Suc.hyps(2) Suc.prems(2) by simp_all
    from Suc.hyps(1) [OF this(1) at1 this(2) rest [unfolded d2]] obtain j where
      "Suc i \<le> j" "at_version sql ms s0 j d'" "case r2 of
        Inr new \<Rightarrow> j = length ms \<and> new = drop (Suc i) ms
      | Inl e \<Rightarrow> j < length ms \<and> (fault (Suc j) \<or> sql (mf_source (ms ! j)) (sd_schema d') = None)" by blast
    then show ?thesis unfolding r by (intro exI [of _ j]) (auto simp: drop split: sum.splits)
  qed
qed

section \<open>Properties\<close>

text \<open>
  C40: if the first \<open>k\<close> migrations have been applied, a start-up applies exactly the missing
  ones in order of their versions: it returns them and the schema is that of all migrations, or
  one of them failed and the schema is that of the migrations before it, so the next start-up
  goes on from there.  No migration runs twice, and a start-up on a current schema changes nothing.
\<close>

theorem migrations_resume:
  assumes "discover files_list = Inr ms" and "at_version sql ms s0 k d"
    and "apply_migrations sql fault clock files_list d = (r, d')"
  shows "\<exists>j. k \<le> j \<and> at_version sql ms s0 j d' \<and> (case r of
      Inr new \<Rightarrow> j = length ms \<and> new = drop k ms \<and> (k = length ms \<longrightarrow> sd_schema d' = sd_schema d)
    | Inl e \<Rightarrow> j < length ms \<and> (fault (Suc j) \<or> sql (mf_source (ms ! j)) (sd_schema d') = None))"
proof -
  let ?d = "ensure_migrations_table d"
  have v: "map mf_version ms = [1..<Suc (length ms)]" by (rule discover_Inr [OF assms(1)])
  have k: "k \<le> length ms" using assms(2) by (simp add: at_version_def)
  have same: "migration_rows ?d = migration_rows d" "sd_schema ?d = sd_schema d"
    by (simp_all add: ensure_migrations_table_def migration_rows_def split: option.split)
  then have at: "at_version sql ms s0 k ?d" using assms(2) by (simp add: at_version_def)
  have versions: "fetch_applied_versions ?d = mf_version ` set (take k ms)"
    using at by (simp add: at_version_def fetch_applied_versions_def flip: set_map)
  then have A: "\<forall>n \<in> fetch_applied_versions ?d. n \<le> k"
    using versions_taken [OF v k] by (simp flip: set_map)
  have "apply_all sql fault clock (fetch_applied_versions ?d) (take k ms @ drop k ms) ?d = (r, d')"
    using assms(1,3) by (simp add: apply_migrations_def Let_def)
  then have run: "apply_all sql fault clock (fetch_applied_versions ?d) (drop k ms) ?d = (r, d')"
    by (subst (asm) apply_all_skip) (auto simp: versions)
  obtain j where j: "k \<le> j" "at_version sql ms s0 j d'" "case r of
      Inr new \<Rightarrow> j = length ms \<and> new = drop k ms
    | Inl e \<Rightarrow> j < length ms \<and> (fault (Suc j) \<or> sql (mf_source (ms ! j)) (sd_schema d') = None)"
    using apply_all_rest [OF v A at order_refl run] by blast
  have "sd_schema d' = sd_schema d" if "k = length ms" using run that same by auto
  then show ?thesis using j by (intro exI [of _ j]) (auto split: sum.splits)
qed

definition sample_migrations :: "(string \<times> string) list" where
  "sample_migrations = [(''002_b.sql'', ''y''), (''001_a.sql'', ''x'')]"

definition sample_applied :: "string schema_db" where
  "sample_applied = \<lparr> sd_schema = ''x'', sd_migrations = Some [(1, ''001_a'', ''t'')] \<rparr>"

lemma sample_discover: "discover sample_migrations = Inr
    [\<lparr> mf_version = 1, mf_name = ''001_a'', mf_source = ''x'' \<rparr>, \<lparr> mf_version = 2, mf_name = ''002_b'', mf_source = ''y'' \<rparr>]"
  by (simp add: discover_def sample_migrations_def parse_migration_def check_def re_match_def migration_name_rx_def
      word_char_def is_digit_def is_lower_def is_upper_def int_of_digits_def removesuffix_def ends_with_def
      numeral_eq_Suc Let_def)

theorem migrations_resume_witness:
  "\<exists>d. apply_migrations (\<lambda>src s. Some (s @ src)) (\<lambda>v. False) (\<lambda>v. 0) sample_migrations sample_applied =
    (Inr [\<lparr> mf_version = 2, mf_name = ''002_b'', mf_source = ''y'' \<rparr>], d) \<and> sd_schema d = ''xy''"
proof -
  let ?ms = "[\<lparr> mf_version = 1, mf_name = ''001_a'', mf_source = ''x'' \<rparr>, \<lparr> mf_version = 2, mf_name = ''002_b'', mf_source = ''y'' \<rparr>]"
  let ?sql = "\<lambda>src s. Some (s @ src) :: string option"
  have at: "at_version ?sql ?ms [] 1 sample_applied" by (simp add: at_version_def migration_rows_def sample_applied_def)
  obtain r d' where run: "apply_migrations ?sql (\<lambda>v. False) (\<lambda>v. 0) sample_migrations sample_applied = (r, d')"
    by (cases "apply_migrations ?sql (\<lambda>v. False) (\<lambda>v. 0) sample_migrations sample_applied")
  show ?thesis using migrations_resume [OF sample_discover at run] run
    by (cases r) (auto simp: at_version_def)
qed

end
