(* ===== verification/Mailer.thy ===== *)
theory Mailer
  imports World Complex_Main
begin

text \<open>
  \<open>AiosmtplibMailer\<close>: building the message, the size check, the classification of SMTP
  failures, the retry loop with its back-off and the session of one attempt.  The server is a
  parameter that answers every call of every attempt; so is the size of the encoded message.
  Seconds are rational numbers: doubling and taking a minimum is exact on the floats of the code.

  The property: how many attempts are made, when they end and how long the code waits in between.
\<close>

section \<open>The message\<close>

record mime_part =
  mp_maintype :: string
  mp_subtype :: string
  mp_filename :: string
  mp_content :: string

record mime_message =
  mm_from :: string
  mm_to :: string
  mm_bcc :: string
  mm_subject :: string
  mm_html :: string
  mm_parts :: "mime_part list"

text \<open>
  The e-mail policy refuses a header value that \<open>splitlines\<close> splits: one that goes on after a
  line break.  A line break at its very end passes.
\<close>

definition line_break :: "char \<Rightarrow> bool" where
  "line_break c \<longleftrightarrow> (of_char c :: nat) \<in> {10, 11, 12, 13, 28, 29, 30, 133}"

fun after_line :: "string \<Rightarrow> string option" where
  "after_line [] = None"
| "after_line (c # cs) =
     (if c = CHR 0x0D \<and> cs \<noteq> [] \<and> hd cs = CHR 0x0A then Some (tl cs)
      else if line_break c then Some cs else after_line cs)"

definition header_value :: "string \<Rightarrow> exn + string" where
  "header_value v = check (case after_line v of None \<Rightarrow> False | Some rest \<Rightarrow> rest \<noteq> []) value_error (Inr v)"

text \<open>\<open>s.partition(c)\<close> without the separator, and \<open>s.split(c, 1)[0]\<close>.\<close>

definition partition_at :: "char \<Rightarrow> string \<Rightarrow> string \<times> string" where
  "partition_at c s = (takeWhile (\<lambda>x. x \<noteq> c) s, drop 1 (dropWhile (\<lambda>x. x \<noteq> c) s))"

definition or_default :: "string \<Rightarrow> string \<Rightarrow> string" where
  "or_default s d = (if s = [] then d else s)"

definition mime_part_of :: "email_attachment \<Rightarrow> mime_part" where
  "mime_part_of att = (let (maintype, rest) = partition_at (CHR ''/'') (at_content_type att) in
     \<lparr> mp_maintype = or_default maintype ''application'',
       mp_subtype = or_default (py_strip (fst (partition_at (CHR '';'') rest))) ''html'',
       mp_filename = at_filename att, mp_content = at_content att \<rparr>)"

definition build_mime_message :: "outbound_email \<Rightarrow> exn + mime_message" where
  "build_mime_message m =
     and_then (header_value (oe_from_address m)) (\<lambda>from_value.
     and_then (header_value (oe_from_address m)) (\<lambda>to_value.
     and_then (header_value (join '', '' (sorted_of (oe_recipients m)))) (\<lambda>bcc.
     and_then (header_value (oe_subject m)) (\<lambda>subject. Inr
       \<lparr> mm_from = from_value, mm_to = to_value, mm_bcc = bcc, mm_subject = subject,
         mm_html = oe_body_html m, mm_parts = map mime_part_of (oe_attachments m) \<rparr>))))"

section \<open>Failures\<close>

text \<open>
  What a call of the SMTP client can do: work, raise one of the exceptions the loop catches, or
  raise another one.  \<open>Other_Failure\<close> stands for the remaining SMTPExceptions, TimeoutError and
  OSError; the class name and the text go into the error details.
\<close>

datatype smtp_failure =
    Authentication_Error int
  | Recipients_Refused "int list"
  | Response_Exception int
  | Server_Disconnected
  | Connect_Timeout
  | Gai_Error
  | Other_Failure

datatype smtp_result = Accepted | Failed smtp_failure string string | Escapes exn

datatype failure_type = Transient | Permanent

definition permanent_4xx_codes :: "int set" where
  "permanent_4xx_codes = {421}"

definition classify_response_code :: "int \<Rightarrow> failure_type" where
  "classify_response_code code =
     (if code \<in> permanent_4xx_codes then Permanent
      else if 400 \<le> code \<and> code < 500 then Transient
      else if 500 \<le> code \<and> code < 600 then Permanent else Permanent)"

fun classify_smtp_error :: "smtp_failure \<Rightarrow> failure_type" where
  "classify_smtp_error (Authentication_Error code) = Permanent"
| "classify_smtp_error (Recipients_Refused codes) =
     (if codes \<noteq> [] \<and> list_all (\<lambda>c. classify_response_code c = Permanent) codes then Permanent else Transient)"
| "classify_smtp_error (Response_Exception code) = classify_response_code code"
| "classify_smtp_error Server_Disconnected = Transient"
| "classify_smtp_error Connect_Timeout = Transient"
| "classify_smtp_error Gai_Error = Transient"
| "classify_smtp_error Other_Failure = Transient"

text \<open>\<open>getattr(exc, "code", None)\<close>\<close>

fun smtp_code :: "smtp_failure \<Rightarrow> json" where
  "smtp_code (Authentication_Error code) = JInt code"
| "smtp_code (Response_Exception code) = JInt code"
| "smtp_code _ = JNull"

section \<open>One attempt\<close>

record mailer =
  ml_username :: string
  ml_password :: string
  ml_use_starttls :: bool
  ml_max_email_size :: int
  ml_max_retries :: nat
  ml_initial_interval :: rat
  ml_max_interval :: rat

definition mailer_init ::
  "int \<Rightarrow> string \<Rightarrow> string \<Rightarrow> bool \<Rightarrow> int \<Rightarrow> int \<Rightarrow> rat \<Rightarrow> rat \<Rightarrow> rat \<Rightarrow> exn + mailer" where
  "mailer_init port username password starttls max_size max_retries initial max_interval timeout =
     check (port < 1 \<or> 65535 < port) value_error
     (check (max_size < 1) value_error
     (check (max_retries < 0) value_error
     (check (initial \<le> 0) value_error
     (check (max_interval < initial) value_error
     (check (timeout \<le> 0) value_error (Inr
       \<lparr> ml_username = username, ml_password = password, ml_use_starttls = starttls,
         ml_max_email_size = max_size, ml_max_retries = nat max_retries, ml_initial_interval = initial,
         ml_max_interval = max_interval \<rparr>))))))"

datatype smtp_call = Connect | Starttls | Login string string | Send_Message mime_message | Quit

definition session_calls :: "mailer \<Rightarrow> mime_message \<Rightarrow> smtp_call list" where
  "session_calls ml msg = [Connect] @ (if ml_use_starttls ml then [Starttls] else []) @
     (if ml_username ml \<noteq> [] then [Login (ml_username ml) (ml_password ml)] else []) @ [Send_Message msg]"

text \<open>The calls in order until one does not work; with it the calls that were made.\<close>

fun run_calls :: "(smtp_call \<Rightarrow> smtp_result) \<Rightarrow> smtp_call list \<Rightarrow> smtp_result \<times> smtp_call list" where
  "run_calls server [] = (Accepted, [])"
| "run_calls server (c # cs) = (case server c of
     Accepted \<Rightarrow> (let (r, made) = run_calls server cs in (r, c # made))
   | r \<Rightarrow> (r, [c]))"

text \<open>The \<open>finally\<close> block: a failing QUIT is ignored, another exception replaces the result.\<close>

definition open_and_send :: "mailer \<Rightarrow> (smtp_call \<Rightarrow> smtp_result) \<Rightarrow> mime_message \<Rightarrow> smtp_result" where
  "open_and_send ml server msg = (let (r, made) = run_calls server (session_calls ml msg) in
     case server Quit of Escapes e \<Rightarrow> Escapes e | _ \<Rightarrow> r)"

section \<open>Retries\<close>

definition backoff :: "mailer \<Rightarrow> nat \<Rightarrow> rat" where
  "backoff ml attempt = min (ml_max_interval ml) (ml_initial_interval ml * 2 ^ (attempt - 1))"

definition delivery_error :: "string \<Rightarrow> smtp_failure \<Rightarrow> string \<Rightarrow> string \<Rightarrow> int \<Rightarrow> string \<Rightarrow> nat \<Rightarrow> exn" where
  "delivery_error reason f cls msg recipients key attempt = err EmailDeliveryError
     [(''failure_reason'', JStr reason), (''exception_class'', JStr cls), (''message'', JStr msg),
      (''smtp_code'', smtp_code f), (''recipient_count'', JInt recipients), (key, JInt (int attempt))]"

text \<open>The loop from an attempt on: its result and the seconds slept.\<close>

function send_from :: "mailer \<Rightarrow> (nat \<Rightarrow> smtp_result) \<Rightarrow> int \<Rightarrow> nat \<Rightarrow> (exn + unit) \<times> rat list" where
  "send_from ml smtp recipients attempt = (case smtp attempt of
     Accepted \<Rightarrow> (Inr (), [])
   | Escapes e \<Rightarrow> (Inl e, [])
   | Failed f cls msg \<Rightarrow>
       if classify_smtp_error f = Permanent
       then (Inl (delivery_error ''PERMANENT_SMTP_FAILURE'' f cls msg recipients ''attempt'' attempt), [])
       else if ml_max_retries ml < attempt
       then (Inl (delivery_error ''RETRIES_EXHAUSTED'' f cls msg recipients ''attempts'' attempt), [])
       else let (r, slept) = send_from ml smtp recipients (Suc attempt) in (r, backoff ml attempt # slept))"
  by pat_completeness auto
termination
  by (relation "measure (\<lambda>(ml, smtp, recipients, attempt). Suc (ml_max_retries ml) - attempt)") auto

declare send_from.simps [simp del]

definition send_with_retries :: "mailer \<Rightarrow> (nat \<Rightarrow> smtp_call \<Rightarrow> smtp_result) \<Rightarrow> mime_message \<Rightarrow> int \<Rightarrow> (exn + unit) \<times> rat list" where
  "send_with_retries ml server msg recipients =
     send_from ml (\<lambda>attempt. open_and_send ml (server attempt) msg) recipients 1"

definition mailer_send ::
  "mailer \<Rightarrow> (mime_message \<Rightarrow> int) \<Rightarrow> (nat \<Rightarrow> smtp_call \<Rightarrow> smtp_result) \<Rightarrow> outbound_email \<Rightarrow> (exn + unit) \<times> rat list" where
  "mailer_send ml encoded_size server m = (case build_mime_message m of
     Inl e \<Rightarrow> (Inl e, [])
   | Inr msg \<Rightarrow>
       if ml_max_email_size ml < encoded_size msg
       then (Inl (err EmailSizeExceededError [(''failure_reason'', JStr ''EMAIL_SIZE_EXCEEDED''),
          (''measured_bytes'', JInt (encoded_size msg)), (''limit_bytes'', JInt (ml_max_email_size ml)),
          (''recipient_count'', JInt (int (card (oe_recipients m))))]), [])
       else send_with_retries ml server msg (int (card (oe_recipients m))))"

section \<open>The loop\<close>

definition transient :: "smtp_result \<Rightarrow> bool" where
  "transient r \<longleftrightarrow> (\<exists>f cls msg. r = Failed f cls msg \<and> classify_smtp_error f = Transient)"

definition outcome_of :: "int \<Rightarrow> nat \<Rightarrow> smtp_result \<Rightarrow> exn + unit" where
  "outcome_of recipients n r = (case r of
     Accepted \<Rightarrow> Inr ()
   | Escapes e \<Rightarrow> Inl e
   | Failed f cls msg \<Rightarrow> Inl (if classify_smtp_error f = Permanent
       then delivery_error ''PERMANENT_SMTP_FAILURE'' f cls msg recipients ''attempt'' n
       else delivery_error ''RETRIES_EXHAUSTED'' f cls msg recipients ''attempts'' n))"

lemma not_permanent: "classify_smtp_error f \<noteq> Permanent \<longleftrightarrow> classify_smtp_error f = Transient"
  by (cases "classify_smtp_error f") auto

lemma send_from_outcome:
  assumes "k \<le> Suc (ml_max_retries ml)"
  shows "\<exists>n. k \<le> n \<and> n \<le> Suc (ml_max_retries ml) \<and> (\<forall>i. k \<le> i \<and> i < n \<longrightarrow> transient (smtp i)) \<and>
    (transient (smtp n) \<longrightarrow> n = Suc (ml_max_retries ml)) \<and>
    send_from ml smtp recipients k = (outcome_of recipients n (smtp n), map (backoff ml) [k..<n])"
  using assms
proof (induction ml smtp recipients k rule: send_from.induct)
  case (1 ml smtp recipients k)
  show ?case
  proof (cases "transient (smtp k) \<and> k \<le> ml_max_retries ml")
    case True
    then obtain f cls msg where f: "smtp k = Failed f cls msg" "classify_smtp_error f = Transient"
      by (auto simp: transient_def)
    with 1 True obtain n where n: "Suc k \<le> n" "n \<le> Suc (ml_max_retries ml)"
      "\<forall>i. Suc k \<le> i \<and> i < n \<longrightarrow> transient (smtp i)" "transient (smtp n) \<longrightarrow> n = Suc (ml_max_retries ml)"
      "send_from ml smtp recipients (Suc k) = (outcome_of recipients n (smtp n), map (backoff ml) [Suc k..<n])"
      by auto
    have "send_from ml smtp recipients k = (outcome_of recipients n (smtp n), map (backoff ml) [k..<n])"
      using f True n by (subst send_from.simps) (simp add: upt_rec [of k])
    moreover have "\<forall>i. k \<le> i \<and> i < n \<longrightarrow> transient (smtp i)"
      using n(3) True by (metis Suc_leI le_neq_implies_less)
    ultimately show ?thesis using n by (intro exI [of _ n]) auto
  next
    case False
    then have "send_from ml smtp recipients k = (outcome_of recipients k (smtp k), [])"
      using 1(2) by (subst send_from.simps)
        (auto simp: outcome_of_def transient_def not_permanent split: smtp_result.split)
    then show ?thesis using False 1(2) by (intro exI [of _ k]) auto
  qed
qed

section \<open>Properties\<close>

text \<open>
  C39: sending always comes to an end, after at most \<open>max_retries + 1\<close> attempts.  It ends at the
  first attempt that is not a transient failure, with that attempt's result: delivered, a permanent
  failure, which is never retried, or another exception; or at the last allowed attempt with
  RETRIES_EXHAUSTED.  Between the attempts it waits the back-off of each, never longer than the
  configured maximum.
\<close>

theorem send_attempts_bounded:
  "\<exists>n. 1 \<le> n \<and> n \<le> Suc (ml_max_retries ml) \<and>
    (\<forall>i \<in> {1..<n}. transient (open_and_send ml (server i) msg)) \<and>
    (transient (open_and_send ml (server n) msg) \<longrightarrow> n = Suc (ml_max_retries ml)) \<and>
    send_with_retries ml server msg recipients =
      (outcome_of recipients n (open_and_send ml (server n) msg), map (backoff ml) [1..<n]) \<and>
    (\<forall>s \<in> set (map (backoff ml) [1..<n]). s \<le> ml_max_interval ml)"
proof -
  have "1 \<le> Suc (ml_max_retries ml)" by simp
  from send_from_outcome [OF this, of "\<lambda>i. open_and_send ml (server i) msg" recipients]
  obtain n where "1 \<le> n" "n \<le> Suc (ml_max_retries ml)"
    "\<forall>i. 1 \<le> i \<and> i < n \<longrightarrow> transient (open_and_send ml (server i) msg)"
    "transient (open_and_send ml (server n) msg) \<longrightarrow> n = Suc (ml_max_retries ml)"
    "send_from ml (\<lambda>i. open_and_send ml (server i) msg) recipients 1 =
      (outcome_of recipients n (open_and_send ml (server n) msg), map (backoff ml) [1..<n])" by blast
  then show ?thesis
    unfolding send_with_retries_def by (intro exI [of _ n]) (auto simp: backoff_def)
qed

definition sample_mailer :: mailer where
  "sample_mailer = \<lparr> ml_username = ''ms'', ml_password = ''pw'', ml_use_starttls = True, ml_max_email_size = 100,
     ml_max_retries = 3, ml_initial_interval = 2, ml_max_interval = 300 \<rparr>"

definition sample_message :: mime_message where
  "sample_message = \<lparr> mm_from = ''ms@x'', mm_to = ''ms@x'', mm_bcc = ''a@x'', mm_subject = ''S'', mm_html = ''<p>'',
     mm_parts = [] \<rparr>"

text \<open>A server that is busy at the first attempt.\<close>

definition busy_once :: "nat \<Rightarrow> smtp_call \<Rightarrow> smtp_result" where
  "busy_once i c = (if i = 1 \<and> c = Connect then Failed (Response_Exception 450) ''SMTPConnectResponseError'' ''busy''
     else Accepted)"

theorem send_attempts_bounded_witness:
  "send_with_retries sample_mailer busy_once sample_message 1 = (Inr (), [2])"
proof -
  have first: "transient (open_and_send sample_mailer (busy_once 1) sample_message)"
    by (simp add: transient_def open_and_send_def session_calls_def busy_once_def classify_response_code_def
        permanent_4xx_codes_def)
  have later: "open_and_send sample_mailer (busy_once i) sample_message = Accepted" if "i \<noteq> 1" for i
    using that by (simp add: open_and_send_def session_calls_def busy_once_def sample_mailer_def)
  obtain n where n: "1 \<le> n" "\<forall>i \<in> {1..<n}. transient (open_and_send sample_mailer (busy_once i) sample_message)"
    "transient (open_and_send sample_mailer (busy_once n) sample_message) \<longrightarrow> n = Suc (ml_max_retries sample_mailer)"
    "send_with_retries sample_mailer busy_once sample_message 1 =
      (outcome_of 1 n (open_and_send sample_mailer (busy_once n) sample_message), map (backoff sample_mailer) [1..<n])"
    using send_attempts_bounded [of sample_mailer busy_once sample_message 1] by blast
  have "n \<noteq> 1" using n(3) first by (auto simp: sample_mailer_def)
  moreover have "\<not> 2 < n" using bspec [OF n(2), of 2] later [of 2] by (auto simp: transient_def)
  ultimately have "n = 2" using n(1) by simp
  then show ?thesis
    using n(4) later [of 2] by (simp add: outcome_of_def backoff_def sample_mailer_def upt_rec)
qed

text \<open>
  With STARTTLS configured, credentials are sent only after the server has accepted
  STARTTLS, and the message only after the credentials, if any, were accepted.
\<close>

theorem credentials_after_starttls:
  assumes "ml_use_starttls ml" and "run_calls server (session_calls ml msg) = (r, made)"
  shows "(\<forall>u p. Login u p \<in> set made \<longrightarrow> server Starttls = Accepted \<and> u = ml_username ml \<and> p = ml_password ml) \<and>
    (Send_Message msg \<in> set made \<longrightarrow> server Starttls = Accepted \<and>
       (ml_username ml \<noteq> [] \<longrightarrow> server (Login (ml_username ml) (ml_password ml)) = Accepted))"
  using assms by (auto simp: session_calls_def split: smtp_result.splits if_splits)

theorem credentials_after_starttls_witness:
  "Login ''ms'' ''pw'' \<in> set (snd (run_calls (busy_once 2) (session_calls sample_mailer sample_message))) \<and>
     busy_once 2 Starttls = Accepted"
proof -
  obtain r made where run: "run_calls (busy_once 2) (session_calls sample_mailer sample_message) = (r, made)"
    by (cases "run_calls (busy_once 2) (session_calls sample_mailer sample_message)")
  have "ml_use_starttls sample_mailer" by (simp add: sample_mailer_def)
  note order = credentials_after_starttls [OF this run]
  have "Login ''ms'' ''pw'' \<in> set made"
    using run by (auto simp: session_calls_def sample_mailer_def busy_once_def)
  then show ?thesis using order unfolding run by simp
qed

end
