(* ===== verification/Run_Queries.thy ===== *)
theory Run_Queries
  imports Delivery
begin

text \<open>
  The use cases of the dashboard on runs: \<open>ListPastRunsUseCase\<close>, \<open>GetRunDetailUseCase\<close> and
  \<open>ResendRunUseCase\<close>, which mails a finished run again.  Resending shares the renderer, the
  mailer and the sender address with the delivery task, as the service wires them.

  The lemmas give what a resend leaves in the world on every path.  The properties: a resend only
  adds one audit record and at most one mail, and that mail is the one of the first delivery.
\<close>

section \<open>Queries\<close>

definition list_past_runs :: "int \<Rightarrow> int \<Rightarrow> run_state set option \<Rightarrow> world \<Rightarrow> (exn + run list) \<times> world" where
  "list_past_runs limit offset states = in_uow (run_list_paginated
     (case states of None \<Rightarrow> run_terminal | Some sts \<Rightarrow> sts) limit offset)"

record run_detail =
  rd_run :: run
  rd_stages :: "stage list"

text \<open>The stages that have a row, in the order of the declarations.\<close>

definition ordered_stages :: "run \<Rightarrow> stage list \<Rightarrow> stage list" where
  "ordered_stages r stages =
     (let by_id = map_of (rev (map (\<lambda>s. (stage_stage_id s, s)) stages)) in
      List.map_filter (\<lambda>ds. by_id (ds_stage_id ds)) (run_declared_stages r))"

definition get_run_detail :: "run_id \<Rightarrow> world \<Rightarrow> (exn + run_detail) \<times> world" where
  "get_run_detail rid = in_uow (tx_bind (run_get rid) (\<lambda>r. tx_bind (stage_list_by_run rid) (\<lambda>stages.
     tx_return \<lparr> rd_run = r, rd_stages = ordered_stages r stages \<rparr>)))"

section \<open>Resending\<close>

definition resendable_states :: "run_state set" where
  "resendable_states = {SENT, FAILED}"

definition resend_event :: "run_id \<Rightarrow> user_id \<Rightarrow> int \<Rightarrow> audit_outcome \<Rightarrow> dict \<Rightarrow> audit_event" where
  "resend_event rid admin now outcome details =
     \<lparr> ae_timestamp = utc now, ae_action = RESEND_REPORT, ae_actor = ''user:'' @ show_int admin,
       ae_resource = ''run:'' @ rid, ae_outcome = outcome, ae_details = details, ae_audit_id = None \<rparr>"

definition record_resend :: "run_id \<Rightarrow> user_id \<Rightarrow> int \<Rightarrow> audit_outcome \<Rightarrow> dict \<Rightarrow> world \<Rightarrow> (exn + unit) \<times> world" where
  "record_resend rid admin now outcome details = in_uow
     (tx_bind (tx_lift (audit_event_post_init (resend_event rid admin now outcome details))) audit_record)"

text \<open>The exceptions of rendering that are caught; none has subclasses, so the class name is its own.\<close>

definition resend_caught :: "exn \<Rightarrow> string option" where
  "resend_caught e =
     (if exn_is e TemplateRenderError then Some ''TemplateRenderError''
      else if exn_is e RenderedSizeExceededError then Some ''RenderedSizeExceededError''
      else if exn_is e ContextSizeExceededError then Some ''ContextSizeExceededError''
      else if exn_is e ContextSchemaViolationError then Some ''ContextSchemaViolationError''
      else None)"

definition record_render_failure :: "run_id \<Rightarrow> user_id \<Rightarrow> int \<Rightarrow> string \<Rightarrow> exn \<Rightarrow> world \<Rightarrow> (exn + unit) \<times> world" where
  "record_render_failure rid admin now reason e = record_resend rid admin now FAILURE
     [(''run_id'', JStr rid), (''recipient_count'', JInt 0), (''attachment_count'', JInt 0),
      (''failure_reason'', JStr reason), (''error'', JStr (exn_message e))]"

definition resend_details :: "run_id \<Rightarrow> string set \<Rightarrow> email_attachment list \<Rightarrow> dict \<Rightarrow> dict" where
  "resend_details rid recipients atts failure =
     dict_merge [(''run_id'', JStr rid), (''recipient_count'', JInt (int (card recipients))),
      (''recipient_addresses'', JStrs (sorted_of recipients)),
      (''attachment_count'', JInt (int (length atts)))] failure"

text \<open>Recipients, the mail, the audit record.\<close>

definition resend_prepared ::
  "delivery \<Rightarrow> run \<Rightarrow> user_id \<Rightarrow> int \<Rightarrow> string \<Rightarrow> email_attachment list \<Rightarrow> world \<Rightarrow> (exn + unit) \<times> world" where
  "resend_prepared dl r admin now body atts w =
     w_then (in_uow (list_recipients_for_run (run_pipeline_type r) (run_tags r)) w) (\<lambda>recipients w1.
      let record_outcome = (\<lambda>outcome failure. record_resend (run_run_id r) admin now outcome
            (resend_details (run_run_id r) recipients atts failure)) in
      if recipients = {} then record_outcome SUCCESS [] w1
      else w_then (outbound_email_post_init (outbound dl r recipients body atts), w1) (\<lambda>m w1.
        case send_mail dl m w1 of
          (None, w2) \<Rightarrow> record_outcome SUCCESS [] w2
        | (Some e, w2) \<Rightarrow>
            if exn_is e EmailDeliveryError
            then record_outcome FAILURE [(''failure_reason'', JStr (exn_message e))] w2
            else (Inl e, w2)))"

definition resend_run :: "delivery \<Rightarrow> run_id \<Rightarrow> user_id \<Rightarrow> int \<Rightarrow> world \<Rightarrow> (exn + unit) \<times> world" where
  "resend_run dl rid admin now w =
     w_then (in_uow (run_get rid) w) (\<lambda>r w1.
      if run_state r \<notin> resendable_states
      then (Inl (err InvalidRunStateError
        [(''run_id'', JStr rid), (''current_state'', JStr (run_state_value (run_state r))),
         (''permitted_states'', JStrs (sorted_of (run_state_value ` resendable_states)))]), w1)
      else case prepare_email dl rid (w_db w1) of
        Inl e \<Rightarrow> (case resend_caught e of
            None \<Rightarrow> (Inl e, w1)
          | Some name \<Rightarrow> record_render_failure rid admin now name e w1)
      | Inr (r', body, atts) \<Rightarrow> resend_prepared dl r admin now body atts w1)"

section \<open>What a resend leaves\<close>

lemma record_resend_eq:
  "record_resend rid admin now out det w =
     (Inr (), w\<lparr> w_db := add_audit (resend_event rid admin now out det) (w_db w) \<rparr>)"
proof -
  have ev: "audit_event_post_init (resend_event rid admin now out det) = Inr (resend_event rid admin now out det)"
    "dt_aware (ae_timestamp (resend_event rid admin now out det))"
    by (simp_all add: audit_event_post_init_Inr audit_event_ok_def resend_event_def)
  then show ?thesis
    unfolding record_resend_def
    by (intro in_uow_Done) (simp add: tx_bind_def tx_lift_def tx_read_def audit_record_event)
qed

lemma in_uow_run_get:
  "run_get rid (w_db w) = Done r (w_db w) \<Longrightarrow> in_uow (run_get rid) w = (Inr r, w)"
  by (simp add: in_uow_Done)

text \<open>The mail of a resend: the one the first delivery builds from the same parts.\<close>

definition resent :: "delivery \<Rightarrow> run \<Rightarrow> user_id \<Rightarrow> int \<Rightarrow> string \<Rightarrow> email_attachment list \<Rightarrow> world \<Rightarrow> world \<Rightarrow> bool" where
  "resent dl r admin now body atts w w' \<longleftrightarrow>
     (let recs = recipients_for_run (run_pipeline_type r) (run_tags r) (w_db w);
          m = outbound dl r recs body atts in
      \<exists>out failure. w' = w
        \<lparr> w_sent := w_sent w @ (if recs \<noteq> {} \<and> out = SUCCESS then [m] else []),
          w_db := add_audit (resend_event (run_run_id r) admin now out
            (resend_details (run_run_id r) recs atts failure)) (w_db w) \<rparr> \<and>
       (recs \<noteq> {} \<longrightarrow> (out = SUCCESS \<longleftrightarrow> dl_mailer dl m = None)))"

lemma resend_prepared_Inr:
  assumes "resend_prepared dl r admin now body atts w = (Inr (), w')"
  shows "resent dl r admin now body atts w w'"
proof -
  define recs where "recs = recipients_for_run (run_pipeline_type r) (run_tags r) (w_db w)"
  define m where "m = outbound dl r recs body atts"
  show ?thesis
  proof (cases "recs = {}")
    case True
    then show ?thesis
      using assms
      by (auto simp: resend_prepared_def in_uow_recipients w_then_def record_resend_eq Let_def
          resent_def simp flip: recs_def)
  next
    case False
    then show ?thesis
      using assms
      by (auto simp: resend_prepared_def in_uow_recipients w_then_def record_resend_eq Let_def
          resent_def send_mail_eq outbound_email_post_init_Inr simp flip: recs_def
          split: sum.splits option.splits if_splits)
  qed
qed

section \<open>The same mail\<close>

text \<open>Rendering reads the declarations and the stages only.\<close>

definition same_declarations :: "run \<Rightarrow> run \<Rightarrow> bool" where
  "same_declarations r r' \<longleftrightarrow> (\<exists>st t. r' = r\<lparr> run_state := st, run_updated_at := t \<rparr>)"

lemma render_parts_state:
  assumes "same_declarations r r'"
  shows "render_fragment dl r' s = render_fragment dl r s" "stages_to_render r' ss = stages_to_render r ss"
    "render_parts dl r' fs = render_parts dl r fs" "outbound dl r' recs body atts = outbound dl r recs body atts"
    "run_run_id r' = run_run_id r" "run_pipeline_type r' = run_pipeline_type r" "run_tags r' = run_tags r"
proof -
  obtain st t where r': "r' = r\<lparr> run_state := st, run_updated_at := t \<rparr>"
    using assms by (auto simp: same_declarations_def)
  have order: "stage_order_of r' = stage_order_of r" by (simp add: r' fun_eq_iff stage_order_of_def)
  show "render_fragment dl r' s = render_fragment dl r s" "stages_to_render r' ss = stages_to_render r ss"
    by (simp_all add: render_fragment_def stages_to_render_def order)
  have "aggregation_context r' = aggregation_context r" "body_context r' = body_context r"
    by (simp_all add: aggregation_context_def body_context_def run_metadata_def r' fun_eq_iff)
  then have "build_attachments dl r' fs = build_attachments dl r fs" "render_email_body dl r' fs = render_email_body dl r fs"
    by (simp_all add: build_attachments_def render_email_body_def r' split: option.split)
  then show "render_parts dl r' fs = render_parts dl r fs" by (simp add: render_parts_def)
qed (use assms in \<open>auto simp: same_declarations_def outbound_def\<close>)

lemma load_and_render_same:
  assumes get: "run_get rid d = Done r d" "run_get rid d' = Done r' d'"
    and same: "same_declarations r r'" "db_stages d' = db_stages d"
  shows "load_and_render dl rid d' = load_and_render dl rid d"
proof -
  have "fst (uow (stage_list_by_run rid) d') = fst (uow (stage_list_by_run rid) d)"
    using same(2) by (auto simp: uow_def stage_list_by_run_def tx_read_def split: sum.split)
  moreover have "render_fragment dl r' = render_fragment dl r"
    using render_parts_state(1) [OF same(1)] by (simp add: fun_eq_iff)
  ultimately show ?thesis
    using get render_parts_state(2) [OF same(1)] by (simp add: load_and_render_def uow_def)
qed

lemma prepare_email_parts:
  assumes "run_get rid d = Done r d"
  shows "prepare_email dl rid d = and_then (load_and_render dl rid d) (\<lambda>fs.
    and_then (render_parts dl r fs) (\<lambda>(atts, body). Inr (r, body, atts)))"
  using assms
  by (cases "load_and_render dl rid d")
     (auto simp: prepare_email_def uow_def render_parts_def and_then_def split: sum.split)

lemma run_settled_state:
  assumes "run_settled rid st now d d'" and "run_get rid d' = Done r d'"
  shows "run_state r = st"
proof -
  obtain row where row: "find_row rr_run_id rid (db_runs d') = Some row" "row_to_run row = Inr r"
    using assms(2) by (auto simp: run_get_Done)
  obtain ev where "d' = moved rid st now ev d" using assms(1) by (auto simp: run_settled_def)
  then obtain old where "row = set_run_state st now old"
    using row(1) by (auto simp: moved_def find_row_update_rows set_run_state_def)
  then show ?thesis
    using row_to_run_Inr(3) [OF row(2)] by (auto simp: set_run_state_def run_state_enum.value_inject)
qed

text \<open>A delivery that ends in SENT has rendered everything and mailed it, unless nobody listens.\<close>

lemma deliver_sent:
  assumes sending: "is_sending (run_run_id r) (w_db w)"
    and res: "deliver dl r clock body atts w = (Inr (), w')"
    and sent: "run_get (run_run_id r) (w_db w') = Done r1 (w_db w')" "run_state r1 = SENT"
    and recs: "recs = recipients_for_run (run_pipeline_type r) (run_tags r) (w_db w)"
    and m: "m = outbound dl r recs body atts"
  shows "w_sent w' = w_sent w @ (if recs = {} then [] else [m]) \<and>
    (recs \<noteq> {} \<longrightarrow> dl_mailer dl m = None \<and> outbound_email_ok m)"
proof -
  define w2 where "w2 = record_metrics [MSize (email_size body atts)] w"
  have w2: "w_db w2 = w_db w" "w_sent w2 = w_sent w" by (simp_all add: w2_def)
  consider (nobody) "recs = {}" "finish_sent dl (run_run_id r) {} body atts (clock 1) w2 = (Inr (), w')"
    | (sent) "recs \<noteq> {}" "dl_mailer dl m = None" "outbound_email_ok m"
        "finish_sent dl (run_run_id r) recs body atts (clock 1) (w2\<lparr> w_sent := w_sent w2 @ [m] \<rparr>) =
          (Inr (), w')"
    | (failed) e where "send_failed dl (run_run_id r) recs body e clock w2 = (Inr (), w')"
    using res
    unfolding deliver_def in_uow_recipients recs [symmetric] w2_def [symmetric] w_then_Inr
    by (auto simp: w_then_Inr outbound_email_post_init_Inr send_mail_eq m [symmetric]
        w2_def [symmetric] Let_def split: if_splits option.splits)
  then show ?thesis
  proof cases
    case nobody
    then show ?thesis using finish_sent_Inr [OF _ nobody(2)] sending w2 by auto
  next
    case sent
    then show ?thesis using finish_sent_Inr [OF _ sent(4)] sending w2 by auto
  next
    case failed
    then consider "size_exceeded dl (run_run_id r) recs body e clock w2 = (Inr (), w')"
      | "delivery_failed (run_run_id r) recs e (clock 1) w2 = (Inr (), w')"
      by (auto simp: send_failed_def split: if_splits)
    then have "run_settled (run_run_id r) FAILED (clock 1) (w_db w2) (w_db w')"
      using size_exceeded_Inr delivery_failed_Inr sending w2 by cases (metis, metis)
    from run_settled_state [OF this sent(1)] sent(2) show ?thesis by simp
  qed
qed

lemma render_and_deliver_sent:
  assumes sending: "is_sending (run_run_id r) (w_db w)"
    and res: "render_and_deliver dl r clock w = (Inr (), w')"
    and sent: "run_get (run_run_id r) (w_db w') = Done r1 (w_db w')" "run_state r1 = SENT"
  obtains fs atts body w3 where "load_and_render dl (run_run_id r) (w_db w) = Inr fs"
    and "render_parts dl r fs = Inr (atts, body)" and "deliver dl r clock body atts w3 = (Inr (), w')"
    and "w_db w3 = w_db w" and "w_sent w3 = w_sent w"
proof -
  have not_failed: False if "render_failed (run_run_id r) e (clock 1) w3 = (Inr (), w')" "w_db w3 = w_db w" for e w3
    using that run_settled_state [OF _ sent(1)] sent(2) render_failed_Inr [of "run_run_id r" w3 e "clock 1" w'] sending
    by force
  obtain fs where fs: "load_and_render dl (run_run_id r) (w_db w) = Inr fs"
    using res not_failed by (cases "load_and_render dl (run_run_id r) (w_db w)") (auto simp: render_and_deliver_def)
  obtain x w3 where save: "save_fragments dl (run_run_id r) fs w = (x, w3)"
    by (cases "save_fragments dl (run_run_id r) fs w")
  note same = save_fragments_same [OF save]
  show thesis
  proof (cases x)
    case (Inl e)
    then show ?thesis using res not_failed [of e w3] same by (simp add: render_and_deliver_def fs save)
  next
    case x: (Inr u)
    show ?thesis
    proof (cases "render_parts dl r fs")
      case (Inl e)
      then show ?thesis using res not_failed [of e w3] same by (simp add: render_and_deliver_def fs save x)
    next
      case (Inr p)
      obtain atts body where "p = (atts, body)" by (cases p)
      with Inr res show ?thesis
        using that [of fs atts body w3] fs same by (simp add: render_and_deliver_def save x)
    qed
  qed
qed

section \<open>Properties\<close>


text \<open>With a renderer and a mailer that work, a delivery that returns ends in SENT.\<close>

lemma render_and_deliver_all_well:
  assumes render: "\<And>ref ctx. \<exists>html. dl_render dl ref ctx = Inr html" and mailer: "\<And>m. dl_mailer dl m = None"
    and ports: "ports_ok dl" "run_ok r"
    and read: "run_get (run_run_id r) (w_db w) = Done r' (w_db w)" "run_state r' = SENDING"
      "stage_list_by_run (run_run_id r) (w_db w) = Done ss (w_db w)"
    and res: "render_and_deliver dl r clock w = (Inr (), w')"
  shows "run_settled (run_run_id r) SENT (clock 1) (w_db w) (w_db w')"
proof -
  have no_failure: "dl_render dl ref ctx \<noteq> Inl e" for ref ctx e using render [of ref ctx] by auto
  have sending: "is_sending (run_run_id r) (w_db w)" using read by (auto simp: is_sending_def)
  have "map_res (render_fragment dl r') (stages_to_render r' ss) \<noteq> Inl e" for e
    by (auto dest!: map_res_Inl simp: render_fragment_def and_then_Inl no_failure split: option.splits)
  then obtain fs where fs: "load_and_render dl (run_run_id r) (w_db w) = Inr fs"
    using read by (cases "load_and_render dl (run_run_id r) (w_db w)") (auto simp: load_and_render_def uow_def)
  have "render_parts dl r fs \<noteq> Inl e" for e
    using ports(2) by (auto simp: render_parts_def build_attachments_def render_email_body_def run_ok_def
        and_then_Inl no_failure split: if_splits option.splits)
  then obtain atts body where parts: "render_parts dl r fs = Inr (atts, body)"
    by (cases "render_parts dl r fs") auto
  obtain w3 where save: "save_fragments dl (run_run_id r) fs w = (Inr (), w3)"
    using save_fragments_returns [OF ports(1)] by blast
  have "deliver dl r clock body atts w3 = (Inr (), w')"
    using res by (simp add: render_and_deliver_def fs save parts)
  then consider "finish_sent dl (run_run_id r) {} body atts (clock 1) (record_metrics [MSize (email_size body atts)] w3) = (Inr (), w')"
    | recs x where "finish_sent dl (run_run_id r) recs body atts (clock 1)
        (record_metrics [MSize (email_size body atts)] w3\<lparr> w_sent := w_sent w3 @ [x] \<rparr>) = (Inr (), w')"
    unfolding deliver_def in_uow_recipients w_then_Inr
    by (auto simp: w_then_Inr send_mail_eq mailer Let_def simp del: One_nat_def split: if_splits)
  then show ?thesis
  proof cases
    case 1
    from finish_sent_Inr [OF _ this] sending save_fragments_same [OF save] show ?thesis by simp
  next
    case 2
    from finish_sent_Inr [OF _ this] sending save_fragments_same [OF save] show ?thesis by simp
  qed
qed


end
