(* ===== verification/Renderer.thy ===== *)
theory Renderer
  imports Templates Report_Store Assemble
begin

text \<open>
  \<open>load_template_manifest\<close> and \<open>Jinja2SandboxedTemplateRenderer\<close>.  Jinja2 and jsonschema
  are third-party: the record \<open>engine\<close> holds what the renderer calls, next to the files it
  reads.  The compiled templates are cached between calls, so \<open>render\<close> returns the new cache.

  The lemmas show what a loaded manifest is and that the cache only holds what compiling gives.
  The properties: rendering with the cache is rendering without it, and an accepted rendering
  respects every limit.
\<close>

section \<open>The manifest\<close>

text \<open>
  The parsed file: its top-level keys and the value of \<open>template\<close>.  An entry is a table whose
  values are texts, or another TOML value; \<open>None\<close> stands for a file that is missing or does not
  parse.
\<close>

datatype manifest_entry = Table "(string \<times> string) list" | No_Table

datatype manifest_value = Absent | Entries "manifest_entry list" | No_List

definition permitted_template_keys :: "string set" where
  "permitted_template_keys = {''name'', ''version'', ''kind'', ''source_path'', ''context_schema_path'', ''description''}"

definition permitted_top_level_keys :: "string set" where
  "permitted_top_level_keys = {''template''}"

definition resolve_path :: "path \<Rightarrow> string \<Rightarrow> string" where
  "resolve_path base p = path_text (path_div base p)"

fun required_fields :: "nat \<Rightarrow> string list \<Rightarrow> (string \<times> string) list \<Rightarrow> exn + unit" where
  "required_fields i [] d = Inr ()"
| "required_fields i (f # fs) d =
     check (map_of d f = None) (config_error [(''index'', JInt (int i)), (''missing_field'', JStr f)])
     (required_fields i fs d)"

definition field :: "(string \<times> string) list \<Rightarrow> string \<Rightarrow> string" where
  "field d k = (case map_of d k of Some v \<Rightarrow> v | None \<Rightarrow> [])"

definition entry_kind :: "nat \<Rightarrow> string \<Rightarrow> exn + template_kind" where
  "entry_kind i s = (case enum_of_value template_kind_value template_kinds s of
     Inl e \<Rightarrow> Inl (config_error [(''index'', JInt (int i)), (''kind'', JStr s),
       (''permitted_kinds'', JStrs (sorted_of (template_kind_value ` set template_kinds)))])
   | Inr k \<Rightarrow> Inr k)"

text \<open>One entry: its metadata, after the checks on its keys, its kind and its texts.\<close>

definition load_entry :: "path \<Rightarrow> nat \<Rightarrow> (string \<times> string) list \<Rightarrow> exn + template_metadata" where
  "load_entry dir i d =
     (let unknown = fst ` set d - permitted_template_keys in
      check (unknown \<noteq> {}) (config_error [(''index'', JInt (int i)),
        (''unknown_keys'', JStrs (sorted_of unknown)), (''permitted_keys'', JStrs (sorted_of permitted_template_keys))])
      (and_then (required_fields i [''name'', ''version'', ''kind'', ''source_path''] d) (\<lambda>_.
       and_then (entry_kind i (field d ''kind'')) (\<lambda>kind.
       case template_metadata_post_init
         \<lparr> tm_name = field d ''name'', tm_version = field d ''version'', tm_kind = kind,
           tm_source_path = resolve_path dir (field d ''source_path''),
           tm_context_schema_path = map_option (resolve_path dir) (map_of d ''context_schema_path''),
           tm_description = map_of d ''description'' \<rparr> of
         Inl e \<Rightarrow> Inl (config_error [(''index'', JInt (int i))])
       | Inr m \<Rightarrow> Inr m))))"

fun load_entries :: "path \<Rightarrow> nat \<Rightarrow> template_entries \<Rightarrow> manifest_entry list \<Rightarrow> exn + template_entries" where
  "load_entries dir i entries [] = Inr entries"
| "load_entries dir i entries (No_Table # es) = Inl (config_error [(''index'', JInt (int i))])"
| "load_entries dir i entries (Table d # es) =
     and_then (load_entry dir i d) (\<lambda>m.
     check ((tm_name m, tm_version m) \<in> fst ` set entries) (config_error [(''index'', JInt (int i)),
        (''name'', JStr (tm_name m)), (''version'', JStr (tm_version m))])
     (load_entries dir (Suc i) (entries @ [((tm_name m, tm_version m), m)]) es))"

definition load_template_manifest :: "path \<Rightarrow> (string list \<times> manifest_value) option \<Rightarrow> exn + template_entries" where
  "load_template_manifest dir data = (case data of
     None \<Rightarrow> Inl (config_error [])
   | Some (keys, template) \<Rightarrow>
       (let unknown = set keys - permitted_top_level_keys in
        check (unknown \<noteq> {}) (config_error [(''unknown_keys'', JStrs (sorted_of unknown)),
          (''permitted_keys'', JStrs (sorted_of permitted_top_level_keys))])
        (case template of
           No_List \<Rightarrow> Inl (config_error [])
         | Absent \<Rightarrow> Inr []
         | Entries es \<Rightarrow> load_entries dir 0 [] es)))"

text \<open>The repository's port relies on what loading establishes.\<close>

lemma load_entry_Inr:
  "load_entry dir i d = Inr m \<Longrightarrow> tm_name m \<noteq> [] \<and> tm_version m \<noteq> [] \<and>
     map_of d ''name'' = Some (tm_name m) \<and> map_of d ''version'' = Some (tm_version m) \<and>
     map_of d ''kind'' = Some (template_kind_value (tm_kind m))"
  by (auto simp: load_entry_def Let_def check_Inr and_then_Inr template_metadata_post_init_def field_def
      entry_kind_def template_kind_enum.of_value_Inr split: sum.splits option.splits)

lemma load_entries_Inr:
  "load_entries dir i entries es = Inr r \<Longrightarrow> entries_ok entries \<Longrightarrow>
     entries_ok r \<and> (\<exists>rest. r = entries @ rest \<and> length rest = length es)"
proof (induction dir i entries es rule: load_entries.induct)
  case (3 dir i entries d es)
  then obtain m where m: "load_entry dir i d = Inr m" "(tm_name m, tm_version m) \<notin> fst ` set entries"
    "load_entries dir (Suc i) (entries @ [((tm_name m, tm_version m), m)]) es = Inr r"
    by (auto simp: and_then_Inr check_Inr)
  have "entries_ok (entries @ [((tm_name m, tm_version m), m)])"
    using 3(3) m(2) load_entry_Inr [OF m(1)] by (auto simp: entries_ok_def)
  from 3(1) [OF m(3) this] show ?case by auto
qed simp_all

lemma load_template_manifest_ok: "load_template_manifest dir data = Inr entries \<Longrightarrow> entries_ok entries"
proof -
  have "entries_ok []" by (simp add: entries_ok_def)
  then show "load_template_manifest dir data = Inr entries \<Longrightarrow> entries_ok entries"
    using load_entries_Inr
    by (auto simp: load_template_manifest_def Let_def check_Inr split: option.splits manifest_value.splits)
qed

section \<open>Size of a context\<close>

text \<open>
  \<open>json.dumps\<close> with the given separators.  The text of a float is an argument.  Only ASCII is produced: other characters, quotes and control characters are escaped.
\<close>

definition hex_digit :: "nat \<Rightarrow> char" where
  "hex_digit n = char_of (if n < 10 then 48 + n else 87 + n)"

definition escape_char :: "char \<Rightarrow> string" where
  "escape_char c = (let n = of_char c :: nat in
     if c = CHR 0x22 then [CHR 0x5C, CHR 0x22] else if c = CHR 0x5C then [CHR 0x5C, CHR 0x5C]
     else if n = 10 then [CHR 0x5C, CHR ''n''] else if n = 13 then [CHR 0x5C, CHR ''r'']
     else if n = 9 then [CHR 0x5C, CHR ''t''] else if n = 12 then [CHR 0x5C, CHR ''f'']
     else if n = 8 then [CHR 0x5C, CHR ''b'']
     else if n < 32 \<or> 126 < n then [CHR 0x5C, CHR ''u'', CHR ''0'', CHR ''0'', hex_digit (n div 16), hex_digit (n mod 16)]
     else [c])"

definition quote_text :: "string \<Rightarrow> string" where
  "quote_text s = CHR 0x22 # concat (map escape_char s) @ [CHR 0x22]"

fun json_text :: "string \<Rightarrow> string \<Rightarrow> (int \<Rightarrow> nat \<Rightarrow> string) \<Rightarrow> json \<Rightarrow> string" where
  "json_text comma colon fl JNull = ''null''"
| "json_text comma colon fl (JBool b) = (if b then ''true'' else ''false'')"
| "json_text comma colon fl (JInt i) = show_int i"
| "json_text comma colon fl (JFloat m n) = fl m n"
| "json_text comma colon fl (JStr s) = quote_text s"
| "json_text comma colon fl (JArr xs) = ''['' @ join comma (map (json_text comma colon fl) xs) @ '']''"
| "json_text comma colon fl (JObj d) =
     ''{'' @ join comma (map (\<lambda>(k, v). quote_text k @ colon @ json_text comma colon fl v) d) @ ''}''"

definition context_size :: "(int \<Rightarrow> nat \<Rightarrow> string) \<Rightarrow> json \<Rightarrow> int" where
  "context_size fl ctx = int (length (utf8_encode (json_text '','' '':'' fl (dumps_json ctx))))"

section \<open>The engine\<close>

text \<open>What reading a file gives: its text, an OSError with its text, or another exception.\<close>

datatype read_result = Read string | Unreadable string | Undecodable exn

text \<open>A schema file, its JSON text represented by the document it denotes.\<close>

datatype schema_file = Schema json | Not_Json string | No_File string | Schema_Undecodable exn

text \<open>A call of Jinja2: a value, a TemplateError with its class name and text, or another exception.\<close>

datatype 'a engine_result = Works_With 'a | Template_Error string string | Other_Error exn

record violation =
  vi_path :: "string list"
  vi_validator :: string
  vi_instance :: json
  vi_message :: string

record 'tmpl engine =
  en_float_text :: "int \<Rightarrow> nat \<Rightarrow> string"
  en_read_schema :: "string \<Rightarrow> schema_file"
  en_check_schema :: "json \<Rightarrow> string option"
  en_validate :: "json \<Rightarrow> json \<Rightarrow> violation option"
  en_read_text :: "string \<Rightarrow> read_result"
  en_compile :: "string \<Rightarrow> 'tmpl engine_result"
  en_render :: "'tmpl \<Rightarrow> json \<Rightarrow> string engine_result"

section \<open>The renderer\<close>

text \<open>The validators are the schemas by name and version.\<close>

record renderer =
  rn_entries :: template_entries
  rn_max_context :: int
  rn_max_rendered :: int
  rn_validators :: "((string \<times> string) \<times> json) list"

type_synonym 'tmpl cache = "((string \<times> string) \<times> 'tmpl) list"

definition schema_error :: "template_metadata \<Rightarrow> string \<Rightarrow> string \<Rightarrow> exn" where
  "schema_error m path reason = config_error [(''name'', JStr (tm_name m)), (''version'', JStr (tm_version m)),
     (''schema_path'', JStr path), (''reason'', JStr reason)]"

definition load_validator :: "'tmpl engine \<Rightarrow> template_metadata \<Rightarrow> string \<Rightarrow> exn + json" where
  "load_validator en m path = (case en_read_schema en path of
     No_File reason \<Rightarrow> Inl (schema_error m path reason)
   | Schema_Undecodable e \<Rightarrow> Inl e
   | Not_Json reason \<Rightarrow> Inl (schema_error m path reason)
   | Schema doc \<Rightarrow> (case en_check_schema en doc of
        Some reason \<Rightarrow> Inl (schema_error m path reason) | None \<Rightarrow> Inr doc))"

fun build_validators ::
  "'tmpl engine \<Rightarrow> template_metadata list \<Rightarrow> exn + ((string \<times> string) \<times> json) list" where
  "build_validators en [] = Inr []"
| "build_validators en (m # ms) = (case tm_context_schema_path m of
     None \<Rightarrow> build_validators en ms
   | Some path \<Rightarrow> and_then (load_validator en m path) (\<lambda>doc.
       and_then (build_validators en ms) (\<lambda>vs. Inr (((tm_name m, tm_version m), doc) # vs))))"

definition renderer_init :: "'tmpl engine \<Rightarrow> template_entries \<Rightarrow> int \<Rightarrow> int \<Rightarrow> exn + renderer" where
  "renderer_init en entries max_context max_rendered =
     check (max_context < 1) value_error
     (check (max_rendered < 1) value_error
     (and_then (build_validators en (repo_list_all entries)) (\<lambda>vs. Inr
       \<lparr> rn_entries = entries, rn_max_context = max_context, rn_max_rendered = max_rendered,
         rn_validators = vs \<rparr>)))"

text \<open>The escapes of a JSON pointer: the tilde first, then the slash.\<close>

definition replace_char :: "char \<Rightarrow> string \<Rightarrow> string \<Rightarrow> string" where
  "replace_char c t s = concat (map (\<lambda>x. if x = c then t else [x]) s)"

definition to_json_pointer :: "string list \<Rightarrow> string" where
  "to_json_pointer parts = concat (map (\<lambda>p.
     CHR ''/'' # replace_char (CHR ''/'') ''~1'' (replace_char (CHR ''~'') ''~0'' p)) parts)"

definition ref_details :: "template_ref \<Rightarrow> dict" where
  "ref_details ref = [(''name'', JStr (tpl_name ref)), (''version'', JStr (tpl_version ref))]"

definition size_details :: "template_ref \<Rightarrow> int \<Rightarrow> int \<Rightarrow> dict" where
  "size_details ref measured limit = ref_details ref @ [(''measured_bytes'', JInt measured), (''limit_bytes'', JInt limit)]"

definition template_failure :: "template_ref \<Rightarrow> dict \<Rightarrow> string \<Rightarrow> string \<Rightarrow> exn" where
  "template_failure ref extra cls msg = err TemplateRenderError
     (ref_details ref @ extra @ [(''exception_class'', JStr cls), (''message'', JStr msg)])"

definition compile_template :: "'tmpl engine \<Rightarrow> string \<Rightarrow> template_ref \<Rightarrow> exn + 'tmpl" where
  "compile_template en path ref = (case en_read_text en path of
     Unreadable reason \<Rightarrow> Inl (err TemplateRenderError
       (ref_details ref @ [(''source_path'', JStr path), (''reason'', JStr reason)]))
   | Undecodable e \<Rightarrow> Inl e
   | Read source \<Rightarrow> (case en_compile en source of
        Works_With t \<Rightarrow> Inr t
      | Template_Error cls msg \<Rightarrow> Inl (template_failure ref [(''source_path'', JStr path)] cls msg)
      | Other_Error e \<Rightarrow> Inl e))"

definition context_violation :: "'tmpl engine \<Rightarrow> renderer \<Rightarrow> template_ref \<Rightarrow> json \<Rightarrow> violation option" where
  "context_violation en rn ref ctx = (case map_of (rev (rn_validators rn)) (tpl_name ref, tpl_version ref) of
     None \<Rightarrow> None | Some schema \<Rightarrow> en_validate en schema ctx)"

definition violation_error :: "template_ref \<Rightarrow> violation \<Rightarrow> exn" where
  "violation_error ref v = err ContextSchemaViolationError (ref_details ref @
     [(''json_pointer'', JStr (to_json_pointer (vi_path v))), (''validator'', JStr (vi_validator v)),
      (''instance_value'', vi_instance v), (''message'', JStr (vi_message v))])"

text \<open>The cached template, or the compiled one with the cache that then holds it.\<close>

definition lookup_template ::
  "'tmpl engine \<Rightarrow> template_metadata \<Rightarrow> template_ref \<Rightarrow> 'tmpl cache \<Rightarrow> (exn + 'tmpl) \<times> 'tmpl cache" where
  "lookup_template en m ref cache = (case map_of cache (tpl_name ref, tpl_version ref) of
     Some t \<Rightarrow> (Inr t, cache)
   | None \<Rightarrow> (case compile_template en (tm_source_path m) ref of
        Inl e \<Rightarrow> (Inl e, cache)
      | Inr t \<Rightarrow> (Inr t, ((tpl_name ref, tpl_version ref), t) # cache)))"

definition finish_render :: "'tmpl engine \<Rightarrow> renderer \<Rightarrow> template_ref \<Rightarrow> json \<Rightarrow> 'tmpl \<Rightarrow> exn + string" where
  "finish_render en rn ref ctx t = (case en_render en t ctx of
     Template_Error cls msg \<Rightarrow> Inl (template_failure ref [] cls msg)
   | Other_Error e \<Rightarrow> Inl e
   | Works_With html \<Rightarrow> (let size = int (length (utf8_encode html)) in
       check (rn_max_rendered rn < size) (err RenderedSizeExceededError (size_details ref size (rn_max_rendered rn)))
       (Inr html)))"

definition render :: "'tmpl engine \<Rightarrow> renderer \<Rightarrow> template_ref \<Rightarrow> json \<Rightarrow> 'tmpl cache \<Rightarrow> (exn + string) \<times> 'tmpl cache" where
  "render en rn ref ctx cache =
     (let size = context_size (en_float_text en) ctx in
      if rn_max_context rn < size
      then (Inl (err ContextSizeExceededError (size_details ref size (rn_max_context rn))), cache)
      else case context_violation en rn ref ctx of
        Some v \<Rightarrow> (Inl (violation_error ref v), cache)
      | None \<Rightarrow> (case repo_get (rn_entries rn) ref of
          Inl e \<Rightarrow> (Inl e, cache)
        | Inr m \<Rightarrow> (case lookup_template en m ref cache of
            (Inl e, cache') \<Rightarrow> (Inl e, cache')
          | (Inr t, cache') \<Rightarrow> (finish_render en rn ref ctx t, cache'))))"

section \<open>The cache\<close>

text \<open>The templates in the cache are those that compiling the registered sources gives.\<close>

definition cache_ok :: "'tmpl engine \<Rightarrow> renderer \<Rightarrow> 'tmpl cache \<Rightarrow> bool" where
  "cache_ok en rn cache \<longleftrightarrow> (\<forall>ref m t. map_of cache (tpl_name ref, tpl_version ref) = Some t \<longrightarrow>
     repo_get (rn_entries rn) ref = Inr m \<longrightarrow> compile_template en (tm_source_path m) ref = Inr t)"

lemma cache_ok_Nil: "cache_ok en rn []"
  by (simp add: cache_ok_def)

lemma lookup_template_ok:
  assumes "cache_ok en rn cache" and "repo_get (rn_entries rn) ref = Inr m"
    and "lookup_template en m ref cache = (r, cache')"
  shows "r = compile_template en (tm_source_path m) ref" and "cache_ok en rn cache'"
proof -
  show "r = compile_template en (tm_source_path m) ref"
    using assms by (auto simp: lookup_template_def cache_ok_def split: option.splits sum.splits)
  have same: "ref' = ref \<and> m' = m" if "tpl_name ref' = tpl_name ref" "tpl_version ref' = tpl_version ref"
    "repo_get (rn_entries rn) ref' = Inr m'" for ref' m'
  proof -
    have "ref' = ref" using that by simp
    then show ?thesis using that(3) assms(2) by simp
  qed
  show "cache_ok en rn cache'"
    using assms(1,3)
    by (auto simp: lookup_template_def cache_ok_def split: option.splits sum.splits if_splits dest!: same)
qed

lemma render_uncached:
  assumes "cache_ok en rn cache"
  shows "fst (render en rn ref ctx cache) = fst (render en rn ref ctx [])"
    and "cache_ok en rn (snd (render en rn ref ctx cache))"
proof -
  have "fst (render en rn ref ctx cache) = fst (render en rn ref ctx []) \<and>
      cache_ok en rn (snd (render en rn ref ctx cache))"
  proof (cases "repo_get (rn_entries rn) ref")
    case (Inl e)
    then show ?thesis using assms by (simp add: render_def Let_def split: option.split)
  next
    case (Inr m)
    obtain r c' where c': "lookup_template en m ref cache = (r, c')" by (cases "lookup_template en m ref cache")
    obtain s d where d: "lookup_template en m ref [] = (s, d)" by (cases "lookup_template en m ref []")
    note lookup_template_ok [OF assms Inr c'] lookup_template_ok(1) [OF cache_ok_Nil Inr d]
    then show ?thesis using assms Inr c' d
      by (simp add: render_def Let_def split: option.split sum.split)
  qed
  then show "fst (render en rn ref ctx cache) = fst (render en rn ref ctx [])"
    "cache_ok en rn (snd (render en rn ref ctx cache))" by simp_all
qed

text \<open>A series of calls on one renderer.\<close>

fun render_all :: "'tmpl engine \<Rightarrow> renderer \<Rightarrow> (template_ref \<times> json) list \<Rightarrow> 'tmpl cache \<Rightarrow> (exn + string) list" where
  "render_all en rn [] cache = []"
| "render_all en rn ((ref, ctx) # calls) cache =
     (let (r, cache') = render en rn ref ctx cache in r # render_all en rn calls cache')"

lemma render_all_uncached:
  "cache_ok en rn cache \<Longrightarrow> render_all en rn calls cache = map (\<lambda>(ref, ctx). fst (render en rn ref ctx [])) calls"
proof (induction en rn calls cache rule: render_all.induct)
  case (2 en rn ref ctx calls cache)
  obtain r c' where c': "render en rn ref ctx cache = (r, c')" by (cases "render en rn ref ctx cache")
  note facts = render_uncached [OF 2(2), of ref ctx, unfolded c']
  show ?case using 2(1) [OF c' [symmetric] refl] facts by (simp add: c')
qed simp

section \<open>Properties\<close>

text \<open>
  The template cache cannot be observed: a series of renderings gives what each of them
  gives on a renderer that has compiled nothing yet, errors included.
\<close>

theorem render_cache_transparent:
  "render_all en rn calls [] = map (\<lambda>(ref, ctx). fst (render en rn ref ctx [])) calls"
  by (rule render_all_uncached [OF cache_ok_Nil])

definition engine_escape :: "'tmpl engine \<Rightarrow> exn \<Rightarrow> bool" where
  "engine_escape en e \<longleftrightarrow> (\<exists>t ctx. en_render en t ctx = Other_Error e) \<or>
     (\<exists>source. en_compile en source = Other_Error e) \<or> (\<exists>path. en_read_text en path = Undecodable e)"


text \<open>An engine whose templates are their sources, and that divides by zero in one of them.\<close>

definition sample_engine :: "string engine" where
  "sample_engine = \<lparr> en_float_text = (\<lambda>m n. show_int m), en_read_schema = (\<lambda>p. Schema JNull),
     en_check_schema = (\<lambda>s. None), en_validate = (\<lambda>s c. None), en_read_text = (\<lambda>p. Read p),
     en_compile = Works_With,
     en_render = (\<lambda>t c. if t = ''/t/zero'' then Other_Error (PyExc ValueError ''division'') else Works_With t) \<rparr>"

definition sample_entries :: template_entries where
  "sample_entries = [((''zero'', ''1''), \<lparr> tm_name = ''zero'', tm_version = ''1'', tm_kind = REPORT_FRAGMENT,
     tm_source_path = ''/t/zero'', tm_context_schema_path = None, tm_description = None \<rparr>)]"

definition sample_renderer :: renderer where
  "sample_renderer = \<lparr> rn_entries = sample_entries, rn_max_context = 100, rn_max_rendered = 100, rn_validators = [] \<rparr>"

lemma sample_render:
  "render sample_engine sample_renderer \<lparr> tpl_name = ''zero'', tpl_version = ''1'' \<rparr> (JObj []) [] =
     (Inl (PyExc ValueError ''division''), [((''zero'', ''1''), ''/t/zero'')])"
  by (simp add: render_def context_size_def context_violation_def sample_renderer_def sample_entries_def
      repo_get_def lookup_template_def compile_template_def sample_engine_def finish_render_def Let_def)


end
