(* ===== verification/Grpc_Errors.thy ===== *)
theory Grpc_Errors
  imports Renderer
begin

text \<open>
  \<open>interfaces/grpc/error_mapping.py\<close> and the redaction of \<open>observability/logging_setup.py\<close>: how an
  exception becomes the status, the message and the trailing metadata of an aborted call.
  Texts are lists of code points, so that cutting UTF-8 in the middle of a character is as in the
  code.

  The lemmas relate the decoder to prefixes of a text.  The properties: what every client sees is
  bounded in size, and no value under a sensitive key reaches it.
\<close>

section \<open>UTF-8\<close>

type_synonym code_points = "nat list"

definition points :: "string \<Rightarrow> code_points" where
  "points s = map of_char s"

definition utf8_char :: "nat \<Rightarrow> nat list" where
  "utf8_char c =
     (if c < 128 then [c]
      else if c < 2048 then [192 + c div 64, 128 + c mod 64]
      else if c < 65536 then [224 + c div 4096, 128 + c div 64 mod 64, 128 + c mod 64]
      else [240 + c div 262144, 128 + c div 4096 mod 64, 128 + c div 64 mod 64, 128 + c mod 64])"

definition utf8 :: "code_points \<Rightarrow> nat list" where
  "utf8 s = concat (map utf8_char s)"

text \<open>\<open>decode("utf-8", errors="ignore")\<close>: a byte that starts no complete sequence is skipped.\<close>

definition lead_length :: "nat \<Rightarrow> nat" where
  "lead_length b = (if b < 128 then 1 else if b < 194 then 0 else if b < 224 then 2
     else if b < 240 then 3 else if b < 245 then 4 else 0)"

definition continuation :: "nat \<Rightarrow> bool" where
  "continuation b \<longleftrightarrow> 128 \<le> b \<and> b < 192"

definition join_bytes :: "nat \<Rightarrow> nat list \<Rightarrow> nat" where
  "join_bytes b bs = foldl (\<lambda>a c. a * 64 + (c - 128))
     (case length bs of 0 \<Rightarrow> b | Suc 0 \<Rightarrow> b - 192 | Suc (Suc 0) \<Rightarrow> b - 224 | _ \<Rightarrow> b - 240) bs"

function decode_ignore :: "nat list \<Rightarrow> code_points" where
  "decode_ignore [] = []"
| "decode_ignore (b # bs) = (let n = lead_length b; cs = take (n - 1) bs in
     if 0 < n \<and> length cs = n - 1 \<and> list_all continuation cs
     then join_bytes b cs # decode_ignore (drop (n - 1) bs) else decode_ignore bs)"
  by pat_completeness auto
termination
  by (relation "measure length") auto

declare decode_ignore.simps(2) [simp del]

definition unicode :: "code_points \<Rightarrow> bool" where
  "unicode s \<longleftrightarrow> (\<forall>c \<in> set s. c < 1114112)"

lemma unicode_points: "unicode (points s)"
proof -
  have "(of_char c :: nat) < 1114112" for c :: char by (rule order_less_trans [of _ 256]) simp_all
  then show ?thesis by (auto simp: unicode_def points_def)
qed

lemma length_utf8_char: "1 \<le> length (utf8_char c)" "length (utf8_char c) \<le> 4"
  by (simp_all add: utf8_char_def)

text \<open>A character is decoded from its own bytes; a part of them decodes to nothing.\<close>

lemma decode_sequence:
  "lead_length b = Suc (length cs) \<Longrightarrow> list_all continuation cs \<Longrightarrow>
     decode_ignore (b # cs @ bs) = join_bytes b cs # decode_ignore bs"
  by (simp add: decode_ignore.simps(2))

lemma continuation_tail: "continuation (128 + x mod 64)"
  by (simp add: continuation_def)

lemma join_bytes_simps:
  "join_bytes b [] = b" "join_bytes (192 + q) [128 + x] = q * 64 + x"
  "join_bytes (224 + q) [128 + x, 128 + y] = (q * 64 + x) * 64 + y"
  "join_bytes (240 + q) [128 + x, 128 + y, 128 + z] = ((q * 64 + x) * 64 + y) * 64 + z"
  by (simp_all add: join_bytes_def)

lemma div_64_64: "c div 4096 = c div 64 div (64::nat)" "c div 262144 = c div 64 div 64 div (64::nat)"
  by (simp_all add: div_mult2_eq [symmetric])

lemma utf8_char_parts:
  assumes "c < 1114112"
  obtains b cs where "utf8_char c = b # cs" and "lead_length b = Suc (length cs)"
    and "list_all continuation cs" and "join_bytes b cs = c"
proof -
  consider "c < 128" | "128 \<le> c" "c < 2048" | "2048 \<le> c" "c < 65536" | "65536 \<le> c" by linarith
  then show ?thesis
  proof cases
    case 1
    then show ?thesis using that [of c "[]"] by (simp add: utf8_char_def lead_length_def join_bytes_simps)
  next
    case 2
    have "194 \<le> 192 + c div 64" "192 + c div 64 < 224" using 2 by linarith+
    then have "lead_length (192 + c div 64) = 2" by (simp add: lead_length_def)
    then show ?thesis
      using 2 that [of "192 + c div 64" "[128 + c mod 64]"] continuation_tail
      by (simp add: utf8_char_def join_bytes_simps)
  next
    case 3
    have "224 + c div 4096 < 240" using 3 by linarith
    then have "lead_length (224 + c div 4096) = 3" by (simp add: lead_length_def)
    moreover have "(c div 4096 * 64 + c div 64 mod 64) * 64 + c mod 64 = c"
      unfolding div_64_64 by (simp only: div_mult_mod_eq)
    ultimately show ?thesis
      using 3 that [of "224 + c div 4096" "[128 + c div 64 mod 64, 128 + c mod 64]"] continuation_tail
      by (simp add: utf8_char_def join_bytes_simps)
  next
    case 4
    have "240 + c div 262144 < 245" using assms by linarith
    then have "lead_length (240 + c div 262144) = 4" by (simp add: lead_length_def)
    moreover have "((c div 262144 * 64 + c div 4096 mod 64) * 64 + c div 64 mod 64) * 64 + c mod 64 = c"
      unfolding div_64_64 by (simp only: div_mult_mod_eq)
    ultimately show ?thesis
      using 4 that [of "240 + c div 262144" "[128 + c div 4096 mod 64, 128 + c div 64 mod 64, 128 + c mod 64]"]
        continuation_tail
      by (simp add: utf8_char_def join_bytes_simps)
  qed
qed

lemma decode_char:
  assumes "c < 1114112" shows "decode_ignore (utf8_char c @ bs) = c # decode_ignore bs"
  using utf8_char_parts [OF assms] decode_sequence by (metis append_Cons)

lemma decode_continuations: "list_all continuation bs \<Longrightarrow> decode_ignore bs = []"
  by (induction bs) (auto simp: decode_ignore.simps(2) lead_length_def continuation_def)

lemma decode_cut:
  assumes "k < length (utf8_char c)" and "c < 1114112"
  shows "decode_ignore (take k (utf8_char c)) = []"
proof (cases k)
  case (Suc j)
  obtain b cs where bs: "utf8_char c = b # cs" and cs: "lead_length b = Suc (length cs)" "list_all continuation cs"
    using utf8_char_parts [OF assms(2)] by metis
  have "list_all continuation (take j cs)" using cs(2) by (meson list_all_iff in_set_takeD)
  then have "decode_ignore (take j cs) = []" by (rule decode_continuations)
  moreover have "length (take (length cs) (take j cs)) \<noteq> length cs" using assms(1) Suc bs by simp
  ultimately show ?thesis using cs(1) by (auto simp: Suc bs decode_ignore.simps(2) Let_def)
qed simp

text \<open>Cutting the bytes and decoding gives the longest prefix of the text that fits.\<close>

fun fit :: "nat \<Rightarrow> code_points \<Rightarrow> code_points" where
  "fit k [] = []"
| "fit k (c # cs) = (if length (utf8_char c) \<le> k then c # fit (k - length (utf8_char c)) cs else [])"

lemma decode_take: "unicode s \<Longrightarrow> decode_ignore (take k (utf8 s)) = fit k s"
proof (induction s arbitrary: k)
  case Nil
  then show ?case by (simp add: utf8_def)
next
  case (Cons c cs)
  then have c: "c < 1114112" and cs: "unicode cs" by (auto simp: unicode_def)
  show ?case
  proof (cases "length (utf8_char c) \<le> k")
    case True
    then show ?thesis
      using decode_char [OF c, of "take (k - length (utf8_char c)) (utf8 cs)"] Cons.IH [OF cs]
      by (simp add: utf8_def)
  next
    case False
    then show ?thesis using decode_cut [OF _ c, of k] by (simp add: utf8_def)
  qed
qed

lemma length_utf8_fit: "length (utf8 (fit k s)) \<le> k"
  by (induction k s rule: fit.induct) (auto simp: utf8_def)

lemma fit_prefix: "\<exists>rest. s = fit k s @ rest"
  by (induction k s rule: fit.induct) auto

lemma utf8_append [simp]: "utf8 (s @ t) = utf8 s @ utf8 t"
  by (simp add: utf8_def)

section \<open>Size bounds\<close>

definition max_metadata_value_bytes :: nat where
  "max_metadata_value_bytes = 1024"

definition max_metadata_total_bytes :: nat where
  "max_metadata_total_bytes = 4096"

definition max_message_bytes :: nat where
  "max_message_bytes = 2048"

definition truncation_marker :: code_points where
  "truncation_marker = 8230 # points ''[truncated]''"

definition truncate_message :: "code_points \<Rightarrow> code_points" where
  "truncate_message message = (let encoded = utf8 message in
     if length encoded \<le> max_message_bytes then message
     else decode_ignore (take max_message_bytes encoded) @ truncation_marker)"

definition value_text :: "(int \<Rightarrow> nat \<Rightarrow> string) \<Rightarrow> json \<Rightarrow> code_points" where
  "value_text fl v = points (case v of JStr s \<Rightarrow> s | _ \<Rightarrow> json_text '', '' '': '' fl v)"

text \<open>The text of one value, with whether it was cut.\<close>

definition bounded_value :: "(int \<Rightarrow> nat \<Rightarrow> string) \<Rightarrow> json \<Rightarrow> code_points \<times> bool" where
  "bounded_value fl v = (let text = value_text fl v; encoded = utf8 text in
     if max_metadata_value_bytes < length encoded
     then (decode_ignore (take max_metadata_value_bytes encoded) @ truncation_marker, True)
     else (text, False))"

fun stringify_loop ::
  "(int \<Rightarrow> nat \<Rightarrow> string) \<Rightarrow> nat \<Rightarrow> (string \<times> json) list \<Rightarrow> (string \<times> code_points) list \<times> bool" where
  "stringify_loop fl used [] = ([], False)"
| "stringify_loop fl used ((k, v) # es) =
     (let (text, cut) = bounded_value fl v; field_bytes = length (utf8 text) in
      if max_metadata_total_bytes < used + field_bytes
      then (fst (stringify_loop fl used es), True)
      else (let (fields, truncated) = stringify_loop fl (used + field_bytes) es in
            ((k, text) # fields, cut \<or> truncated)))"

definition stringify :: "(int \<Rightarrow> nat \<Rightarrow> string) \<Rightarrow> dict \<Rightarrow> (string \<times> code_points) list" where
  "stringify fl details = (let (fields, truncated) = stringify_loop fl 0 (sort_key fst details) in
     if truncated then filter (\<lambda>(k, _). k \<noteq> ''_truncated'') fields @ [(''_truncated'', points ''true'')] else fields)"

section \<open>Redaction\<close>

definition sensitive_field_names :: "string set" where
  "sensitive_field_names = {''password'', ''passwd'', ''password_hash'', ''pwd'', ''secret'', ''smtp_password'',
     ''session_token'', ''cookie'', ''authorization'', ''email_body'', ''rendered_output'', ''template_context'',
     ''instance_value''}"

definition redacted_placeholder :: string where
  "redacted_placeholder = ''<redacted>''"

text \<open>\<open>key.lower()\<close>; only ASCII letters matter, the names are ASCII.\<close>

definition lower_char :: "char \<Rightarrow> char" where
  "lower_char c = (if is_upper c then char_of (of_char c + (32 :: nat)) else c)"

definition sensitive :: "string \<Rightarrow> bool" where
  "sensitive key \<longleftrightarrow> map lower_char key \<in> sensitive_field_names"

fun redact_value :: "json \<Rightarrow> json" where
  "redact_value (JObj d) = JObj (map (\<lambda>(k, v).
     (k, if sensitive k then JStr redacted_placeholder else redact_value v)) d)"
| "redact_value (JArr xs) = JArr (map redact_value xs)"
| "redact_value v = v"

definition redact_sensitive_keys :: "dict \<Rightarrow> dict" where
  "redact_sensitive_keys d = map (\<lambda>(k, v).
     (k, if sensitive k then JStr redacted_placeholder else redact_value v)) d"

section \<open>The status of an error\<close>

datatype grpc_code = INVALID_ARGUMENT | NOT_FOUND | FAILED_PRECONDITION | INTERNAL | RESOURCE_EXHAUSTED

text \<open>The packed status: \<open>google.rpc.Status\<close> with one \<open>ErrorInfo\<close>.\<close>

record status_details =
  sd_code :: grpc_code
  sd_message :: code_points
  sd_reason :: string
  sd_domain :: string
  sd_metadata :: "(string \<times> code_points) list"

record abort =
  ab_code :: grpc_code
  ab_details :: code_points
  ab_error_code :: "string option"
  ab_correlation_id :: "string option"
  ab_status :: status_details

definition error_info_domain :: string where
  "error_info_domain = ''message-service''"

definition status_details_bin ::
  "(int \<Rightarrow> nat \<Rightarrow> string) \<Rightarrow> grpc_code \<Rightarrow> code_points \<Rightarrow> string \<Rightarrow> dict \<Rightarrow> status_details" where
  "status_details_bin fl code message reason details =
     \<lparr> sd_code = code, sd_message = truncate_message message, sd_reason = reason,
       sd_domain = error_info_domain, sd_metadata = stringify fl details \<rparr>"

definition status_code_for :: "err_class \<Rightarrow> grpc_code" where
  "status_code_for c =
     (if isinstance c ValidationError then INVALID_ARGUMENT
      else if isinstance c NotFoundError then NOT_FOUND
      else if isinstance c PreconditionError then FAILED_PRECONDITION
      else INTERNAL)"

text \<open>The problems of a pydantic error: the location of each and its type.\<close>

definition malformed_from_pydantic :: "(string list \<times> string) list \<Rightarrow> exn" where
  "malformed_from_pydantic problems = Err MalformedRequestError ''request validation failed''
     [(''validation_errors'', JArr (map (\<lambda>(loc, typ).
        JObj [(''field'', JStr (join ''.'' loc)), (''error'', JStr typ)]) problems))]"

definition translate_known :: "(int \<Rightarrow> nat \<Rightarrow> string) \<Rightarrow> err_class \<Rightarrow> string \<Rightarrow> dict \<Rightarrow> abort" where
  "translate_known fl c message details =
     (let status = status_code_for c; safe_details = redact_sensitive_keys details in
      \<lparr> ab_code = status, ab_details = truncate_message (points message),
        ab_error_code = Some (error_code c), ab_correlation_id = None,
        ab_status = status_details_bin fl status (points message) (error_code c) safe_details \<rparr>)"

definition translate_unexpected :: "(int \<Rightarrow> nat \<Rightarrow> string) \<Rightarrow> string \<Rightarrow> abort" where
  "translate_unexpected fl correlation_id =
     (let public_message = points (''internal error (correlation id: '' @ correlation_id @ '')'') in
      \<lparr> ab_code = INTERNAL, ab_details = public_message,
        ab_error_code = Some ''ERROR_CODE_INTERNAL'', ab_correlation_id = Some correlation_id,
        ab_status = status_details_bin fl INTERNAL public_message ''ERROR_CODE_INTERNAL''
          [(''correlation_id'', JStr correlation_id)] \<rparr>)"

text \<open>
  The translation; a cancellation is raised again.  A pydantic error is already the
  MalformedRequestError it is translated to (\<open>malformed_from_pydantic\<close>).
\<close>

fun translate_to_grpc_status :: "(int \<Rightarrow> nat \<Rightarrow> string) \<Rightarrow> string \<Rightarrow> exn \<Rightarrow> exn + abort" where
  "translate_to_grpc_status fl correlation_id (Err c message details) = Inr (translate_known fl c message details)"
| "translate_to_grpc_status fl correlation_id (PyExc p message) =
     (if p = CancelledError then Inl (PyExc p message) else Inr (translate_unexpected fl correlation_id))"

section \<open>What the bounds give\<close>

lemma length_marker: "length (utf8 truncation_marker) = 14"
  by (simp add: truncation_marker_def utf8_def points_def utf8_char_def)

lemma unicode_value: "unicode (value_text fl v)"
  by (simp add: value_text_def unicode_points)

lemma length_points: "length (utf8 (points s)) \<le> 2 * length s"
proof (induction s)
  case (Cons c s)
  define n :: nat where "n = of_char c"
  have "n < 256" by (simp add: n_def)
  then have "length (utf8_char n) \<le> 2" by (simp add: utf8_char_def)
  with Cons show ?case by (simp add: points_def utf8_def n_def)
qed (simp add: points_def utf8_def)

lemma truncate_message_length:
  assumes "unicode m" shows "length (utf8 (truncate_message m)) \<le> 2062"
  using length_utf8_fit [of max_message_bytes m] length_marker
  by (simp add: truncate_message_def Let_def decode_take [OF assms] max_message_bytes_def)

lemma bounded_value_fit:
  "bounded_value fl v = (if length (utf8 (value_text fl v)) \<le> 1024 then (value_text fl v, False)
     else (fit 1024 (value_text fl v) @ truncation_marker, True))"
  by (simp add: bounded_value_def Let_def decode_take [OF unicode_value] max_metadata_value_bytes_def)

lemma bounded_value_length: "length (utf8 (fst (bounded_value fl v))) \<le> 1038"
  using length_utf8_fit [of 1024 "value_text fl v"] length_marker by (simp add: bounded_value_fit)

definition value_bytes :: "(string \<times> code_points) list \<Rightarrow> nat" where
  "value_bytes fs = sum_list (map (\<lambda>(k, t). length (utf8 t)) fs)"

lemma stringify_loop_bounded:
  "used \<le> 4096 \<Longrightarrow> used + value_bytes (fst (stringify_loop fl used es)) \<le> 4096 \<and>
     (\<forall>(k, t) \<in> set (fst (stringify_loop fl used es)). length (utf8 t) \<le> 1038)"
proof (induction fl used es rule: stringify_loop.induct)
  case (2 fl used k v es)
  obtain t cut where t: "bounded_value fl v = (t, cut)" by (cases "bounded_value fl v")
  have len: "length (utf8 t) \<le> 1038" using bounded_value_length [of fl v] t by simp
  show ?case
  proof (cases "4096 < used + length (utf8 t)")
    case True
    then show ?thesis using 2(1) [OF t [symmetric] refl] 2(3) by (simp add: t max_metadata_total_bytes_def)
  next
    case False
    then show ?thesis
      using 2(2) [OF t [symmetric] refl] len
      by (auto simp: t max_metadata_total_bytes_def value_bytes_def split_beta Let_def)
  qed
qed (simp_all add: value_bytes_def)

lemma value_bytes_filter: "value_bytes (filter P fs) \<le> value_bytes fs"
  by (induction fs) (auto simp: value_bytes_def)

lemma stringify_bounded:
  "value_bytes (stringify fl details) \<le> 4100" "(k, t) \<in> set (stringify fl details) \<Longrightarrow> length (utf8 t) \<le> 1038"
proof -
  obtain fs cut where loop: "stringify_loop fl 0 (sort_key fst details) = (fs, cut)"
    by (cases "stringify_loop fl 0 (sort_key fst details)")
  have b: "value_bytes fs \<le> 4096" "\<forall>(k, t) \<in> set fs. length (utf8 t) \<le> 1038"
    using stringify_loop_bounded [of 0 fl "sort_key fst details"] loop by simp_all
  have true: "length (utf8 (points ''true'')) = 4" by (simp add: points_def utf8_def utf8_char_def)
  have "value_bytes (filter (\<lambda>(k, _). k \<noteq> ''_truncated'') fs) \<le> 4096"
    using value_bytes_filter b(1) by (rule order_trans)
  then show "value_bytes (stringify fl details) \<le> 4100"
    using b(1) true by (simp add: stringify_def loop) (simp add: value_bytes_def)
  show "(k, t) \<in> set (stringify fl details) \<Longrightarrow> length (utf8 t) \<le> 1038"
    using b(2) true by (auto simp: stringify_def loop split: if_splits)
qed

text \<open>Small details arrive in full.\<close>

lemma stringify_loop_full:
  "(\<forall>(k, v) \<in> set es. length (utf8 (value_text fl v)) \<le> 1024) \<Longrightarrow>
   used + value_bytes (map (\<lambda>(k, v). (k, value_text fl v)) es) \<le> 4096 \<Longrightarrow>
   stringify_loop fl used es = (map (\<lambda>(k, v). (k, value_text fl v)) es, False)"
proof (induction fl used es rule: stringify_loop.induct)
  case (2 fl used k v es)
  let ?t = "value_text fl v"
  have t: "bounded_value fl v = (?t, False)" using 2(3) by (simp add: bounded_value_fit)
  have fits: "\<not> max_metadata_total_bytes < used + length (utf8 ?t)"
    using 2(4) by (simp add: max_metadata_total_bytes_def value_bytes_def)
  have "stringify_loop fl (used + length (utf8 ?t)) es = (map (\<lambda>(k, v). (k, value_text fl v)) es, False)"
    using 2(2) [OF refl t [symmetric] refl fits] 2(3,4) by (simp add: value_bytes_def)
  then show ?case using fits by (simp add: t)
qed simp

lemma redact_keys: "map fst (redact_sensitive_keys d) = map fst d"
  by (induction d) (auto simp: redact_sensitive_keys_def)

section \<open>Properties\<close>

text \<open>
  C38: what an aborted call sends is bounded, whatever the caller put into its request: the status
  message and the message in the packed status stay within 2062 bytes, every value of the packed
  metadata within 1038 bytes, and all of them together within 4100.
\<close>

theorem abort_bounded:
  assumes "translate_to_grpc_status fl corr e = Inr a" and "length corr \<le> 32"
  shows "length (utf8 (ab_details a)) \<le> 2062 \<and> length (utf8 (sd_message (ab_status a))) \<le> 2062 \<and>
    (\<forall>(k, t) \<in> set (sd_metadata (ab_status a)). length (utf8 t) \<le> 1038) \<and>
    value_bytes (sd_metadata (ab_status a)) \<le> 4100"
proof (cases e)
  case (Err c message details)
  then have "a = translate_known fl c message details" using assms(1) by simp
  then show ?thesis
    using truncate_message_length [OF unicode_points, of message] stringify_bounded
    by (auto simp: translate_known_def Let_def status_details_bin_def)
next
  case (PyExc p message)
  then have a: "a = translate_unexpected fl corr" using assms(1) by (simp split: if_splits)
  let ?text = "''internal error (correlation id: '' @ corr @ '')''"
  have "length ?text \<le> 65" using assms(2) by simp
  then have "length (utf8 (points ?text)) \<le> 2062" using length_points [of ?text] by linarith
  then show ?thesis
    using truncate_message_length [OF unicode_points, of ?text] stringify_bounded
    by (auto simp: a translate_unexpected_def Let_def status_details_bin_def)
qed

text \<open>Details that differ only in values under sensitive keys, at any depth.\<close>

inductive same_public :: "json \<Rightarrow> json \<Rightarrow> bool" where
  same_value: "same_public v v"
| same_array: "list_all2 same_public xs ys \<Longrightarrow> same_public (JArr xs) (JArr ys)"
| same_object: "list_all2 (\<lambda>p q. fst q = fst p \<and> (sensitive (fst p) \<or> same_public (snd p) (snd q))) d d' \<Longrightarrow>
    same_public (JObj d) (JObj d')"

lemma same_public_redact: "same_public v v' \<Longrightarrow> redact_value v = redact_value v'"
proof (induction rule: same_public.induct)
  case (same_array xs ys)
  then have "map redact_value xs = map redact_value ys"
    by (induction rule: list_all2_induct) auto
  then show ?case by simp
next
  case (same_object d d')
  then have "map (\<lambda>(k, v). (k, if sensitive k then JStr redacted_placeholder else redact_value v)) d =
      map (\<lambda>(k, v). (k, if sensitive k then JStr redacted_placeholder else redact_value v)) d'"
    by (induction rule: list_all2_induct) auto
  then show ?case by simp
qed simp

text \<open>
  C37: no value under a sensitive key can be seen by the client: two errors of the same class and
  message whose details differ only in such values, at any depth, abort the call in the same way.
\<close>

theorem abort_hides_sensitive:
  assumes "same_public (JObj details) (JObj details')"
  shows "translate_to_grpc_status fl corr (Err c message details) =
    translate_to_grpc_status fl corr (Err c message details')"
proof -
  have "redact_sensitive_keys details = redact_sensitive_keys details'"
    using same_public_redact [OF assms] by (simp add: redact_sensitive_keys_def)
  then show ?thesis by (simp add: translate_known_def)
qed

theorem abort_hides_sensitive_witness:
  "translate_to_grpc_status (\<lambda>m n. []) ''c'' (Err ContextSchemaViolationError [] [(''Instance_Value'', JStr ''secret'')]) =
   translate_to_grpc_status (\<lambda>m n. []) ''c'' (Err ContextSchemaViolationError [] [(''Instance_Value'', JInt 7)])"
proof (rule abort_hides_sensitive)
  have "sensitive ''Instance_Value''"
    by code_simp
  then show "same_public (JObj [(''Instance_Value'', JStr ''secret'')]) (JObj [(''Instance_Value'', JInt 7)])"
    by (intro same_object) simp
qed

theorem abort_bounded_witness:
  "length (utf8 (ab_details (translate_unexpected (\<lambda>m n. []) ''c''))) \<le> 2062"
  using abort_bounded [of "\<lambda>m n. []" "''c''" "PyExc ValueError []" "translate_unexpected (\<lambda>m n. []) ''c''"] by simp

end
