(* ===== verification/Grpc.thy ===== *)
theory Grpc
  imports Grpc_Errors
begin

text \<open>
  The gRPC interface: the conversions and the three calls of \<open>servicer.py\<close>, and the
  concurrency limit of \<open>concurrency_limit_interceptor.py\<close>.  The numbers of the enum values come from
  the generated protocol package, pydantic and protobuf are third-party: all are arguments.

  The properties: what an aborted call leaves and which status it has, and that the number of
  calls in progress never exceeds the limit.
\<close>

section \<open>Conversions\<close>

record proto =
  pb_mode_unspecified :: int
  pb_mode_single_aggregated :: int
  pb_mode_per_stage :: int
  pb_position_unspecified :: int
  pb_position_before :: int
  pb_position_after :: int

definition enum_lookup :: "(int \<times> 'a) list \<Rightarrow> string \<Rightarrow> int \<Rightarrow> exn + 'a" where
  "enum_lookup codes field_name n = (case map_of (rev codes) n of
     Some x \<Rightarrow> Inr x
   | None \<Rightarrow> Inl (err MalformedRequestError [(''field'', JStr field_name), (''value'', JInt n)]))"

definition attachment_mode_to_domain :: "proto \<Rightarrow> int \<Rightarrow> exn + attachment_mode" where
  "attachment_mode_to_domain pb n =
     (if n = pb_mode_unspecified pb then Inr SINGLE_AGGREGATED
      else enum_lookup [(pb_mode_single_aggregated pb, SINGLE_AGGREGATED), (pb_mode_per_stage pb, PER_STAGE)]
        ''attachment_mode'' n)"

definition email_body_position_to_domain :: "proto \<Rightarrow> int \<Rightarrow> exn + email_body_position" where
  "email_body_position_to_domain pb n =
     (if n = pb_position_unspecified pb then Inr AFTER_STAGES_SUMMARY
      else enum_lookup [(pb_position_before pb, BEFORE_STAGES_SUMMARY), (pb_position_after pb, AFTER_STAGES_SUMMARY)]
        ''email_body_position'' n)"

text \<open>Numbers of a protobuf Struct are doubles; the whole ones become ints.\<close>

fun demote_integral_floats :: "json \<Rightarrow> json" where
  "demote_integral_floats (JFloat m n) = (if m mod 2 ^ n = 0 then JInt (m div 2 ^ n) else JFloat m n)"
| "demote_integral_floats (JObj d) = JObj (map (\<lambda>(k, v). (k, demote_integral_floats v)) d)"
| "demote_integral_floats (JArr xs) = JArr (map demote_integral_floats xs)"
| "demote_integral_floats v = v"

definition struct_to_dict :: "('struct \<Rightarrow> exn + dict) \<Rightarrow> 'struct \<Rightarrow> exn + dict" where
  "struct_to_dict message_to_dict s = and_then (message_to_dict s) (\<lambda>d.
     Inr (map (\<lambda>(k, v). (k, demote_integral_floats v)) d))"

text \<open>\<open>Timestamp.FromDatetime\<close>: seconds and nanoseconds.\<close>

definition timestamp_from_datetime :: "int \<Rightarrow> int \<times> int" where
  "timestamp_from_datetime us = (us div 1000000, us mod 1000000 * 1000)"

record pb_template_ref =
  pt_name :: string
  pt_version :: string

definition has_template_ref :: "pb_template_ref \<Rightarrow> bool" where
  "has_template_ref tr \<longleftrightarrow> pt_name tr \<noteq> [] \<or> pt_version tr \<noteq> []"

definition template_ref_to_domain :: "pb_template_ref \<Rightarrow> exn + template_ref" where
  "template_ref_to_domain tr = (case template_ref_post_init \<lparr> tpl_name = pt_name tr, tpl_version = pt_version tr \<rparr> of
     Inl e \<Rightarrow> Inl (err MalformedRequestError [(''name'', JStr (pt_name tr)), (''version'', JStr (pt_version tr))])
   | Inr r \<Rightarrow> Inr r)"

section \<open>Requests and commands\<close>

record pb_declared_stage =
  pd_stage_id :: string
  pd_stage_order :: int
  pd_report_template :: pb_template_ref

record begin_run_request =
  bq_pipeline_type :: string
  bq_run_tags :: "string list"
  bq_declared_stages :: "pb_declared_stage list"
  bq_attachment_mode :: int
  bq_aggregation_template :: pb_template_ref

record 'struct submit_request =
  sq_run_id :: string
  sq_stage_id :: string
  sq_report_contribution :: "'struct option"
  sq_email_body_contribution :: "('struct \<times> int) option"

text \<open>
  A command model checks its fields.  The problems pydantic reports for a rejected model are an
  argument: location and type of each.
\<close>

record problem_reports =
  pr_declared :: "declared_stage_input \<Rightarrow> (string list \<times> string) list"
  pr_begin :: "begin_run_command \<Rightarrow> (string list \<times> string) list"
  pr_submit :: "submit_command \<Rightarrow> (string list \<times> string) list"
  pr_finalize :: "string \<Rightarrow> (string list \<times> string) list"

definition declared_input :: "problem_reports \<Rightarrow> pb_declared_stage \<Rightarrow> exn + declared_stage_input" where
  "declared_input pr ds = and_then (template_ref_to_domain (pd_report_template ds)) (\<lambda>ref.
     let d = \<lparr> dsi_stage_id = pd_stage_id ds, dsi_stage_order = pd_stage_order ds, dsi_template_ref = ref \<rparr> in
     check (pd_stage_id ds = [] \<or> pd_stage_order ds < 0) (malformed_from_pydantic (pr_declared pr d)) (Inr d))"

definition begin_command :: "proto \<Rightarrow> problem_reports \<Rightarrow> begin_run_request \<Rightarrow> exn + begin_run_command" where
  "begin_command pb pr req =
     and_then (attachment_mode_to_domain pb (bq_attachment_mode req)) (\<lambda>mode.
     and_then (map_res (declared_input pr) (bq_declared_stages req)) (\<lambda>declared.
     and_then (if has_template_ref (bq_aggregation_template req)
               then and_then (template_ref_to_domain (bq_aggregation_template req)) (\<lambda>r. Inr (Some r))
               else Inr None) (\<lambda>aggregation_ref.
     let cmd = \<lparr> br_pipeline_type = bq_pipeline_type req, br_tags = set (bq_run_tags req),
           br_declared_stages = declared, br_attachment_mode = mode, br_aggregation_ref = aggregation_ref \<rparr> in
     check (bq_pipeline_type req = []) (malformed_from_pydantic (pr_begin pr cmd)) (Inr cmd))))"

definition submit_command_of ::
  "('struct \<Rightarrow> exn + dict) \<Rightarrow> proto \<Rightarrow> problem_reports \<Rightarrow> 'struct submit_request \<Rightarrow> exn + submit_command" where
  "submit_command_of message_to_dict pb pr req =
     and_then (case sq_report_contribution req of
         None \<Rightarrow> Inr None
       | Some s \<Rightarrow> and_then (struct_to_dict message_to_dict s) (\<lambda>d. Inr (Some d))) (\<lambda>report_ctx.
     and_then (case sq_email_body_contribution req of
         None \<Rightarrow> Inr (None, None)
       | Some (s, position) \<Rightarrow> and_then (struct_to_dict message_to_dict s) (\<lambda>d.
           and_then (email_body_position_to_domain pb position) (\<lambda>p. Inr (Some d, Some p)))) (\<lambda>(body_ctx, body_position).
     let cmd = \<lparr> sc_run_id = sq_run_id req, sc_stage_id = sq_stage_id req, sc_report_context = report_ctx,
           sc_email_body_context = body_ctx, sc_email_body_position = body_position \<rparr> in
     check (\<not> submit_command_ok cmd) (malformed_from_pydantic (pr_submit pr cmd)) (Inr cmd)))"

section \<open>The calls\<close>

text \<open>A call ends with a reply, aborted with a status, or with the cancellation raised again.\<close>

datatype 'a rpc = Reply 'a | Aborted abort | Cancelled_Call exn

record translation =
  tn_float_text :: "int \<Rightarrow> nat \<Rightarrow> string"
  tn_correlation_id :: string

definition finish_rpc :: "translation \<Rightarrow> ('a \<Rightarrow> 'b) \<Rightarrow> (exn + 'a) \<times> world \<Rightarrow> 'b rpc \<times> world" where
  "finish_rpc tn reply r = (case r of
     (Inr x, w) \<Rightarrow> (Reply (reply x), w)
   | (Inl e, w) \<Rightarrow> (case translate_to_grpc_status (tn_float_text tn) (tn_correlation_id tn) e of
        Inl c \<Rightarrow> (Cancelled_Call c, w) | Inr a \<Rightarrow> (Aborted a, w)))"

text \<open>The clock is read once by the use case and once for the reply.\<close>

definition begin_run_rpc ::
  "translation \<Rightarrow> proto \<Rightarrow> problem_reports \<Rightarrow> string set \<Rightarrow> string set \<Rightarrow> template_repo \<Rightarrow> run_id \<Rightarrow> int \<Rightarrow> int \<Rightarrow>
   begin_run_request \<Rightarrow> world \<Rightarrow> (run_id \<times> int \<times> int) rpc \<times> world" where
  "begin_run_rpc tn pb pr registry vocabulary tr uuid t1 t2 req w =
     finish_rpc tn (\<lambda>rid. (rid, timestamp_from_datetime t2)) (case begin_command pb pr req of
       Inl e \<Rightarrow> (Inl e, w)
     | Inr cmd \<Rightarrow> begin_run registry vocabulary tr uuid t1 cmd w)"

definition submit_stage_report_rpc ::
  "translation \<Rightarrow> ('struct \<Rightarrow> exn + dict) \<Rightarrow> proto \<Rightarrow> problem_reports \<Rightarrow> int \<Rightarrow> int \<Rightarrow> 'struct submit_request \<Rightarrow> world \<Rightarrow>
   ((int \<times> int) \<times> bool) rpc \<times> world" where
  "submit_stage_report_rpc tn message_to_dict pb pr t1 t2 req w =
     finish_rpc tn (\<lambda>(st, was_retry). (timestamp_from_datetime t2, was_retry))
       (case submit_command_of message_to_dict pb pr req of
          Inl e \<Rightarrow> (Inl e, w)
        | Inr cmd \<Rightarrow> submit_stage_report t1 cmd w)"

definition finalize_run_rpc ::
  "translation \<Rightarrow> problem_reports \<Rightarrow> int \<Rightarrow> int \<Rightarrow> string \<Rightarrow> world \<Rightarrow> (int \<times> int) rpc \<times> world" where
  "finalize_run_rpc tn pr t1 t2 rid w =
     finish_rpc tn (\<lambda>_. timestamp_from_datetime t2)
       (if rid = [] then (Inl (malformed_from_pydantic (pr_finalize pr rid)), w) else finalize_run t1 rid w)"

section \<open>Aborted calls\<close>

lemma finish_rpc_aborted:
  "finish_rpc tn reply r = (Aborted a, w) \<longleftrightarrow> (\<exists>e. r = (Inl e, w) \<and>
     translate_to_grpc_status (tn_float_text tn) (tn_correlation_id tn) e = Inr a)"
  by (auto simp: finish_rpc_def split: prod.splits sum.splits)

lemma malformed_is [simp]: "isinstance MalformedRequestError ValidationError"
  using isinstance_parent [of MalformedRequestError MalformedRequestError] by simp

lemma malformed_code: "exn_is (malformed_from_pydantic ps) ValidationError"
  by (simp add: malformed_from_pydantic_def)

lemma invalid_argument:
  "translate_to_grpc_status fl corr e = Inr a \<Longrightarrow> exn_is e ValidationError \<Longrightarrow> ab_code a = INVALID_ARGUMENT"
  by (cases e) (auto simp: translate_known_def status_code_for_def)

lemma template_ref_to_domain_Inl: "template_ref_to_domain tr = Inl e \<Longrightarrow> exn_is e ValidationError"
  by (auto simp: template_ref_to_domain_def split: sum.splits)

lemma template_ref_to_domain_Inr: "template_ref_to_domain tr = Inr r \<Longrightarrow> template_ref_ok r"
  by (auto simp: template_ref_to_domain_def template_ref_post_init_Inr split: sum.splits)

lemma begin_command_Inl: "begin_command pb pr req = Inl e \<Longrightarrow> exn_is e ValidationError"
  by (auto simp: begin_command_def and_then_Inl check_Inl Let_def attachment_mode_to_domain_def enum_lookup_def
      malformed_code declared_input_def
      split: if_splits option.splits dest!: map_res_Inl dest: template_ref_to_domain_Inl)

lemma declared_input_Inr: "declared_input pr ds = Inr d \<Longrightarrow> dsi_stage_id d \<noteq> [] \<and> 0 \<le> dsi_stage_order d \<and>
    template_ref_ok (dsi_template_ref d)"
  by (auto simp: declared_input_def and_then_Inr check_Inr Let_def dest: template_ref_to_domain_Inr)

lemma declared_inputs_ok: "map_res (declared_input pr) dss = Inr ds \<Longrightarrow> d \<in> set ds \<Longrightarrow>
    dsi_stage_id d \<noteq> [] \<and> 0 \<le> dsi_stage_order d \<and> template_ref_ok (dsi_template_ref d)"
  using map_res_mem declared_input_Inr by metis

lemma begin_command_ok: "begin_command pb pr req = Inr cmd \<Longrightarrow> begin_run_command_ok cmd"
  using declared_inputs_ok template_ref_to_domain_Inr
  by (fastforce simp: begin_command_def and_then_Inr check_Inr Let_def begin_run_command_ok_def split: if_splits)

lemma submit_command_of_ok: "submit_command_of mtd pb pr req = Inr cmd \<Longrightarrow> submit_command_ok cmd"
  by (auto simp: submit_command_of_def and_then_Inr check_Inr Let_def split: option.splits prod.splits)

lemma in_uow_plain_raise: "in_uow body w = (Inl e, w') \<Longrightarrow> plain body \<Longrightarrow> w' = w"
  by (cases "body (w_db w)") (auto simp: in_uow_def uow_def plain_def)

lemma begin_run_tx_plain: "plain (begin_run_tx ev r stages)"
  unfolding begin_run_tx_def by (intro plain_intro plain_iter)

lemma begin_run_Inl: "begin_run registry vocabulary tr uuid now cmd w = (Inl e, w') \<Longrightarrow> w' = w"
  by (auto simp: begin_run_def split: sum.splits prod.splits dest: in_uow_plain_raise [OF _ begin_run_tx_plain])

lemma submit_Inl: "submit_stage_report now cmd w = (Inl e, w') \<Longrightarrow> w' = w"
  by (auto simp: submit_stage_report_def split: sum.splits prod.splits dest: in_uow_plain_raise [OF _ submit_plain])

lemma finalize_tx_plain: "plain (finalize_tx rid now)"
  unfolding finalize_tx_def by (intro plain_intro)

lemma finalize_Inl: "finalize_run now rid w = (Inl e, w') \<Longrightarrow> w' = w"
  by (auto simp: finalize_run_def split: sum.splits prod.splits dest: in_uow_plain_raise [OF _ finalize_tx_plain])

lemma begin_run_aborted:
  assumes "port_ok tr" and r: "begin_run_rpc tn pb pr registry vocabulary tr uuid t1 t2 req w = (Aborted a, w1)"
  shows "w1 = w \<and> ((\<nexists>cmd agg refs. begin_command pb pr req = Inr cmd \<and>
    begin_run_valid registry vocabulary tr cmd agg refs) \<longrightarrow> ab_code a = INVALID_ARGUMENT)"
proof (cases "begin_command pb pr req")
  case (Inl e)
  then show ?thesis
    using r invalid_argument [OF _ begin_command_Inl [OF Inl]] by (auto simp: begin_run_rpc_def finish_rpc_aborted)
next
  case (Inr cmd)
  then obtain e where e: "begin_run registry vocabulary tr uuid t1 cmd w = (Inl e, w1)"
    "translate_to_grpc_status (tn_float_text tn) (tn_correlation_id tn) e = Inr a"
    using r by (auto simp: begin_run_rpc_def finish_rpc_aborted)
  have fin: "finite (br_tags cmd)" using begin_command_ok [OF Inr] by (simp add: begin_run_command_ok_def)
  have "exn_is e ValidationError" if bad: "\<nexists>agg refs. begin_run_valid registry vocabulary tr cmd agg refs"
  proof -
    obtain d where d: "begin_run_validate registry vocabulary tr cmd = Inl d"
      using bad begin_run_validate_Inr [OF fin, of registry vocabulary tr]
      by (cases "begin_run_validate registry vocabulary tr cmd") auto
    then have "exn_is e (begin_run_first_error registry vocabulary cmd)"
      using begin_run_validate_Inl [OF fin assms(1) d] e(1) by (simp add: begin_run_def)
    then show ?thesis
      by (cases e) (auto simp: begin_run_first_error_def split: if_splits dest: isinstance_parent)
  qed
  then show ?thesis using begin_run_Inl [OF e(1)] invalid_argument [OF e(2)] Inr by auto
qed

lemma submit_aborted: "submit_stage_report_rpc tn mtd pb pr t1 t2 req w = (Aborted a, w1) \<Longrightarrow> w1 = w"
  by (auto simp: submit_stage_report_rpc_def finish_rpc_aborted split: sum.splits dest: submit_Inl)

lemma finalize_aborted: "finalize_run_rpc tn pr t1 t2 rid w = (Aborted a, w1) \<Longrightarrow> w1 = w"
  by (auto simp: finalize_run_rpc_def finish_rpc_aborted split: if_splits dest: finalize_Inl)

text \<open>
  An aborted call is one that has not happened: the database, the metrics and the scheduled
  tasks are as before.  A BeginRun that is not a valid command, or names what is not registered,
  is aborted with INVALID_ARGUMENT.
\<close>

theorem aborted_call_unchanged:
  assumes "port_ok tr"
  shows "(begin_run_rpc tn pb pr registry vocabulary tr uuid t1 t2 req w = (Aborted a, w1) \<longrightarrow> w1 = w \<and>
      ((\<nexists>cmd agg refs. begin_command pb pr req = Inr cmd \<and> begin_run_valid registry vocabulary tr cmd agg refs) \<longrightarrow>
        ab_code a = INVALID_ARGUMENT)) \<and>
    (submit_stage_report_rpc tn mtd pb pr t1 t2 sreq w = (Aborted b, w2) \<longrightarrow> w2 = w) \<and>
    (finalize_run_rpc tn pr t1 t2 rid w = (Aborted c, w3) \<longrightarrow> w3 = w)"
  by (intro conjI impI)
    (blast dest: begin_run_aborted [OF assms] submit_aborted finalize_aborted)+

definition sample_proto :: proto where
  "sample_proto = \<lparr> pb_mode_unspecified = 0, pb_mode_single_aggregated = 1, pb_mode_per_stage = 2,
     pb_position_unspecified = 0, pb_position_before = 1, pb_position_after = 2 \<rparr>"

definition sample_reports :: problem_reports where
  "sample_reports = \<lparr> pr_declared = \<lambda>d. [], pr_begin = \<lambda>c. [], pr_submit = \<lambda>c. [], pr_finalize = \<lambda>r. [] \<rparr>"

definition sample_translation :: translation where
  "sample_translation = \<lparr> tn_float_text = \<lambda>m n. [], tn_correlation_id = ''c'' \<rparr>"

text \<open>A request with an attachment mode that does not exist.\<close>

definition sample_request :: begin_run_request where
  "sample_request = \<lparr> bq_pipeline_type = ''nightly'', bq_run_tags = [], bq_declared_stages = [],
     bq_attachment_mode = 7, bq_aggregation_template = \<lparr> pt_name = [], pt_version = [] \<rparr> \<rparr>"

theorem aborted_call_unchanged_witness:
  "\<exists>a. begin_run_rpc sample_translation sample_proto sample_reports {} {} sample_repo ''r1'' 5 6 sample_request empty_world =
     (Aborted a, empty_world) \<and> ab_code a = INVALID_ARGUMENT"
proof -
  have bad: "begin_command sample_proto sample_reports sample_request =
      Inl (err MalformedRequestError [(''field'', JStr ''attachment_mode''), (''value'', JInt 7)])"
    by (simp add: begin_command_def attachment_mode_to_domain_def enum_lookup_def sample_proto_def sample_request_def)
  then obtain a where a: "begin_run_rpc sample_translation sample_proto sample_reports {} {} sample_repo ''r1'' 5 6
      sample_request empty_world = (Aborted a, empty_world)"
    by (auto simp: begin_run_rpc_def finish_rpc_def)
  then have "ab_code a = INVALID_ARGUMENT"
    using aborted_call_unchanged [OF sample_port_ok, of sample_translation sample_proto sample_reports "{}" "{}"
        "''r1''" 5 6 sample_request empty_world a empty_world, THEN conjunct1] a bad by simp
  with a show ?thesis by blast
qed

section \<open>The concurrency limit\<close>

text \<open>
  A call that arrives is rejected when the limit is reached, and enters otherwise; it leaves
  through the \<open>finally\<close> block, however it ends.  Rejecting does not touch the counter.
\<close>

definition limiter_init :: "int \<Rightarrow> exn + int" where
  "limiter_init limit = check (limit < 1) value_error (Inr 0)"

definition concurrency_reason :: string where
  "concurrency_reason = ''RESOURCE_EXHAUSTED_CONCURRENCY''"

definition limiter_reject :: "(int \<Rightarrow> nat \<Rightarrow> string) \<Rightarrow> int \<Rightarrow> int \<Rightarrow> abort" where
  "limiter_reject fl limit in_flight =
     (let message = points (''concurrency limit reached ('' @ show_int in_flight @ ''/'' @ show_int limit @
            '' in-flight); retry later'') in
      \<lparr> ab_code = RESOURCE_EXHAUSTED, ab_details = message, ab_error_code = None, ab_correlation_id = None,
        ab_status = status_details_bin fl RESOURCE_EXHAUSTED message concurrency_reason
          [(''limit'', JInt limit), (''in_flight'', JInt in_flight)] \<rparr>)"

definition limiter_enter :: "int \<Rightarrow> int \<Rightarrow> int option" where
  "limiter_enter limit in_flight = (if limit \<le> in_flight then None else Some (in_flight + 1))"

definition limiter_leave :: "int \<Rightarrow> int" where
  "limiter_leave in_flight = in_flight - 1"

text \<open>The interleaving of calls: the counter, the calls inside, and those rejected so far.\<close>

record limiter =
  lm_in_flight :: int
  lm_inside :: "nat list"
  lm_rejected :: "nat list"

inductive limiter_step :: "int \<Rightarrow> limiter \<Rightarrow> limiter \<Rightarrow> bool" for limit where
  enter: "limiter_enter limit (lm_in_flight s) = Some n \<Longrightarrow> c \<notin> set (lm_inside s) \<Longrightarrow>
    limiter_step limit s (s\<lparr> lm_in_flight := n, lm_inside := lm_inside s @ [c] \<rparr>)"
| reject: "limiter_enter limit (lm_in_flight s) = None \<Longrightarrow> c \<notin> set (lm_inside s) \<Longrightarrow>
    limiter_step limit s (s\<lparr> lm_rejected := lm_rejected s @ [c] \<rparr>)"
| leave: "c \<in> set (lm_inside s) \<Longrightarrow>
    limiter_step limit s (s\<lparr> lm_in_flight := limiter_leave (lm_in_flight s), lm_inside := remove1 c (lm_inside s) \<rparr>)"

inductive_cases limiter_stepE: "limiter_step limit s t"

definition limiter_start :: "int \<Rightarrow> limiter \<Rightarrow> bool" where
  "limiter_start limit s \<longleftrightarrow> limiter_init limit = Inr (lm_in_flight s) \<and> lm_inside s = [] \<and> lm_rejected s = []"

definition limiter_inv :: "int \<Rightarrow> limiter \<Rightarrow> bool" where
  "limiter_inv limit s \<longleftrightarrow> 1 \<le> limit \<and> lm_in_flight s = int (length (lm_inside s)) \<and> lm_in_flight s \<le> limit"

lemma length_remove_inside: "c \<in> set xs \<Longrightarrow> int (length (remove1 c xs)) = int (length xs) - 1"
  by (induction xs) auto

interpretation limit_inv: inductive_invariant "limiter_start limit" "limiter_step limit" "limiter_inv limit" for limit
proof
  show "limiter_start limit s \<Longrightarrow> limiter_inv limit s" for s
    by (auto simp: limiter_start_def limiter_inv_def limiter_init_def check_Inr)
next
  show "limiter_inv limit t" if "limiter_inv limit s" "limiter_step limit s t" for s t
    using that(2,1)
    by (cases rule: limiter_stepE)
       (auto simp: limiter_inv_def limiter_enter_def limiter_leave_def length_remove_inside split: if_splits)
qed

text \<open>
  However calls arrive, end and overlap, the calls inside the server are as many as the
  counter says and never more than the limit, and a call is turned away exactly when the limit is
  reached at its arrival: a place that becomes free can be taken again.
\<close>

theorem concurrency_limited:
  assumes "reachable (limiter_start limit) (limiter_step limit) s"
  shows "lm_in_flight s = int (length (lm_inside s)) \<and> int (length (lm_inside s)) \<le> limit \<and>
    (limiter_enter limit (lm_in_flight s) = None \<longleftrightarrow> int (length (lm_inside s)) = limit)"
  using limit_inv.inv_reachable [OF assms] by (auto simp: limiter_inv_def limiter_enter_def)

theorem concurrency_limited_witness:
  "limiter_enter 1 1 = None \<and> reachable (limiter_start 1) (limiter_step 1)
     \<lparr> lm_in_flight = 1, lm_inside = [7], lm_rejected = [] \<rparr>"
proof -
  let ?s = "\<lparr> lm_in_flight = 0, lm_inside = [], lm_rejected = [] \<rparr>"
  have "reachable (limiter_start 1) (limiter_step 1) ?s"
    by (rule reachable_init) (simp add: limiter_start_def limiter_init_def check_def)
  moreover have "limiter_step 1 ?s (?s\<lparr> lm_in_flight := 1, lm_inside := lm_inside ?s @ [7] \<rparr>)"
    by (rule limiter_step.enter) (simp_all add: limiter_enter_def)
  ultimately have r: "reachable (limiter_start 1) (limiter_step 1) \<lparr> lm_in_flight = 1, lm_inside = [7], lm_rejected = [] \<rparr>"
    using reachable_step by force
  from concurrency_limited [OF this] show ?thesis using r by simp
qed

end
