(* ===== verification/System.thy ===== *)
theory System
  imports Dispatcher Admin_Users Subscriptions Report_Pruner Audit_Pruner Run_Queries Mailer
begin

text \<open>
  The service as a whole: every transaction that the use cases, the sweeper, the dispatcher and the
  pruners run on the shared database is a step, in any interleaving.  A transaction that fails
  leaves the database to \<open>uow\<close>: unchanged, unless it had committed.

  The lemmas say which transactions leave the runs alone and which move one run along the
  transition table.  The properties: a run's states follow its state machine through the whole
  life of the service, and every change of them is in the audit log, which only retention shortens.
\<close>

section \<open>Transactions that leave the runs alone\<close>

text \<open>The runs are as before, and what the audit log held is still at its front.\<close>

definition runs_and_log :: "run_row list \<Rightarrow> audit_row list \<Rightarrow> db \<Rightarrow> bool" where
  "runs_and_log rs lg d \<longleftrightarrow> db_runs d = rs \<and> (\<exists>new. db_audit d = lg @ new)"

lemma keeps_if [wf_intro]: "keeps I m \<Longrightarrow> keeps I k \<Longrightarrow> keeps I (if b then m else k)"
  by simp

lemma keeps_option [wf_intro]:
  "keeps I m \<Longrightarrow> (\<And>x. keeps I (k x)) \<Longrightarrow> keeps I (case r of None \<Rightarrow> m | Some x \<Rightarrow> k x)"
  by (cases r) auto

lemma keeps_let [wf_intro]: "(\<And>y. keeps I (k y)) \<Longrightarrow> keeps I (let y = x in k y)"
  by simp

lemma keeps_try [wf_intro]:
  assumes "keeps I m" and "\<And>e. keeps I (h e)" and "\<And>x. keeps I (k x)"
  shows "keeps I (tx_try m h k)"
proof -
  have "case tx_try m h k d of Done x d' \<Rightarrow> I d' | Raised e \<Rightarrow> True | CommittedRaise e d' \<Rightarrow> I d'" if d: "I d" for d
  proof (cases "m d")
    case (Done x d1)
    then have "I d1" using assms(1) d by (auto simp: keeps_def dest: spec [of _ d])
    then show ?thesis using assms(3) [of x] Done by (simp add: keeps_def tx_try_def)
  next
    case (Raised e)
    then show ?thesis using assms(2) [of e] d by (simp add: keeps_def tx_try_def)
  next
    case (CommittedRaise e d1)
    then show ?thesis using assms(1) d by (auto simp: keeps_def tx_try_def dest: spec [of _ d])
  qed
  then show ?thesis by (simp add: keeps_def)
qed

lemma keeps_map [wf_intro]: "(\<And>x. keeps I (f x)) \<Longrightarrow> keeps I (tx_map f xs)"
  by (induction xs) (simp_all add: wf_intro)

lemma runs_and_log_audit: "runs_and_log rs lg d \<Longrightarrow> runs_and_log rs lg (add_audit e d)"
  by (auto simp: runs_and_log_def add_audit_def)

named_theorems log_keeps \<open>operations that leave the runs and the front of the audit log alone\<close>

lemma audit_record_keeps [log_keeps]: "keeps (runs_and_log rs lg) (audit_record ev)"
  by (rule keeps_audit_record) (rule runs_and_log_audit)

lemma write_keeps:
  "(\<And>d. db_runs (f d) = db_runs d \<and> db_audit (f d) = db_audit d) \<Longrightarrow> keeps (runs_and_log rs lg) (tx_write f)"
  by (rule keeps_write) (simp add: runs_and_log_def)

lemma write_tables_keep [log_keeps]:
  "keeps (runs_and_log rs lg) (tx_write (db_stages_update f1))"
  "keeps (runs_and_log rs lg) (tx_write (db_subscriptions_update f2))"
  "keeps (runs_and_log rs lg) (tx_write (db_actions_update f3))"
  "keeps (runs_and_log rs lg) (tx_write (db_users_update f4))"
  "keeps (runs_and_log rs lg) (tx_write (db_sessions_update f5))"
  by (rule write_keeps, simp)+

lemma repo_keeps [log_keeps]:
  "keeps (runs_and_log rs lg) (stage_save s)" "keeps (runs_and_log rs lg) (subscription_remove i)"
  "keeps (runs_and_log rs lg) (session_save ses)" "keeps (runs_and_log rs lg) (session_get h)"
  "keeps (runs_and_log rs lg) (session_touch h t)" "keeps (runs_and_log rs lg) (session_delete h)"
  "keeps (runs_and_log rs lg) (session_delete_by_user i)" "keeps (runs_and_log rs lg) (user_get_by_id i)"
  "keeps (runs_and_log rs lg) (user_get_by_email email)" "keeps (runs_and_log rs lg) (subscription_get_by_id i)"
  "keeps (runs_and_log rs lg) (run_get rid)"
  unfolding stage_save_def subscription_remove_def session_save_def session_get_def session_touch_def
    session_delete_def session_delete_by_user_def user_get_by_id_def user_get_by_email_def
    subscription_get_by_id_def run_get_def
  by (intro wf_intro log_keeps)+

lemmas op_defs = actions_update_def action_enqueue_def action_claim_pending_def action_mark_completed_def
  action_mark_failed_def action_reclaim_stuck_def action_find_abandoned_def action_mark_abandoned_def
  user_save_def user_update_def subscription_add_def record_event_def record_admin_event_def
  audited_refusal_def run_or_none_def stage_list_pending_by_run_def

lemma write_next_keep [log_keeps]:
  "keeps (runs_and_log rs lg) (tx_write (\<lambda>d. d\<lparr> db_actions := f1 d, db_next_action := n1 d \<rparr>))"
  "keeps (runs_and_log rs lg) (tx_write (\<lambda>d. d\<lparr> db_subscriptions := f2 d, db_next_subscription := n2 d \<rparr>))"
  "keeps (runs_and_log rs lg) (tx_write (\<lambda>d. d\<lparr> db_users := f3 d, db_next_user := n3 d \<rparr>))"
  by (rule write_keeps, simp)+

lemma actions_keep [log_keeps]: "keeps (runs_and_log rs lg) (actions_update P f)"
  unfolding op_defs by (intro wf_intro log_keeps)

lemma user_ops_keep [log_keeps]:
  "keeps (runs_and_log rs lg) (user_save u)" "keeps (runs_and_log rs lg) (user_update i c)"
  "keeps (runs_and_log rs lg) (subscription_add now uid g tg)"
  "keeps (runs_and_log rs lg) (record_event ev)"
  "keeps (runs_and_log rs lg) (record_admin_event a i j now det)"
  "keeps (runs_and_log rs lg) (audited_refusal ev)"
  "keeps (runs_and_log rs lg) (run_or_none rid)"
  "keeps (runs_and_log rs lg) (stage_list_pending_by_run rid)"
  unfolding op_defs by (intro wf_intro log_keeps)+

lemma action_ops_keep [log_keeps]:
  "keeps (runs_and_log rs lg) (action_enqueue rid name now)"
  "keeps (runs_and_log rs lg) (action_claim_pending t n)"
  "keeps (runs_and_log rs lg) (action_mark_completed i t)"
  "keeps (runs_and_log rs lg) (action_mark_failed i t msg)"
  "keeps (runs_and_log rs lg) (action_reclaim_stuck u n th m)"
  "keeps (runs_and_log rs lg) (action_find_abandoned u th m n)"
  "keeps (runs_and_log rs lg) (action_mark_abandoned i t msg)"
  unfolding action_enqueue_def action_claim_pending_def action_mark_completed_def action_mark_failed_def
    action_reclaim_stuck_def action_find_abandoned_def action_mark_abandoned_def Let_def
  by (intro wf_intro log_keeps)+

text \<open>The transactions of the use cases that concern no run.\<close>

lemma tx_keeps [log_keeps]:
  "keeps (runs_and_log rs lg) (login_tx au now email password)"
  "keeps (runs_and_log rs lg) (logout_tx h now i)"
  "keeps (runs_and_log rs lg) (session_lookup_tx idle now h)"
  "keeps (runs_and_log rs lg) (create_user_tx admin new now)"
  "keeps (runs_and_log rs lg) (update_user_tx admin target c now)"
  "keeps (runs_and_log rs lg) (reset_password_tx admin target hash now)"
  "keeps (runs_and_log rs lg) (subscribe_tx uid g tg t1 t2)"
  "keeps (runs_and_log rs lg) (unsubscribe_tx sid uid now)"
  "keeps (runs_and_log rs lg) (admin_subscribe_tx admin uid g tg t1 t2)"
  "keeps (runs_and_log rs lg) (admin_unsubscribe_tx admin uid sid now)"
  "keeps (runs_and_log rs lg) (abandon_tx cfg now)"
  "keeps (runs_and_log rs lg) (claim_tx cfg now)"
  "keeps (runs_and_log rs lg) (settle_tx oc now)"
  unfolding login_tx_def logout_tx_def session_lookup_tx_def create_user_tx_def update_user_tx_def
    reset_password_tx_def subscribe_tx_def unsubscribe_tx_def admin_subscribe_tx_def
    admin_unsubscribe_tx_def abandon_tx_def claim_tx_def settle_tx_def Let_def
  by (intro wf_intro log_keeps)+

section \<open>Transactions that create a run or change its state\<close>

text \<open>
  What one transaction may do to the runs: nothing, or store a new run, or move one run along the
  transition table.  In every case the log only grows, and a run that appears or moves has an
  event of its own among the new ones.  Retention of the log is the one transaction that drops
  events.
\<close>

definition mentions_run :: "run_id \<Rightarrow> audit_row list \<Rightarrow> bool" where
  "mentions_run rid rows \<longleftrightarrow> (\<exists>a \<in> set rows. \<exists>rest. ar_resource a = ''run:'' @ rid @ rest)"

inductive run_change :: "db \<Rightarrow> db \<Rightarrow> bool" where
  keep: "db_runs d' = db_runs d \<Longrightarrow> db_audit d' = db_audit d @ new \<Longrightarrow> run_change d d'"
| create: "db_runs d' = db_runs d @ [row] \<Longrightarrow> rr_state row = run_state_value INITIATED \<Longrightarrow>
    find_row rr_run_id (rr_run_id row) (db_runs d) = None \<Longrightarrow> db_audit d' = db_audit d @ new \<Longrightarrow>
    mentions_run (rr_run_id row) new \<Longrightarrow> run_change d d'"
| move: "find_row rr_run_id rid (db_runs d) = Some row \<Longrightarrow> rr_state row = run_state_value st \<Longrightarrow>
    run_can_transition st st' \<Longrightarrow>
    db_runs d' = update_rows (\<lambda>x. rr_run_id x = rid) (set_run_state st' now) (db_runs d) \<Longrightarrow>
    db_audit d' = db_audit d @ new \<Longrightarrow> mentions_run rid new \<Longrightarrow> run_change d d'"
| retain: "audit_delete_older_than cutoff batch d = Done n d' \<Longrightarrow> run_change d d'"

lemma run_change_refl: "run_change d d"
  by (rule keep [where new = "[]"]) simp_all

lemma quiet_done:
  assumes "\<And>rs lg. keeps (runs_and_log rs lg) m" and "m d = Done x d'"
  shows "\<exists>new. db_runs d' = db_runs d \<and> db_audit d' = db_audit d @ new"
proof -
  have "runs_and_log (db_runs d) (db_audit d) d" by (simp add: runs_and_log_def)
  then have "runs_and_log (db_runs d) (db_audit d) d'"
    using assms(1) [of "db_runs d" "db_audit d"] assms(2) by (auto simp: keeps_def dest!: spec [of _ d])
  then show ?thesis by (auto simp: runs_and_log_def)
qed

lemma quiet_change:
  assumes "\<And>rs lg. keeps (runs_and_log rs lg) m"
  shows "run_change d (snd (uow m d))"
proof -
  have "runs_and_log (db_runs d) (db_audit d) d" by (simp add: runs_and_log_def)
  then have "runs_and_log (db_runs d) (db_audit d) (snd (uow m d))" by (rule keeps_uow [OF assms])
  then show ?thesis by (auto simp: runs_and_log_def intro: keep)
qed

lemma plain_change:
  assumes "plain m" and "\<And>x d'. m d = Done x d' \<Longrightarrow> run_change d d'"
  shows "run_change d (snd (uow m d))"
  using assms by (cases "m d") (auto simp: uow_def plain_def run_change_refl)

lemma update_state_Done:
  "run_update_state rid st (utc now) d = Done u d' \<Longrightarrow>
   d' = db_runs_update (update_rows (\<lambda>x. rr_run_id x = rid) (set_run_state st now)) d"
  by (auto simp: run_update_state_def tx_bind_Done tx_then_Done tx_lift_Done tx_read_Done tx_guard_Done
      tx_write_def)

lemma record_Done: "dt_aware (ae_timestamp e) \<Longrightarrow> audit_record e d = Done u d' \<longleftrightarrow> d' = add_audit e d"
  by (auto simp: audit_record_event)

text \<open>A run read at the start, one event about it and the new state.\<close>

lemma move_run:
  assumes "run_get rid d = Done r d1" and "run_can_transition (run_state r) st"
    and "ae_resource ev = ''run:'' @ rid @ rest"
    and "db_runs d' = update_rows (\<lambda>x. rr_run_id x = rid) (set_run_state st now) (db_runs d)"
    and "db_audit d' = db_audit (add_audit ev dm) @ new" and "db_audit dm = db_audit d"
  shows "run_change d d'"
proof -
  obtain row where "find_row rr_run_id rid (db_runs d) = Some row" "row_to_run row = Inr r"
    using assms(1) by (auto simp: run_get_Done)
  moreover have "db_audit d' = db_audit d @ audit_row_of (db_next_audit dm) ev # new"
    using assms(5,6) by (simp add: add_audit_def)
  ultimately show ?thesis
    using assms(2,3,4) row_to_run_Inr(3)
    by (intro move) (auto simp: mentions_run_def audit_row_of_def)
qed

lemma finalize_change: "run_change d (snd (uow (finalize_tx rid now) d))"
proof (rule plain_change)
  show "plain (finalize_tx rid now)" unfolding finalize_tx_def by (intro plain_intro)
  fix u d' assume "finalize_tx rid now d = Done u d'"
  then obtain r where r: "run_get rid d = Done r d" "run_state r = AGGREGATING"
    and d': "d' = db_runs_update (update_rows (\<lambda>x. rr_run_id x = rid) (set_run_state READY now))
             (add_audit (finalize_event r now) d)"
    by (auto simp: finalize_tx_Done)
  show "run_change d d'"
    by (rule move_run [where ev = "finalize_event r now" and rest = "[]" and new = "[]" and st = READY and now = now, OF r(1)])
       (use r d' run_get_id [OF r(1)] in \<open>auto simp: finalize_event_def run_can_transition_iff run_terminal_def\<close>)
qed

lemma transition_Done:
  assumes "transition_tx r st a extra now d = Done u d'"
  shows "run_can_transition (run_state r) st \<and> (\<exists>ev. ae_resource ev = ''run:'' @ run_run_id r \<and>
    d' = db_runs_update (update_rows (\<lambda>x. rr_run_id x = run_run_id r) (set_run_state st now)) (add_audit ev d))"
proof -
  obtain det v d1 where "run_can_transition (run_state r) st"
    and ev: "audit_record (delivery_event a (run_run_id r) SUCCESS now det) d = Done v d1"
    and "run_update_state (run_run_id r) st (utc now) d1 = Done u d'"
    using assms unfolding transition_tx_def tx_bind_Done tx_then_Done tx_lift_Done run_transition_Inr
      audit_event_post_init_Inr by blast
  moreover from ev have "d1 = add_audit (delivery_event a (run_run_id r) SUCCESS now det) d"
    by (simp add: record_Done delivery_event_def)
  moreover have "ae_resource (delivery_event a (run_run_id r) SUCCESS now det) = ''run:'' @ run_run_id r"
    by (simp add: delivery_event_def)
  ultimately show ?thesis by (blast dest: update_state_Done)
qed

lemma start_change: "run_change d (snd (uow (start_tx rid now) d))"
proof (rule plain_change)
  show "plain (start_tx rid now)" unfolding start_tx_def transition_tx_def by (intro plain_intro)
  fix r d' assume "start_tx rid now d = Done r d'"
  then have r: "run_get rid d = Done r d" and tr: "transition_tx r SENDING RUN_STATE_TRANSITION [] now d = Done () d'"
    unfolding start_tx_def tx_bind_Done tx_then_Done tx_return_def by (auto simp: run_get_Done)
  from transition_Done [OF tr] obtain ev where "run_can_transition (run_state r) SENDING"
    and "ae_resource ev = ''run:'' @ rid"
    and "d' = db_runs_update (update_rows (\<lambda>x. rr_run_id x = rid) (set_run_state SENDING now)) (add_audit ev d)"
    by (auto simp: run_get_id [OF r])
  then show "run_change d d'" by (intro move_run [where rest = "[]" and new = "[]" and now = now, OF r]) auto
qed

lemma settle_change: "run_change d (snd (uow (settle_run_tx rid st out rec det now) d))"
proof (rule plain_change)
  show "plain (settle_run_tx rid st out rec det now)" unfolding settle_run_tx_def by (intro plain_intro)
  fix u d' assume "settle_run_tx rid st out rec det now d = Done u d'"
  then obtain r where r: "run_get rid d = Done r d"
    and rest: "(if run_state r \<in> run_terminal
     then tx_then (audit_record (reconciliation_event rid now (run_state r) out rec)) (tx_return None)
     else tx_bind (tx_lift (run_transition (run_state r) st rid)) (\<lambda>_.
       tx_then (audit_record (delivery_event SEND_REPORT rid out now (det r)))
       (tx_then (run_update_state rid st (utc now))
       (tx_return (Some (now - dt_us (run_created_at r))))))) d = Done u d'"
    unfolding settle_run_tx_def tx_bind_Done by (auto simp: run_get_Done)
  show "run_change d d'"
  proof (cases "run_state r \<in> run_terminal")
    case True
    with rest have "tx_then (audit_record (reconciliation_event rid now (run_state r) out rec))
        (tx_return None) d = Done u d'" by simp
    then have "\<exists>new. db_runs d' = db_runs d \<and> db_audit d' = db_audit d @ new"
      by (rule quiet_done [rotated]) (intro wf_intro log_keeps)
    then show ?thesis by (auto intro: keep)
  next
    case False
    let ?ev = "delivery_event SEND_REPORT rid out now (det r)"
    have "run_can_transition (run_state r) st"
      and d': "d' = db_runs_update (update_rows (\<lambda>x. rr_run_id x = rid) (set_run_state st now)) (add_audit ?ev d)"
      using rest False unfolding tx_bind_Done tx_then_Done tx_lift_Done tx_return_def
      by (auto simp: tx_bind_Done tx_then_Done tx_lift_Done run_transition_Inr record_Done delivery_event_def
          dest!: update_state_Done)
    then show ?thesis
      by (intro move_run [where ev = ?ev and rest = "[]" and new = "[]" and now = now, OF r])
         (auto simp: delivery_event_def d')
  qed
qed

lemma submit_change: "run_change d (snd (uow (submit_tx cmd rid now) d))"
proof (rule plain_change [OF submit_plain])
  fix x d' assume res: "submit_tx cmd rid now d = Done x d'"
  then obtain r cur where guards: "submit_guards cmd rid d = Done (r, cur) d"
    and r: "run_get rid d = Done r d" "submit_accepts r cur cmd"
    using submit_tx_Done [OF res] by (auto simp: submit_guards_Done)
  let ?ev = "submit_event cmd r cur now"
  obtain s v d1 d2 w where rec: "audit_record ?ev d = Done v d1" and save: "stage_save s d1 = Done w d2"
    and last: "tx_then (if run_state r = INITIATED then run_update_state rid AGGREGATING (utc now) else tx_return ())
       (tx_return (stage_state s, stage_state cur \<noteq> PENDING, run_state r = INITIATED)) d2 = Done x d'"
    using res unfolding submit_tx_def tx_bind_simps(1) [where m = "submit_guards cmd rid", OF guards] prod.case tx_bind_Done tx_lift_Done
      tx_then_Done [where m = "audit_record _"] tx_then_Done [where m = "stage_save _"]
      audit_event_post_init_Inr by blast
  have ev: "ae_resource ?ev = ''run:'' @ rid @ ''/stage:'' @ sc_stage_id cmd" and aware: "dt_aware (ae_timestamp ?ev)"
    using run_get_id [OF r(1)] by (simp_all add: submit_event_def)
  have d1: "d1 = add_audit ?ev d" using rec aware by (simp add: record_Done)
  obtain new where d2: "db_runs d2 = db_runs d1" "db_audit d2 = db_audit d1 @ new"
    using quiet_done [where m = "stage_save s", OF repo_keeps(1) save] by blast
  show "run_change d d'"
  proof (cases "run_state r = INITIATED")
    case True
    with last have "d' = db_runs_update (update_rows (\<lambda>x. rr_run_id x = rid) (set_run_state AGGREGATING now)) d2"
      by (auto simp: tx_then_Done tx_return_def dest!: update_state_Done)
    then show ?thesis
      by (intro move_run [where ev = ?ev and now = now and d' = d', OF r(1) _ ev])
        (auto simp: True run_can_transition_iff run_terminal_def d2 d1)
  next
    case False
    with last have "d' = d2" by (simp add: tx_then_Done tx_return_def)
    then show ?thesis by (auto simp: d2 d1 add_audit_def intro: keep)
  qed
qed

lemma sweep_change: "run_change d (snd (uow (sweep_tx cfg rid now) d))"
proof (rule plain_change)
  show "plain (sweep_tx cfg rid now)" unfolding sweep_tx_def Let_def
    by (intro plain_intro, rule sum.exhaust) (auto intro!: plain_intro plain_iter split: sum.splits)
  fix x d' assume res: "sweep_tx cfg rid now d = Done x d'"
  consider "d' = d" | r where "run_get rid d = Done r d" "run_can_transition (run_state r) ORPHANED"
    using res
    by (auto simp: sweep_tx_def tx_try_def tx_return_def tx_raise_def run_get_Done run_transition_def
        split: tx_result.splits if_splits)
  then show "run_change d d'"
  proof cases
    case (2 r)
    let ?acts = "resolve_disposition_actions cfg (run_pipeline_type r)"
    let ?ev = "\<lambda>p. sweep_event r ?acts p now"
    obtain p v d1 w d2 u d3 where upd: "run_update_state rid ORPHANED (utc now) d = Done v d1"
      and rec: "audit_record (?ev p) d1 = Done w d2"
      and enq: "tx_iter (\<lambda>name. action_enqueue rid name (utc now)) ?acts d2 = Done u d3" "d' = d3"
      using res 2 unfolding sweep_tx_def tx_try_def
      by (auto simp: run_transition_def Let_def tx_then_Done tx_bind_Done tx_lift_Done
          audit_event_post_init_Inr tx_return_def stage_list_pending_by_run_def tx_read_Done)
    have ev: "ae_resource (?ev p) = ''run:'' @ rid @ []" and aware: "dt_aware (ae_timestamp (?ev p))"
      using run_get_id [OF 2(1)] by (simp_all add: sweep_event_def)
    have d1: "d1 = db_runs_update (update_rows (\<lambda>x. rr_run_id x = rid) (set_run_state ORPHANED now)) d"
      using upd by (rule update_state_Done)
    have d2: "d2 = add_audit (?ev p) d1" using rec aware by (simp add: record_Done)
    have "\<exists>new. db_runs d3 = db_runs d2 \<and> db_audit d3 = db_audit d2 @ new"
      by (rule quiet_done [where m = "tx_iter _ _", OF _ enq(1)]) (intro wf_intro log_keeps)
    then obtain new where "db_runs d3 = db_runs d2" "db_audit d3 = db_audit d2 @ new" by blast
    then show ?thesis
      by (intro move_run [where d' = d' and now = now and dm = d1, OF 2 ev]) (simp_all add: enq(2) d1 d2)
  qed (simp add: run_change_refl)
qed

lemma begin_change:
  assumes "run_state r = INITIATED" and "find_row rr_run_id (run_run_id r) (db_runs d) = None"
  shows "run_change d (snd (uow (begin_run_tx (begin_run_event r now) r ss) d))"
proof (rule plain_change)
  let ?ev = "begin_run_event r now"
  show "plain (begin_run_tx ?ev r ss)" unfolding begin_run_tx_def by (intro plain_intro plain_iter)
  fix x d' assume "begin_run_tx ?ev r ss d = Done x d'"
  then obtain u d1 v d2 where rec: "audit_record ?ev d = Done u d1" and save: "run_save r d1 = Done v d2"
    and stages: "tx_iter stage_save ss d2 = Done x d'"
    unfolding begin_run_tx_def tx_then_Done by blast
  have d1: "d1 = add_audit ?ev d" using rec by (simp add: record_Done begin_run_event_def)
  obtain row where row: "run_to_params r = Inr row"
    using save by (auto simp: run_save_def tx_bind_Done tx_lift_Done)
  have d2: "d2 = db_runs_update (upsert_row rr_run_id run_conflict row) d1"
    using save run_save_run [OF row] by simp
  have id: "rr_run_id row = run_run_id r" and state: "rr_state row = run_state_value INITIATED"
    using row assms(1) by (auto simp: run_to_params_def check_def Let_def and_then_Inr split: if_splits)
  have "\<exists>new. db_runs d' = db_runs d2 \<and> db_audit d' = db_audit d2 @ new"
    by (rule quiet_done [where m = "tx_iter _ _", OF _ stages]) (intro wf_intro log_keeps)
  then obtain new where "db_runs d' = db_runs d2" "db_audit d' = db_audit d2 @ new" by blast
  then show "run_change d d'"
    using assms(2) id
    by (intro create [OF _ state, where new = "audit_row_of (db_next_audit d) ?ev # new"])
      (auto simp: d2 d1 upsert_row_def find_row_None add_audit_def audit_row_of_def begin_run_event_def mentions_run_def)
qed

section \<open>The steps of the service\<close>

text \<open>
  One rule per transaction that writes; the arguments are whatever the caller passes, and a
  transaction that raises is a step as well.  The id of a new run is a fresh one
  (\<open>new_run_id\<close> takes it from \<open>uuid4\<close>).
\<close>

inductive service_step :: "db \<Rightarrow> db \<Rightarrow> bool" where
  begin_run: "r = new_run uuid now cmd agg refs \<Longrightarrow> find_row rr_run_id uuid (db_runs d) = None \<Longrightarrow>
    service_step d (snd (uow (begin_run_tx (begin_run_event r now) r
      (map (initial_stage uuid) (run_declared_stages r))) d))"
| submit: "service_step d (snd (uow (submit_tx sub rid now) d))"
| finalize: "service_step d (snd (uow (finalize_tx rid now) d))"
| start: "service_step d (snd (uow (start_tx rid now) d))"
| sent: "service_step d (snd (uow (finalize_sent_tx rid recipients n now) d))"
| failed: "service_step d (snd (uow (finalize_failed_tx rid reason now) d))"
| sweep: "service_step d (snd (uow (sweep_tx sw rid now) d))"
| abandon: "service_step d (snd (uow (abandon_tx dp now) d))"
| claim: "service_step d (snd (uow (claim_tx dp now) d))"
| settle: "service_step d (snd (uow (settle_tx oc now) d))"
| login: "service_step d (snd (uow (login_tx au now email password) d))"
| logout: "service_step d (snd (uow (logout_tx h now i) d))"
| session: "service_step d (snd (uow (session_lookup_tx idle now h) d))"
| create_user: "service_step d (snd (uow (create_user_tx i u now) d))"
| update_user: "service_step d (snd (uow (update_user_tx i j c now) d))"
| reset_password: "service_step d (snd (uow (reset_password_tx i j h now) d))"
| subscribe: "service_step d (snd (uow (subscribe_tx i g tg t1 t2) d))"
| unsubscribe: "service_step d (snd (uow (unsubscribe_tx s i now) d))"
| admin_subscribe: "service_step d (snd (uow (admin_subscribe_tx j i g tg t1 t2) d))"
| admin_unsubscribe: "service_step d (snd (uow (admin_unsubscribe_tx j i s now) d))"
| resend: "service_step d (snd (uow (tx_bind (tx_lift (audit_event_post_init
    (resend_event rid i now outcome det))) audit_record) d))"
| prune_report: "audit_event_post_init (prune_event p r since failure sz now) = Inr ev \<Longrightarrow>
    service_step d (snd (uow (audit_record ev) d))"
| prune_audit: "service_step d (snd (uow (audit_delete_older_than cutoff batch) d))"

lemma retention_change: "run_change d (snd (uow (audit_delete_older_than cutoff batch) d))"
  by (rule plain_change, intro plain_intro, rule retain)

lemma retention_Done:
  assumes "audit_delete_older_than cutoff batch d = Done n d'"
  shows "db_runs d' = db_runs d" and "db_audit d' = filter
    (\<lambda>r. ar_audit_id r \<notin> ar_audit_id ` set (older_than (dt_us cutoff) batch (db_audit d))) (db_audit d)"
  using assms by (auto simp: audit_delete_older_than_def tx_bind_Done tx_then_Done tx_read_Done tx_write_def
      tx_return_def check_Inr and_then_Inr iso_col_def)

lemma service_step_change: "service_step d d' \<Longrightarrow> run_change d d'"
proof (induction rule: service_step.induct)
  case (begin_run r uuid now cmd agg refs d)
  then show ?case by (auto simp: new_run_def intro!: begin_change)
next
  case (sent d rid recipients n now)
  show ?case unfolding finalize_sent_tx_def by (rule settle_change)
next
  case (failed d rid reason now)
  show ?case unfolding finalize_failed_tx_def by (rule settle_change)
next
  case (resend d rid i now outcome det)
  show ?case by (rule quiet_change) (intro wf_intro log_keeps)
qed (rule submit_change finalize_change start_change sweep_change retention_change
  quiet_change, (intro log_keeps)?)+

section \<open>A run through the life of the service\<close>

text \<open>What one change does to the row of a run.\<close>

lemma run_change_row:
  assumes "run_change d d'" and "find_row rr_run_id rid (db_runs d) = Some row"
    and "rr_state row = run_state_value st"
  shows "find_row rr_run_id rid (db_runs d') = Some row \<or>
    (\<exists>st' now new. run_can_transition st st' \<and>
       find_row rr_run_id rid (db_runs d') = Some (set_run_state st' now row) \<and>
       db_audit d' = db_audit d @ new \<and> mentions_run rid new)"
  using assms(1)
proof (cases rule: run_change.cases)
  case (create row' new)
  then show ?thesis using assms(2) by auto
next
  case (move rid' row' st0 st' now new)
  show ?thesis
  proof (cases "rid' = rid")
    case True
    with move(1,2) assms(2,3) have "st0 = st" by (simp add: run_state_enum.value_inject)
    with move True assms show ?thesis by (auto simp: find_row_update_rows set_run_state_def)
  next
    case False
    with move assms show ?thesis by (auto simp: find_row_update_rows set_run_state_def)
  qed
qed (use assms retention_Done(1) in simp_all)

section \<open>Properties\<close>

text \<open>
  C1: in any interleaving of the service's transactions a stored run never disappears; its state
  moves only along the transition table, nothing else of its row but \<open>updated_at\<close> changes, and a
  run in SENT, FAILED or ORPHANED is never written again.
\<close>

theorem run_life:
  assumes "service_step\<^sup>*\<^sup>* d d'" and "find_row rr_run_id rid (db_runs d) = Some row"
    and "rr_state row = run_state_value st"
  shows "\<exists>st' t. find_row rr_run_id rid (db_runs d') =
      Some (row\<lparr> rr_state := run_state_value st', rr_updated_at := t \<rparr>) \<and>
    run_can_transition\<^sup>*\<^sup>* st st' \<and> (st \<in> run_terminal \<longrightarrow> st' = st \<and> t = rr_updated_at row)"
  using assms(1)
proof (induction rule: rtranclp_induct)
  case base
  have "find_row rr_run_id rid (db_runs d) = Some (row\<lparr> rr_state := run_state_value st, rr_updated_at := rr_updated_at row \<rparr>)"
    using assms(2,3) by simp
  then show ?case by blast
next
  case (step d1 d2)
  then obtain st' t where row': "find_row rr_run_id rid (db_runs d1) =
      Some (row\<lparr> rr_state := run_state_value st', rr_updated_at := t \<rparr>)"
    and st': "run_can_transition\<^sup>*\<^sup>* st st'"
    and final: "st \<in> run_terminal \<Longrightarrow> st' = st \<and> t = rr_updated_at row" by blast
  have state: "rr_state (row\<lparr> rr_state := run_state_value st', rr_updated_at := t \<rparr>) = run_state_value st'"
    by simp
  from run_change_row [OF service_step_change [OF step(2)] row' state] show ?case
  proof
    assume "find_row rr_run_id rid (db_runs d2) = Some (row\<lparr> rr_state := run_state_value st', rr_updated_at := t \<rparr>)"
    with st' final show ?case by blast
  next
    assume "\<exists>st2 now new. run_can_transition st' st2 \<and> find_row rr_run_id rid (db_runs d2) =
        Some (set_run_state st2 now (row\<lparr> rr_state := run_state_value st', rr_updated_at := t \<rparr>)) \<and>
        db_audit d2 = db_audit d1 @ new \<and> mentions_run rid new"
    then obtain st2 now where can: "run_can_transition st' st2" and row2: "find_row rr_run_id rid (db_runs d2) =
        Some (row\<lparr> rr_state := run_state_value st2, rr_updated_at := now \<rparr>)"
      by (auto simp: set_run_state_def)
    moreover have "st \<notin> run_terminal" using final can by (auto simp: run_can_transition_iff)
    ultimately show ?case using st' by (blast intro: rtranclp.rtrancl_into_rtrancl)
  qed
qed

theorem run_life_witness:
  "find_row rr_run_id sample_rid (db_runs (snd (uow (sweep_tx sample_sweeper sample_rid 9) (sample_state_db SENT)))) =
     Some (set_run_state SENT 5 sample_run_row)"
proof -
  let ?d = "sample_state_db SENT"
  have row: "find_row rr_run_id sample_rid (db_runs ?d) = Some (set_run_state SENT 5 sample_run_row)"
    by (simp add: sample_state_db_def set_run_state_def) (simp add: sample_run_row_def)
  have state: "rr_state (set_run_state SENT 5 sample_run_row) = run_state_value SENT"
    by (simp add: set_run_state_def)
  have step: "service_step\<^sup>*\<^sup>* ?d (snd (uow (sweep_tx sample_sweeper sample_rid 9) ?d))"
    by (intro r_into_rtranclp service_step.sweep)
  from run_life [OF step row state] show ?thesis by (auto simp: run_terminal_def set_run_state_def)
qed

text \<open>
  C2: a transaction after which a run is new or its row differs has added, in the same
  transaction, an audit event on that run, and removed none.
\<close>

theorem run_change_audited:
  assumes "service_step d d'"
    and "find_row rr_run_id rid (db_runs d') \<noteq> find_row rr_run_id rid (db_runs d)"
  shows "\<exists>new. db_audit d' = db_audit d @ new \<and> mentions_run rid new"
proof -
  have "run_change d d'" by (rule service_step_change [OF assms(1)])
  then show ?thesis
  proof (cases rule: run_change.cases)
    case (create row new)
    with assms(2) have "rr_run_id row = rid" by (auto split: if_splits option.splits)
    with create show ?thesis by blast
  next
    case (move rid' row st st' now new)
    with assms(2) have "rid' = rid"
      by (auto simp: find_row_update_rows set_run_state_def split: if_splits)
    with move show ?thesis by blast
  qed (use assms(2) retention_Done(1) in simp_all)
qed

theorem run_change_audited_witness:
  "mentions_run sample_rid (db_audit (snd (uow (finalize_tx sample_rid 9) (sample_state_db AGGREGATING))))"
proof -
  let ?d = "sample_state_db AGGREGATING"
  have "\<exists>d'. finalize_tx sample_rid 9 ?d = Done () d' \<and>
      find_row rr_run_id sample_rid (db_runs d') \<noteq> find_row rr_run_id sample_rid (db_runs ?d)"
    using sample_state_get [of AGGREGATING]
    by (auto simp: finalize_tx_Done sample_state_run_def sample_state_db_def set_run_state_def)
       (simp_all add: sample_run_row_def)
  then have "find_row rr_run_id sample_rid (db_runs (snd (uow (finalize_tx sample_rid 9) ?d))) \<noteq>
      find_row rr_run_id sample_rid (db_runs ?d)" by (auto simp: uow_def)
  from run_change_audited [OF service_step.finalize this] show ?thesis
    by (auto simp: sample_state_db_def sample_db_def empty_db_def)
qed

text \<open>
  C24: an audit event leaves the log only through retention, and only when it is older than the
  cutoff of that deletion.
\<close>

theorem audit_log_retained:
  assumes "service_step d d'" and "audit_wf d" and "a \<in> set (db_audit d)" and "a \<notin> set (db_audit d')"
  shows "\<exists>cutoff batch n. audit_delete_older_than cutoff batch d = Done n d' \<and> ar_timestamp a < dt_us cutoff"
proof -
  have "run_change d d'" by (rule service_step_change [OF assms(1)])
  then show ?thesis
  proof (cases rule: run_change.cases)
    case (retain cutoff batch n)
    with assms(3,4) obtain b where "b \<in> set (older_than (dt_us cutoff) batch (db_audit d))"
      and "ar_audit_id b = ar_audit_id a"
      by (auto simp: retention_Done(2))
    then have "b \<in> set (db_audit d)" "ar_timestamp b < dt_us cutoff" "b = a"
      using assms(2,3) by (auto simp: audit_wf_def audits.unique_keys_def distinct_map dest!: older_than_mem inj_onD)
    with retain show ?thesis by blast
  qed (use assms(3,4) in simp_all)
qed

theorem audit_log_retained_witness:
  "\<exists>cutoff. 5 < dt_us cutoff \<and> (\<exists>batch n. audit_delete_older_than cutoff batch
     (add_audit (finalize_event sample_run 5) sample_db) =
     Done n (snd (uow (audit_delete_older_than (utc 9) 1) (add_audit (finalize_event sample_run 5) sample_db))))"
proof -
  let ?d = "add_audit (finalize_event sample_run 5) sample_db"
  let ?a = "audit_row_of 1 (finalize_event sample_run 5)"
  have log: "db_audit ?d = [?a]" and time: "ar_timestamp ?a = 5"
    by (simp_all add: add_audit_def sample_db_def empty_db_def audit_row_of_def finalize_event_def)
  have "audit_wf ?d" by (rule audit_wf_add)
      (simp add: audit_wf_def audits.unique_keys_def sample_db_def empty_db_def)
  moreover have "?a \<in> set (db_audit ?d)" using log by simp
  moreover have "?a \<notin> set (db_audit (snd (uow (audit_delete_older_than (utc 9) 1) ?d)))"
    by (simp add: uow_def audit_delete_older_than_def tx_simps tx_bind_def tx_read_def log time check_def
        older_than_def)
  ultimately have "\<exists>cutoff batch n. audit_delete_older_than cutoff batch ?d =
      Done n (snd (uow (audit_delete_older_than (utc 9) 1) ?d)) \<and> ar_timestamp ?a < dt_us cutoff"
    by (rule audit_log_retained [OF service_step.prune_audit])
  then show ?thesis unfolding time by blast
qed

section \<open>An address with a line break\<close>

lemma after_line_split: "b \<noteq> [] \<Longrightarrow> \<exists>rest. after_line (a @ CHR 0x0A # b) = Some rest \<and> rest \<noteq> []"
proof (induction a)
  case Nil
  then show ?case by (simp add: line_break_def)
next
  case (Cons c a)
  then show ?case by (cases a) (auto split: if_splits)
qed

lemma join_split:
  "\<exists>a b. join sep (us @ z # v # vs) = a @ z @ sep @ b"
proof (induction us rule: join.induct [of _ sep])
  case 1
  show ?case by (rule exI [of _ "[]"]) auto
next
  case (2 sep x)
  have "join sep ([x] @ z # v # vs) = (x @ sep) @ z @ sep @ join sep (v # vs)" by simp
  then show ?case by blast
next
  case (3 sep x y ys)
  then obtain a b where "join sep ((y # ys) @ z # v # vs) = a @ z @ sep @ b" by blast
  then have "join sep ((x # y # ys) @ z # v # vs) = (x @ sep @ a) @ z @ sep @ b" by simp
  then show ?case by blast
qed

lemma newline_not_last:
  assumes "finite rs" and "x @ [CHR 0x0A] \<in> rs" and "y \<in> rs" and "x @ [CHR 0x0A] < y"
  shows "header_value (join '', '' (sorted_of rs)) = Inl value_error"
proof -
  have mem: "x @ [CHR 0x0A] \<in> set (sorted_of rs)" "y \<in> set (sorted_of rs)" using assms by simp_all
  then obtain us ws where split: "sorted_of rs = us @ (x @ [CHR 0x0A]) # ws" by (auto dest: split_list)
  have "ws \<noteq> []"
  proof
    assume "ws = []"
    with split have "\<forall>u \<in> set us. u \<le> x @ [CHR 0x0A]"
      using sorted_sorted_list_of_set [of rs] by (auto simp: sorted_append)
    with mem(2) split \<open>ws = []\<close> assms(4) show False by auto
  qed
  then obtain v vs where "sorted_of rs = us @ (x @ [CHR 0x0A]) # v # vs" using split by (cases ws) auto
  then obtain a b where "join '', '' (sorted_of rs) = a @ (x @ [CHR 0x0A]) @ '', '' @ b"
    using join_split [of "'', ''" us "x @ [CHR 0x0A]" v vs] by auto
  then have "join '', '' (sorted_of rs) = (a @ x) @ CHR 0x0A # ('', '' @ b)" by simp
  then obtain rest where "after_line (join '', '' (sorted_of rs)) = Some rest" "rest \<noteq> []"
    using after_line_split [of "'', '' @ b" "a @ x"] by auto
  then show ?thesis by (simp add: header_value_def check_def)
qed

lemma finite_recipients [simp]: "finite (recipients_for_run p tags d)"
  by (simp add: recipients_for_run_def)

lemma header_value_error: "header_value v = Inl e \<Longrightarrow> e = value_error"
  by (auto simp: header_value_def check_def split: if_splits)


text \<open>Two users with a global subscription; the address of the first ends in a line break.\<close>

definition newline_db :: db where
  "newline_db = (sample_state_db SENDING)\<lparr>
     db_users := [\<lparr> wr_user_id = 1, wr_email = ''a@b.c'' @ [CHR 0x0A], wr_display_name = ''a'', wr_disabled = False,
         wr_created_at = 1, wr_password_hash = ''h'', wr_is_admin = False \<rparr>,
       \<lparr> wr_user_id = 2, wr_email = ''z@b.c'', wr_display_name = ''z'', wr_disabled = False,
         wr_created_at = 1, wr_password_hash = ''h'', wr_is_admin = False \<rparr>],
     db_subscriptions := [\<lparr> ur_subscription_id = 1, ur_user_id = 1, ur_granularity = ''GLOBAL'',
         ur_target_value = None, ur_created_at = 1 \<rparr>,
       \<lparr> ur_subscription_id = 2, ur_user_id = 2, ur_granularity = ''GLOBAL'', ur_target_value = None,
         ur_created_at = 1 \<rparr>] \<rparr>"


end
