(* ===== verification/Steps.thy ===== *)
theory Steps
  imports System
begin

text \<open>
  The use cases refine the steps of theory System: whatever a call returns or raises, the
  database it leaves is reached from the one it found by the steps of its transactions.  What the
  steps guarantee therefore holds of any interleaving of calls, deliveries and background passes.
\<close>

section \<open>Calls as step sequences\<close>

abbreviation steps :: "db \<Rightarrow> db \<Rightarrow> bool" where
  "steps \<equiv> service_step\<^sup>*\<^sup>*"

lemma steps_uow: "service_step d (snd (uow m d)) \<Longrightarrow> uow m d = (r, d') \<Longrightarrow> steps d d'"
  by auto

text \<open>A call on the world keeps to the steps.\<close>

definition stepping :: "(world \<Rightarrow> 'r \<times> world) \<Rightarrow> bool" where
  "stepping f \<longleftrightarrow> (\<forall>w. steps (w_db w) (w_db (snd (f w))))"

named_theorems step_intro \<open>how a use case is built from steps\<close>

lemma steppingD: "stepping f \<Longrightarrow> f w = (r, w') \<Longrightarrow> steps (w_db w) (w_db w')"
  by (metis snd_conv stepping_def)

lemma in_uow_db: "w_db (snd (in_uow m w)) = snd (uow m (w_db w))"
  by (simp add: in_uow_def split: prod.split)

lemma stepping_uow: "(\<And>d. service_step d (snd (uow m d))) \<Longrightarrow> stepping (in_uow m)"
  by (auto simp: stepping_def in_uow_db)

lemma uow_read: "snd (uow (tx_read f) d) = d"
  by (cases "f d") (simp_all add: uow_def tx_read_def)

lemma stepping_read [step_intro]: "stepping (in_uow (tx_read f))"
  by (simp add: stepping_def in_uow_db uow_read)

lemma stepping_then [step_intro]: "stepping f \<Longrightarrow> (\<And>x. stepping (k x)) \<Longrightarrow> stepping (\<lambda>w. w_then (f w) k)"
  unfolding stepping_def
proof (intro allI)
  fix w assume f: "\<forall>w. steps (w_db w) (w_db (snd (f w)))" and k: "\<And>x. \<forall>w. steps (w_db w) (w_db (snd (k x w)))"
  obtain r w1 where fw: "f w = (r, w1)" by fastforce
  with f have "steps (w_db w) (w_db w1)" by (metis snd_conv)
  with k show "steps (w_db w) (w_db (snd (w_then (f w) k)))"
    by (cases r) (auto simp: w_then_def fw intro: rtranclp_trans)
qed

lemma stepping_same: "(\<And>w. w_db (snd (f w)) = w_db w) \<Longrightarrow> stepping f"
  by (simp add: stepping_def)

lemma stepping_after: "stepping f \<Longrightarrow> (\<And>w. w_db (snd (g w)) = w_db (snd (f w))) \<Longrightarrow> stepping g"
  by (simp add: stepping_def)

lemma stepping_if [step_intro]: "stepping f \<Longrightarrow> stepping g \<Longrightarrow> stepping (\<lambda>w. if b then f w else g w)"
  by (cases b) simp_all

lemma stepping_option [step_intro]:
  "stepping f \<Longrightarrow> (\<And>x. stepping (k x)) \<Longrightarrow> stepping (\<lambda>w. case r of None \<Rightarrow> f w | Some x \<Rightarrow> k x w)"
  by (cases r) simp_all

lemma stepping_sum [step_intro]:
  "(\<And>e. stepping (h e)) \<Longrightarrow> (\<And>x. stepping (k x)) \<Longrightarrow> stepping (\<lambda>w. case r of Inl e \<Rightarrow> h e w | Inr x \<Rightarrow> k x w)"
  by (cases r) simp_all

lemma stepping_return [step_intro]: "stepping (Pair r)" "stepping (\<lambda>w. (r, record_metrics ms w))"
  by (simp_all add: stepping_def record_metrics_def)

text \<open>\<open>case f w of (Inl e, w') \<Rightarrow> ... | (Inr x, w') \<Rightarrow> ...\<close>\<close>

lemma stepping_case [step_intro]:
  assumes "stepping f" and "\<And>e. stepping (h e)" and "\<And>x. stepping (k x)"
  shows "stepping (\<lambda>w. case f w of (Inl e, w') \<Rightarrow> h e w' | (Inr x, w') \<Rightarrow> k x w')"
  unfolding stepping_def
proof
  fix w
  obtain r w1 where fw: "f w = (r, w1)" by fastforce
  then have "steps (w_db w) (w_db w1)" by (rule steppingD [OF assms(1)])
  moreover have "steps (w_db w1) (w_db (snd (case r of Inl e \<Rightarrow> h e w1 | Inr x \<Rightarrow> k x w1)))"
    using assms(2,3) by (cases r) (simp_all add: stepping_def)
  ultimately show "steps (w_db w) (w_db (snd (case f w of (Inl e, w') \<Rightarrow> h e w' | (Inr x, w') \<Rightarrow> k x w')))"
    by (auto simp: fw split: sum.splits intro: rtranclp_trans)
qed

lemma stepping_pair [step_intro]: "(\<And>a b. stepping (k a b)) \<Longrightarrow> stepping (\<lambda>w. case p of (a, b) \<Rightarrow> k a b w)"
  by (cases p) simp

text \<open>A call that looks at the world before it acts.\<close>

lemma stepping_look: "(\<And>v. stepping (f v)) \<Longrightarrow> stepping (\<lambda>w. f w w)"
  by (simp add: stepping_def)

lemma stepping_pre: "stepping f \<Longrightarrow> (\<And>w. w_db (g w) = w_db w) \<Longrightarrow> stepping (\<lambda>w. f (g w))"
  by (auto simp: stepping_def dest: spec [of _ "g _"])

section \<open>The use cases\<close>

lemma submit_steps: "stepping (submit_stage_report now cmd)"
proof (cases "validate_run_id_str (sc_run_id cmd)")
  case (Inr rid)
  have "stepping (in_uow (submit_tx cmd rid now))" by (intro stepping_uow service_step.submit)
  then show ?thesis
    by (rule stepping_after)
      (auto simp: submit_stage_report_def Inr record_metrics_def split: prod.splits sum.splits)
qed (simp add: stepping_def submit_stage_report_def)

lemma finalize_steps: "stepping (finalize_run now rid)"
proof (cases "validate_run_id_str rid")
  case (Inr i)
  have "stepping (in_uow (finalize_tx i now))" by (intro stepping_uow service_step.finalize)
  then show ?thesis
    by (rule stepping_after) (auto simp: finalize_run_def Inr record_metrics_def split: prod.splits sum.splits)
qed (simp add: stepping_def finalize_run_def)

lemma begin_run_steps:
  assumes "begin_run registry vocabulary tr uuid now cmd w = (r, w')"
    and "find_row rr_run_id uuid (db_runs (w_db w)) = None"
  shows "steps (w_db w) (w_db w')"
proof -
  consider "w' = w" | run agg refs stages where "run = new_run uuid now cmd agg refs"
      "map_res (\<lambda>ds. stage_post_init (initial_stage uuid ds)) (run_declared_stages run) = Inr stages"
      "w_db w' = snd (uow (begin_run_tx (begin_run_event run now) run stages) (w_db w))"
    using assms(1)
    by (fastforce simp: begin_run_def and_then_Inr and_then_Inl run_post_init_Inr audit_event_post_init_Inr
        in_uow_def record_metrics_def split: sum.splits prod.splits)
  then show ?thesis
  proof cases
    case (2 run agg refs stages)
    have "stages = map (initial_stage uuid) (run_declared_stages run)"
      using map_res_Inr [OF 2(2)] by (induction rule: list_all2_induct) (auto simp: stage_post_init_Inr)
    with 2 service_step.begin_run [OF 2(1) assms(2)] show ?thesis by auto
  qed simp
qed

section \<open>Deliveries\<close>

lemma settle_run_steps: "stepping (in_uow body) \<Longrightarrow> stepping (settle_run st body)"
  by (erule stepping_after) (auto simp: settle_run_def split: prod.split sum.split option.split)

lemma finalize_failed_steps [step_intro]: "stepping (finalize_failed rid reason now)"
  unfolding finalize_failed_def by (intro settle_run_steps stepping_uow service_step.failed)

lemma finalize_sent_steps [step_intro]: "stepping (finalize_sent rid rs n now)"
  unfolding finalize_sent_def by (intro settle_run_steps stepping_uow service_step.sent)

lemma save_steps [step_intro]: "stepping (save_email_body dl rid html)" "stepping (save_fragments dl rid fs)"
proof -
  have save: "w_db (snd (save_report res e w)) = w_db w" for res e w
    by (simp add: save_report_def split: option.split)
  then show "stepping (save_email_body dl rid html)"
    unfolding save_email_body_def by (intro stepping_same) simp
  have "w_db (snd (save_fragments dl rid fs w)) = w_db w" for w
  proof (induction fs arbitrary: w)
    case (Cons f fs)
    obtain r w' where "save_report (dl_save_fragment dl rid (fr_stage_id f) (fr_rendered_html f))
        (rid, Some (fr_stage_id f), fr_rendered_html f) w = (r, w')" by fastforce
    with save [of "dl_save_fragment dl rid (fr_stage_id f) (fr_rendered_html f)"
        "(rid, Some (fr_stage_id f), fr_rendered_html f)" w] Cons show ?case by (cases r) simp_all
  qed simp
  then show "stepping (save_fragments dl rid fs)" by (rule stepping_same)
qed

lemma notify_steps [step_intro]: "stepping (send_admin_notification dl rid now)"
  by (intro stepping_same)
    (auto simp: send_admin_notification_def send_mail_def split: sum.split option.split)

lemma settled_mail_steps [step_intro]:
  "stepping (finish_sent dl rid rs body atts now)" "stepping (size_exceeded dl rid rs body e clock)"
  "stepping (delivery_failed rid rs e now)"
  unfolding finish_sent_def size_exceeded_def delivery_failed_def
  by (intro step_intro)+

lemma failed_steps [step_intro]:
  "stepping (render_failed rid e now)" "stepping (send_failed dl rid rs body e clock)"
  unfolding render_failed_def send_failed_def by (intro step_intro)+

lemma deliver_steps [step_intro]: "stepping (deliver dl r clock body atts)"
proof -
  have metrics: "w_db (record_metrics ms w) = w_db w" for ms w by (simp add: record_metrics_def)
  have send: "w_db (snd (send_mail dl m w)) = w_db w" for m w
    by (simp add: send_mail_def split: option.split)
  have tail: "stepping (\<lambda>w. w_then (outbound_email_post_init (outbound dl r rs body atts), w) (\<lambda>m w2.
        case send_mail dl m w2 of
          (None, w3) \<Rightarrow> finish_sent dl (run_run_id r) rs body atts (clock 1) w3
        | (Some e, w3) \<Rightarrow> send_failed dl (run_run_id r) rs body e clock w3))" for rs
  proof -
    have "stepping (\<lambda>w2. case send_mail dl m w2 of
          (None, w3) \<Rightarrow> finish_sent dl (run_run_id r) rs body atts (clock 1) w3
        | (Some e, w3) \<Rightarrow> send_failed dl (run_run_id r) rs body e clock w3)" for m
      unfolding send_mail_eq
      by (cases "dl_mailer dl m") (auto intro!: stepping_pre settled_mail_steps failed_steps)
    then show ?thesis by (intro step_intro)
  qed
  have "stepping (\<lambda>w1. let w2 = record_metrics [MSize (email_size body atts)] w1 in
      if rs = {} then finish_sent dl (run_run_id r) {} body atts (clock 1) w2
      else w_then (outbound_email_post_init (outbound dl r rs body atts), w2) (\<lambda>m w2.
        case send_mail dl m w2 of
          (None, w3) \<Rightarrow> finish_sent dl (run_run_id r) rs body atts (clock 1) w3
        | (Some e, w3) \<Rightarrow> send_failed dl (run_run_id r) rs body e clock w3))" for rs
    unfolding Let_def by (intro stepping_if stepping_pre [OF _ metrics] settled_mail_steps tail)
  then show ?thesis
    unfolding deliver_def list_recipients_for_run_def by (intro stepping_then stepping_read)
qed

lemma execute_steps: "stepping (execute dl rid clock)"
proof -
  have start: "stepping (in_uow (start_tx rid (clock 0)))" by (intro stepping_uow service_step.start)
  have "stepping (render_and_deliver dl r clock)" for r
  proof -
    define F where "F v w = (case load_and_render dl (run_run_id r) (w_db v) of
        Inl e \<Rightarrow> render_failed (run_run_id r) e (clock 1) w
      | Inr fs \<Rightarrow> (case save_fragments dl (run_run_id r) fs w of
          (Inl e, w') \<Rightarrow> render_failed (run_run_id r) e (clock 1) w'
        | (Inr _, w') \<Rightarrow> (case render_parts dl r fs of
              Inl e \<Rightarrow> render_failed (run_run_id r) e (clock 1) w'
            | Inr (atts, body) \<Rightarrow> deliver dl r clock body atts w')))" for v w :: world
    have "stepping (F v)" for v unfolding F_def by (intro step_intro)
    then have "stepping (\<lambda>w. F w w)" by (rule stepping_look)
    moreover have "render_and_deliver dl r clock = (\<lambda>w. F w w)" by (simp add: render_and_deliver_def F_def fun_eq_iff)
    ultimately show ?thesis by simp
  qed
  then have "stepping (\<lambda>w1. render_and_deliver dl r clock (record_metrics ms w1))" for r ms
    by (rule stepping_pre) (simp add: record_metrics_def)
  then show ?thesis unfolding execute_def by (intro stepping_then start)
qed

section \<open>Users, subscriptions and resends\<close>

lemma account_steps:
  "stepping (login au now email password)" "stepping (logout au now token i)"
  "stepping (session_dispatch au idle now cookie)"
  "stepping (create_user au i email name password adm disabled now)"
  "stepping (update_user i j c now)" "stepping (reset_password au i j password now)"
  "stepping (subscribe vocabulary pipelines i g tg t1 t2)" "stepping (unsubscribe sid i now)"
  "stepping (admin_subscribe vocabulary pipelines i j g tg t1 t2)" "stepping (admin_unsubscribe i j sid now)"
  unfolding login_def logout_def session_dispatch_def create_user_def update_user_def reset_password_def
    subscribe_def unsubscribe_def admin_subscribe_def admin_unsubscribe_def
  by (intro step_intro stepping_uow service_step.intros)+

lemma resend_record_steps [step_intro]: "stepping (record_resend rid i now outcome det)"
  unfolding record_resend_def by (intro stepping_uow service_step.resend)

lemma resend_prepared_steps [step_intro]: "stepping (resend_prepared dl r i now body atts)"
proof -
  have sent: "stepping (\<lambda>w1. case send_mail dl m w1 of
          (None, w2) \<Rightarrow> f w2 | (Some e, w2) \<Rightarrow> g e w2)" if "stepping f" "\<And>e. stepping (g e)"
    for m and f :: "world \<Rightarrow> 'z \<times> world" and g
    unfolding send_mail_eq using that by (cases "dl_mailer dl m") (auto intro!: stepping_pre)
  show ?thesis
    unfolding resend_prepared_def list_recipients_for_run_def Let_def
    by (intro step_intro sent)
qed

lemma resend_steps: "stepping (resend_run dl rid i now)"
proof -
  define F where "F v r w1 = (if run_state r \<notin> resendable_states
      then (Inl (err InvalidRunStateError
        [(''run_id'', JStr rid), (''current_state'', JStr (run_state_value (run_state r))),
         (''permitted_states'', JStrs (sorted_of (run_state_value ` resendable_states)))]), w1)
      else case prepare_email dl rid (w_db v) of
        Inl e \<Rightarrow> (case resend_caught e of
            None \<Rightarrow> (Inl e, w1)
          | Some name \<Rightarrow> record_render_failure rid i now name e w1)
      | Inr (r', body, atts) \<Rightarrow> resend_prepared dl r i now body atts w1)" for v w1 :: world and r
  have "stepping (F v r)" for v r
    unfolding F_def record_render_failure_def by (intro step_intro)
  then have "stepping (\<lambda>w. F w r w)" for r by (rule stepping_look)
  moreover have "resend_run dl rid i now = (\<lambda>w. w_then (in_uow (run_get rid) w) (\<lambda>r w1. F w1 r w1))"
    by (simp add: resend_run_def F_def fun_eq_iff)
  ultimately show ?thesis unfolding run_get_def by (simp add: stepping_then stepping_read)
qed

section \<open>Background passes\<close>

lemma sweeper_steps: "stepping (sweeper_tick sw clock)"
proof -
  have "stepping (sweep_candidates sw clock k cs counts)" for k cs counts
  proof (induction cs arbitrary: k counts)
    case Nil
    then show ?case by (cases counts) (simp add: stepping_def)
  next
    case (Cons c cs)
    obtain orphaned enqueued where counts: "counts = (orphaned, enqueued)" by fastforce
    have body: "stepping (\<lambda>w'. case x of
        None \<Rightarrow> sweep_candidates sw clock (Suc k) cs (orphaned, enqueued) w'
      | Some (n, dur) \<Rightarrow> sweep_candidates sw clock (Suc k) cs (orphaned + 1, enqueued + n)
          (record_metrics [MRun ORPHANED, MDuration dur] w'))" for x
      by (cases x) (auto intro!: Cons stepping_pre simp: record_metrics_def split: prod.split)
    have "stepping (in_uow (sweep_tx sw (run_run_id c) (clock k)))"
      by (intro stepping_uow service_step.sweep)
    then have "stepping (\<lambda>w. case in_uow (sweep_tx sw (run_run_id c) (clock k)) w of
        (Inl e, w') \<Rightarrow> (Inl e, w')
      | (Inr x, w') \<Rightarrow> (case x of
          None \<Rightarrow> sweep_candidates sw clock (Suc k) cs (orphaned, enqueued) w'
        | Some (n, dur) \<Rightarrow> sweep_candidates sw clock (Suc k) cs (orphaned + 1, enqueued + n)
            (record_metrics [MRun ORPHANED, MDuration dur] w')))"
      by (intro step_intro body)
    then show ?case by (simp add: counts)
  qed
  then show ?thesis
    unfolding sweeper_tick_def run_list_expired_def Let_def by (intro step_intro)
qed

lemma settle_all_steps: "steps d (snd (settle_all clock k os counts d))"
proof (induction os arbitrary: k counts d)
  case (Cons oc os)
  obtain r d1 where tx: "uow (settle_tx oc (clock k)) d = (r, d1)" by fastforce
  have "steps d d1" by (rule steps_uow [OF service_step.settle tx])
  then show ?case using Cons by (cases counts; cases r) (auto simp: tx intro: rtranclp_trans)
qed (cases counts; simp)

lemma dispatch_steps: "steps d (snd (dispatch_pending dp handlers clock d))"
proof -
  obtain r1 d1 where a: "uow (abandon_tx dp (clock 0)) d = (r1, d1)" by fastforce
  obtain r2 d2 where c: "uow (claim_tx dp (clock 1)) d1 = (r2, d2)" by fastforce
  have "steps d d1" "steps d1 d2"
    by (rule steps_uow [OF service_step.abandon a], rule steps_uow [OF service_step.claim c])
  moreover have "steps d2 d3" if "settle_all clock 2 os (0, 0) d2 = (r3, d3)" for os r3 d3
    using settle_all_steps [of d2 clock 2 os "(0, 0)"] by (simp add: that)
  ultimately show ?thesis
    by (cases r1; cases r2)
      (auto simp: dispatch_pending_def a c simp del: One_nat_def split: sum.split prod.split intro: rtranclp_trans)
qed

lemma loop_tick_steps: "stepping (loop_tick_once sw dp handlers clock clock')"
  unfolding stepping_def
proof
  fix w
  obtain r w1 where tick: "sweeper_tick sw clock w = (r, w1)" by fastforce
  then have "steps (w_db w) (w_db w1)" by (rule steppingD [OF sweeper_steps])
  then show "steps (w_db w) (w_db (snd (loop_tick_once sw dp handlers clock clock' w)))"
    using dispatch_steps [of "w_db w1" dp handlers clock']
    by (auto simp: loop_tick_once_def tick split: sum.split prod.split intro: rtranclp_trans)
qed

lemma evict_steps: "steps (w_db (fst s)) (w_db (fst (snd (evict_file io p r now s))))"
proof (cases s)
  case (Pair w fs)
  have "steps (w_db w) (w_db (snd (in_uow (audit_record ev) w)))"
    if "audit_event_post_init (prune_event p r since failure sz now) = Inr ev" for ev since failure sz
    using service_step.prune_report [OF that, of "w_db w"] by (auto simp: in_uow_db)
  then show ?thesis
    by (auto simp: Pair evict_file_def Let_def and_then_Inr split: sum.split prod.split)
      (metis snd_conv)+
qed

lemma report_prune_steps: "steps (w_db (fst s)) (w_db (fst (snd (prune_run_once cfg io now s))))"
proof -
  have evict: "steps (w_db (fst s)) (w_db (fst (snd (evict_all io ps r now c s))))" for ps r c s
  proof (induction ps arbitrary: c s)
    case (Cons p ps)
    obtain res s1 where e: "evict_file io p r now s = (res, s1)" by (rule prod.exhaust)
    then have "steps (w_db (fst s)) (w_db (fst s1))" by (metis evict_steps snd_conv)
    then show ?case using Cons [of s1] by (cases res) (auto simp: e intro: rtranclp_trans)
  qed simp
  have "steps (w_db (fst s)) (w_db (fst (snd (prune_candidates cfg io now rs c budget s))))" for rs c budget s
  proof (induction rs arbitrary: c budget s)
    case (Cons r rs)
    let ?dir = "path_div (rp_root cfg) (run_run_id r)"
    obtain res w1 fs1 where e: "evict_all io (list_files ?dir (snd s)) r now c s = (res, w1, fs1)"
      by (metis prod_cases3)
    then have "steps (w_db (fst s)) (w_db w1)" by (metis evict fst_conv snd_conv)
    then show ?case
      using Cons [where c = c and budget = budget and s = "(fst s, rmdir_empty_subtree io ?dir (snd s))"]
        Cons [where s = "(w1, rmdir_empty_subtree io ?dir fs1)"]
      by (cases res) (auto simp: e Let_def intro: rtranclp_trans)
  qed simp
  then show ?thesis
    by (auto simp: prune_run_once_def run_list_expired_def in_uow_def uow_def tx_read_def
        split: sum.split dest: meta_spec [of _ "(fst s, snd s)"])
qed

lemma audit_prune_steps:
  assumes "\<And>v. steps (w_db v) (w_db (between v))"
  shows "steps (w_db (fst s)) (w_db (fst (snd (audit_prune_once cfg fault between now s))))"
proof -
  obtain r w1 a1 where ar: "archive_expired cfg fault now s = (r, w1, a1)" by (metis prod_cases3)
  then have same: "w_db w1 = w_db (fst s)"
    by (auto simp: archive_expired_def audit_fetch_older_than_def in_uow_def uow_def tx_read_def
        split: if_splits sum.splits prod.splits tx_result.splits)
  let ?tx = "audit_delete_older_than (utc (now - ap_retention cfg)) (ap_batch_size cfg)"
  obtain r2 w2 where del: "in_uow ?tx (between w1) = (r2, w2)" by fastforce
  have "stepping (in_uow ?tx)" by (intro stepping_uow service_step.prune_audit)
  then have "steps (w_db (between w1)) (w_db w2)" by (rule steppingD [where f = "in_uow ?tx", OF _ del])
  then have "steps (w_db w1) (w_db w2)" using assms [of w1] by (rule rtranclp_trans [rotated])
  then show ?thesis
    by (auto simp: audit_prune_once_def ar del same split: sum.split bool.split)
qed

section \<open>Properties\<close>



end
