(* ===== verification/Loops.thy ===== *)
theory Loops
  imports Steps
begin

text \<open>
  \<open>AsyncioBackgroundTaskScheduler\<close>, the three polling loops and \<open>shutdown_service\<close>.  The event loop
  is the environment: it decides when a task is done, how a wait ends and what happens in
  between.  What it decides are arguments here.

  The locale \<open>polling\<close> is the contract of a loop body.  Its lemmas: a loop keeps what its ticks
  keep, and stops after the tick during which it was told to.
\<close>

section \<open>The scheduler\<close>

datatype task_outcome = Returned | Task_Raised exn | Task_Cancelled

type_synonym task = "nat \<times> string option"

text \<open>\<open>sc_ended\<close> is what \<open>_on_task_done\<close> was called with, in order; \<open>sc_errors\<close> what it logged as errors.\<close>

record scheduler =
  sc_tasks :: "task list"
  sc_created :: nat
  sc_shutting_down :: bool
  sc_ended :: "(task \<times> task_outcome) list"
  sc_errors :: "(task \<times> exn) list"

definition scheduler_init :: scheduler where
  "scheduler_init = \<lparr> sc_tasks = [], sc_created = 0, sc_shutting_down = False, sc_ended = [], sc_errors = [] \<rparr>"

definition scheduler_schedule :: "bool \<Rightarrow> string option \<Rightarrow> scheduler \<Rightarrow> (exn + unit) \<times> scheduler" where
  "scheduler_schedule running name s =
     (if sc_shutting_down s then (Inl (PyExc RuntimeError ''scheduler is shutting down; no new tasks accepted''), s)
      else if \<not> running
      then (Inl (PyExc RuntimeError ''BackgroundTaskScheduler.schedule requires a running event loop''), s)
      else (Inr (), s\<lparr> sc_tasks := sc_tasks s @ [(sc_created s, name)], sc_created := sc_created s + 1 \<rparr>))"

definition active_task_count :: "scheduler \<Rightarrow> nat" where
  "active_task_count s = length (sc_tasks s)"

definition begin_shutdown :: "scheduler \<Rightarrow> scheduler" where
  "begin_shutdown s = s\<lparr> sc_shutting_down := True \<rparr>"

definition on_task_done :: "task \<Rightarrow> task_outcome \<Rightarrow> scheduler \<Rightarrow> scheduler" where
  "on_task_done t out s = s\<lparr> sc_tasks := filter (\<lambda>u. u \<noteq> t) (sc_tasks s), sc_ended := sc_ended s @ [(t, out)],
     sc_errors := sc_errors s @ (case out of Task_Raised e \<Rightarrow> [(t, e)] | _ \<Rightarrow> []) \<rparr>"

text \<open>
  \<open>await_all\<close>: \<open>in_time\<close> says how each task in flight ends before the timeout, or that it does
  not; \<open>on_cancel\<close> how it ends once it is cancelled; \<open>meanwhile\<close> is what others schedule while
  the call waits.
\<close>

fun schedule_all :: "string option list \<Rightarrow> scheduler \<Rightarrow> scheduler" where
  "schedule_all [] s = s"
| "schedule_all (n # ns) s = schedule_all ns (snd (scheduler_schedule True n s))"

fun tasks_done :: "(task \<Rightarrow> task_outcome) \<Rightarrow> task list \<Rightarrow> scheduler \<Rightarrow> scheduler" where
  "tasks_done out [] s = s"
| "tasks_done out (t # ts) s = tasks_done out ts (on_task_done t (out t) s)"

definition await_all ::
  "(task \<Rightarrow> task_outcome option) \<Rightarrow> (task \<Rightarrow> task_outcome) \<Rightarrow> string option list \<Rightarrow> scheduler \<Rightarrow> scheduler" where
  "await_all in_time on_cancel meanwhile s =
     (if sc_tasks s = [] then s
      else let in_flight = sc_tasks s;
               pending = filter (\<lambda>t. in_time t = None) in_flight;
               s1 = schedule_all meanwhile s;
               s2 = tasks_done (\<lambda>t. the (in_time t)) (filter (\<lambda>t. in_time t \<noteq> None) in_flight) s1
           in tasks_done on_cancel pending s2)"

section \<open>A polling loop\<close>

text \<open>
  One turn of \<open>_run\<close>: the tick is cancelled, or it ends and the wait for the stop event ends with
  the event, with the timeout (the event may have been set by then) or by cancellation.
\<close>

datatype pause = Stop_Set | Timed_Out bool | Cancelled_Waiting
datatype turn = Ticked pause | Cancelled_Ticking
datatype loop_end = Loop_Returned | Loop_Cancelled

text \<open>\<open>None\<close> as the end: the loop is still running after these turns.\<close>

fun run_loop ::
  "(nat \<Rightarrow> 's \<Rightarrow> 's) \<Rightarrow> (nat \<Rightarrow> 's \<Rightarrow> 's) \<Rightarrow> (nat \<Rightarrow> 's \<Rightarrow> 's) \<Rightarrow> nat \<Rightarrow> bool \<Rightarrow> turn list \<Rightarrow> 's \<Rightarrow> loop_end option \<times> 's" where
  "run_loop tick broken env k True turns s = (Some Loop_Returned, s)"
| "run_loop tick broken env k False [] s = (None, s)"
| "run_loop tick broken env k False (Cancelled_Ticking # ts) s = (Some Loop_Cancelled, broken k s)"
| "run_loop tick broken env k False (Ticked p # ts) s =
     (let s' = env k (tick k s) in
      case p of Stop_Set \<Rightarrow> (Some Loop_Returned, s')
      | Cancelled_Waiting \<Rightarrow> (Some Loop_Cancelled, s')
      | Timed_Out stopped \<Rightarrow> run_loop tick broken env (Suc k) stopped ts s')"

record poller =
  po_interval :: int
  po_started :: bool
  po_stop_set :: bool

text \<open>The pruner loops check their interval; \<open>SweeperLoop\<close> takes it as it is.\<close>

definition sweeper_loop_init :: "int \<Rightarrow> poller" where
  "sweeper_loop_init seconds = \<lparr> po_interval = seconds, po_started = False, po_stop_set = False \<rparr>"

definition pruner_loop_init :: "int \<Rightarrow> exn + poller" where
  "pruner_loop_init seconds = check (seconds < 1) value_error
     (Inr \<lparr> po_interval = seconds, po_started = False, po_stop_set = False \<rparr>)"

definition loop_start :: "string \<Rightarrow> bool \<Rightarrow> poller \<times> scheduler \<Rightarrow> (exn + unit) \<times> poller \<times> scheduler" where
  "loop_start name running s = (case s of (p, sc) \<Rightarrow>
     if po_started p then (Inr (), p, sc)
     else (case scheduler_schedule running (Some name) sc of
         (Inl e, sc') \<Rightarrow> (Inl e, p, sc')
       | (Inr _, sc') \<Rightarrow> (Inr (), p\<lparr> po_started := True \<rparr>, sc')))"

definition sweeper_loop_start :: "bool \<Rightarrow> poller \<times> scheduler \<Rightarrow> (exn + unit) \<times> poller \<times> scheduler" where
  "sweeper_loop_start = loop_start ''sweeper_loop''"

definition report_loop_start :: "bool \<Rightarrow> poller \<times> scheduler \<Rightarrow> (exn + unit) \<times> poller \<times> scheduler" where
  "report_loop_start = loop_start ''report_pruner_loop''"

definition audit_loop_start :: "bool \<Rightarrow> poller \<times> scheduler \<Rightarrow> (exn + unit) \<times> poller \<times> scheduler" where
  "audit_loop_start = loop_start ''audit_log_pruner_loop''"

definition loop_stop :: "poller \<Rightarrow> poller" where
  "loop_stop p = p\<lparr> po_stop_set := True \<rparr>"

text \<open>The bodies: every exception of the pass is logged and goes no further.\<close>

definition sweeper_loop_tick ::
  "sweeper \<Rightarrow> dispatcher \<Rightarrow> handlers \<Rightarrow> (nat \<Rightarrow> nat \<Rightarrow> int) \<Rightarrow> (nat \<Rightarrow> nat \<Rightarrow> int) \<Rightarrow> nat \<Rightarrow> world \<Rightarrow> world" where
  "sweeper_loop_tick sw dp handlers clock clock' k w = snd (loop_tick_once sw dp handlers (clock k) (clock' k) w)"

definition report_loop_tick ::
  "report_pruner \<Rightarrow> prune_io \<Rightarrow> (nat \<Rightarrow> int) \<Rightarrow> nat \<Rightarrow> world \<times> files \<Rightarrow> world \<times> files" where
  "report_loop_tick cfg io now k s = (case prune_run_once cfg io (now k) s of (Inl _, s') \<Rightarrow> s' | (Inr _, s') \<Rightarrow> s')"

definition audit_loop_tick ::
  "audit_pruner \<Rightarrow> (nat \<Rightarrow> nat option) \<Rightarrow> (nat \<Rightarrow> int) \<Rightarrow> nat \<Rightarrow> world \<times> archive \<Rightarrow> world \<times> archive" where
  "audit_loop_tick cfg fault now k s =
     (case audit_prune_once cfg (fault k) (\<lambda>w. w) (now k) s of (Inl _, s') \<Rightarrow> s' | (Inr _, s') \<Rightarrow> s')"

text \<open>The three \<open>_run\<close> coroutines: the loop over its body.\<close>

definition sweeper_loop_run where
  "sweeper_loop_run sw dp handlers clock clock' = run_loop (sweeper_loop_tick sw dp handlers clock clock')"

definition report_loop_run where
  "report_loop_run cfg io now = run_loop (report_loop_tick cfg io now)"

definition audit_loop_run where
  "audit_loop_run cfg fault now = run_loop (audit_loop_tick cfg fault now)"

section \<open>Shutdown\<close>

record runtime =
  rt_scheduler :: scheduler
  rt_sweeper_loop :: poller
  rt_report_loop :: poller
  rt_audit_loop :: poller
  rt_connection_open :: bool

definition shutdown_service ::
  "(task \<Rightarrow> task_outcome option) \<Rightarrow> (task \<Rightarrow> task_outcome) \<Rightarrow> string option list \<Rightarrow> runtime \<Rightarrow> runtime" where
  "shutdown_service in_time on_cancel meanwhile rt =
     (let rt1 = rt\<lparr> rt_sweeper_loop := loop_stop (rt_sweeper_loop rt),
                rt_report_loop := loop_stop (rt_report_loop rt),
                rt_audit_loop := loop_stop (rt_audit_loop rt) \<rparr>;
          rt2 = rt1\<lparr> rt_scheduler := begin_shutdown (rt_scheduler rt1) \<rparr>;
          rt3 = rt2\<lparr> rt_scheduler := await_all in_time on_cancel meanwhile (rt_scheduler rt2) \<rparr>
      in rt3\<lparr> rt_connection_open := False \<rparr>)"

section \<open>What the scheduler guarantees\<close>

lemma schedule_all_shutting: "sc_shutting_down s \<Longrightarrow> schedule_all ns s = s"
  by (induction ns) (simp_all add: scheduler_schedule_def)

lemma tasks_done_eq:
  "tasks_done out ts s = s\<lparr> sc_tasks := filter (\<lambda>u. u \<notin> set ts) (sc_tasks s),
     sc_ended := sc_ended s @ map (\<lambda>t. (t, out t)) ts,
     sc_errors := sc_errors s @ [(t, e). t \<leftarrow> ts, e \<leftarrow> (case out t of Task_Raised e \<Rightarrow> [e] | _ \<Rightarrow> [])] \<rparr>"
proof (induction ts arbitrary: s)
  case (Cons t ts)
  then show ?case by (cases "out t") (auto simp: on_task_done_def intro: filter_cong)
qed simp

section \<open>What a loop keeps and when it stops\<close>

locale polling =
  fixes tick :: "nat \<Rightarrow> 's \<Rightarrow> 's" and reaches :: "'s \<Rightarrow> 's \<Rightarrow> bool"
  assumes reaches_refl: "reaches s s"
    and reaches_trans: "reaches s t \<Longrightarrow> reaches t u \<Longrightarrow> reaches s u"
    and tick_reaches: "reaches s (tick k s)"
begin

lemma loop_reaches:
  assumes "\<And>k v. reaches v (broken k v)" and "\<And>k v. reaches v (env k v)"
  shows "reaches s (snd (run_loop tick broken env k stopped turns s))"
proof (induction turns arbitrary: k stopped s)
  case Nil
  then show ?case by (cases stopped) (simp_all add: reaches_refl)
next
  case (Cons t ts)
  have "reaches s (env k (tick k s))" by (rule reaches_trans [OF tick_reaches assms(2)])
  then show ?case
    using Cons assms(1) by (cases stopped; cases t)
      (auto simp: reaches_refl Let_def split: pause.split intro: reaches_trans)
qed

end

definition world_steps :: "world \<Rightarrow> world \<Rightarrow> bool" where
  "world_steps v w \<longleftrightarrow> steps (w_db v) (w_db w)"

interpretation sweeper_polling: polling "sweeper_loop_tick sw dp handlers clock clock'" world_steps
  for sw dp handlers clock clock'
  using loop_tick_steps
  by unfold_locales (auto simp: world_steps_def sweeper_loop_tick_def stepping_def intro: rtranclp_trans)

lemma tick_snd:
  "report_loop_tick cfg io now k s = snd (prune_run_once cfg io (now k) s)"
  "audit_loop_tick ap fault now k t = snd (audit_prune_once ap (fault k) (\<lambda>w. w) (now k) t)"
  by (simp_all add: report_loop_tick_def audit_loop_tick_def split: prod.split sum.split)

interpretation report_polling: polling "report_loop_tick cfg io now" "\<lambda>s t. world_steps (fst s) (fst t)"
  for cfg io now
  using report_prune_steps by unfold_locales (auto simp: world_steps_def tick_snd intro: rtranclp_trans)

interpretation audit_polling: polling "audit_loop_tick cfg fault now" "\<lambda>s t. world_steps (fst s) (fst t)"
  for cfg fault now
  using audit_prune_steps [where between = "\<lambda>w. w"]
  by unfold_locales (auto simp: world_steps_def tick_snd intro: rtranclp_trans)

section \<open>Properties\<close>



text \<open>
  A polling loop that is told to stop during or right after its n-th further tick makes that
  tick its last and returns, and one told to stop before its first turn makes none; the ticks
  themselves cannot end it.
\<close>

theorem loop_stops:
  "run_loop tick broken env k stopped (replicate n (Ticked (Timed_Out False)) @ Ticked p # ts) s =
    (if stopped then (Some Loop_Returned, s)
     else let s' = fold (\<lambda>j v. env j (tick j v)) [k ..< k + Suc n] s
       in case p of Stop_Set \<Rightarrow> (Some Loop_Returned, s') | Cancelled_Waiting \<Rightarrow> (Some Loop_Cancelled, s')
          | Timed_Out b \<Rightarrow> run_loop tick broken env (k + Suc n) b ts s')"
proof (cases stopped)
  case False
  have "run_loop tick broken env k False (replicate n (Ticked (Timed_Out False)) @ Ticked p # ts) s =
      (let s' = fold (\<lambda>j v. env j (tick j v)) [k ..< k + Suc n] s
       in case p of Stop_Set \<Rightarrow> (Some Loop_Returned, s') | Cancelled_Waiting \<Rightarrow> (Some Loop_Cancelled, s')
          | Timed_Out b \<Rightarrow> run_loop tick broken env (k + Suc n) b ts s')"
  proof (induction n arbitrary: k s)
    case (Suc n)
    have "[k ..< k + Suc (Suc n)] = k # [Suc k ..< Suc k + Suc n]" by (subst upt_conv_Cons) simp_all
    then show ?case using Suc [of "Suc k" "env k (tick k s)"] by (simp add: Let_def del: upt_Suc split: pause.split)
  qed (simp add: Let_def split: pause.split)
  with False show ?thesis by simp
qed (cases n; simp)


end
