(* ===== verification/Config.thy ===== *)
theory Config
  imports Report_Store Templates
begin

text \<open>
  The configuration (\<open>config/loader.py\<close>, \<open>config/schema.py\<close>): substitution of environment
  variables, resolution of paths, and validation against the schema.  The schema is a value
  (\<open>config_schema\<close>), so the model classes are read off the source field by field, and validation
  is one function over it.

  pydantic decides how a value is coerced to a Python type and what an e-mail address is: the
  record \<open>pydantic\<close>.  The TOML parser and \<open>str.format\<close> are functions in it as well.

  The properties: validation accepts exactly the values of the schema's kinds, and a loaded
  configuration satisfies the constraints the start-up code relies on; the two passes before
  validation touch nothing but the secrets and the path fields.
\<close>

section \<open>Environment variables\<close>

definition env_start :: "char \<Rightarrow> bool" where
  "env_start c \<longleftrightarrow> is_lower c \<or> is_upper c \<or> c = CHR ''_''"

definition env_char :: "char \<Rightarrow> bool" where
  "env_char c \<longleftrightarrow> env_start c \<or> is_digit c"

text \<open>\<open>_ENV_PATTERN\<close> at the start of a text: the name and what follows.\<close>

definition env_match :: "string \<Rightarrow> (string \<times> string) option" where
  "env_match s =
     (if take 6 s = ''${env:''
      then (let name = takeWhile env_char (drop 6 s); rest = dropWhile env_char (drop 6 s)
            in if name \<noteq> [] \<and> env_start (hd name) \<and> rest \<noteq> [] \<and> hd rest = CHR ''}''
               then Some (name, tl rest) else None)
      else None)"

lemma env_match_shorter: "env_match s = Some (name, rest) \<Longrightarrow> length rest < length s"
proof -
  assume m: "env_match s = Some (name, rest)"
  then have "rest = tl (dropWhile env_char (drop 6 s))" and "s \<noteq> []"
    by (auto simp: env_match_def Let_def split: if_splits)
  moreover have "length (dropWhile env_char (drop 6 s)) \<le> length s - 6" by (metis length_drop length_dropWhile_le)
  ultimately show ?thesis by (cases s) auto
qed

text \<open>\<open>_apply_substitution\<close>: one pass from left to right; what a variable holds is not looked at again.\<close>

function subst_from :: "(string \<Rightarrow> string option) \<Rightarrow> string \<Rightarrow> string \<Rightarrow> exn + string" where
  "subst_from env raw s = (case env_match s of
     Some (name, rest) \<Rightarrow>
       (case env name of
          None \<Rightarrow> Inl (config_error [(''env_var'', JStr name), (''raw_value'', JStr raw)])
        | Some v \<Rightarrow> and_then (subst_from env raw rest) (\<lambda>t. Inr (v @ t)))
   | None \<Rightarrow> (case s of [] \<Rightarrow> Inr [] | c # cs \<Rightarrow> and_then (subst_from env raw cs) (\<lambda>t. Inr (c # t))))"
  by pat_completeness auto

termination
  by (relation "measure (\<lambda>(env, raw, s). length s)") (auto dest: env_match_shorter)

declare subst_from.simps [simp del]

definition apply_substitution :: "(string \<Rightarrow> string option) \<Rightarrow> string \<Rightarrow> exn + string" where
  "apply_substitution env s = subst_from env s s"

lemma map_res_cong [fundef_cong]:
  "xs = ys \<Longrightarrow> (\<And>x. x \<in> set ys \<Longrightarrow> f x = g x) \<Longrightarrow> map_res f xs = map_res g ys"
  by (induction ys arbitrary: xs) auto

definition substitute_text :: "(string \<Rightarrow> string option) \<Rightarrow> json \<Rightarrow> exn + json" where
  "substitute_text env v = (case v of JStr s \<Rightarrow> and_then (apply_substitution env s) (\<lambda>t. Inr (JStr t)) | _ \<Rightarrow> Inr v)"

fun substitute_at ::
  "(string \<Rightarrow> string option) \<Rightarrow> string list set \<Rightarrow> string list \<Rightarrow> json \<Rightarrow> exn + json" where
  "substitute_at env paths path (JObj d) = and_then
     (map_res (\<lambda>(k, v). and_then (substitute_at env paths (path @ [k]) v) (\<lambda>v'. Inr (k, v'))) d)
     (\<lambda>d'. Inr (JObj d'))"
| "substitute_at env paths path (JArr xs) =
     (if path \<in> paths then and_then (map_res (substitute_text env) xs) (\<lambda>ys. Inr (JArr ys)) else Inr (JArr xs))"
| "substitute_at env paths path v = (if path \<in> paths then substitute_text env v else Inr v)"

section \<open>Paths\<close>

definition path_fields :: "string list list" where
  "path_fields = [[''persistence'', ''sqlite_path''], [''persistence'', ''filesystem'', ''report_directory''],
     [''templates'', ''manifest_path''], [''tags'', ''vocabulary_path''],
     [''observability'', ''audit'', ''archive_directory'']]"

definition resolve_config_path :: "path \<Rightarrow> string \<Rightarrow> string" where
  "resolve_config_path base s =
     (if take 1 s = ''/'' then path_text (path_div [] s) else path_text (resolve (path_div base s)))"

text \<open>\<open>cursor[k] = ...\<close> along a path of keys; nothing happens when the path leaves the tables.\<close>

fun update_at :: "(json \<Rightarrow> json) \<Rightarrow> string list \<Rightarrow> json \<Rightarrow> json" where
  "update_at f [] v = f v"
| "update_at f (k # ks) (JObj d) = JObj (map (\<lambda>(k', v). (k', if k' = k then update_at f ks v else v)) d)"
| "update_at f (k # ks) v = v"

definition resolve_one :: "path \<Rightarrow> string list \<Rightarrow> json \<Rightarrow> json" where
  "resolve_one base ks d =
     update_at (\<lambda>v. case v of JStr s \<Rightarrow> JStr (resolve_config_path base s) | _ \<Rightarrow> v) ks d"

definition resolve_paths :: "path \<Rightarrow> json \<Rightarrow> json" where
  "resolve_paths base d = fold (resolve_one base) path_fields d"

section \<open>Kinds of values\<close>

datatype kind =
    K_Int "int option" "int option"
  | K_Str nat
  | K_Bool
  | K_Path
  | K_Email
  | K_Literal "string list"
  | K_List kind
  | K_Dict kind
  | K_Optional kind
  | K_Model "(string \<times> bool \<times> json option \<times> kind) list" "json \<Rightarrow> exn + string option"

text \<open>
  A field: its name, whether it carries the marker of substitution, its default, its kind.  A
  model ends with its validators: no complaint, the message of a ValueError, or another exception,
  which pydantic does not catch.
\<close>

datatype problem = Missing | Extra_Forbidden | Wrong_Type | Too_Small int | Too_Big int | Too_Short nat
  | Not_An_Email | Not_Listed | Validator_Failed string

type_synonym violation = "string list \<times> problem"

datatype format_outcome = Formats | Not_A_Template | Format_Escapes exn

record pydantic =
  px_int :: "json \<Rightarrow> int option"
  px_str :: "json \<Rightarrow> string option"
  px_bool :: "json \<Rightarrow> bool option"
  px_email :: "string \<Rightarrow> string option"
  px_format :: "string \<Rightarrow> format_outcome"

definition bad :: "string list \<Rightarrow> problem \<Rightarrow> json \<Rightarrow> exn + violation list \<times> json" where
  "bad loc p v = Inr ([(loc, p)], v)"

definition good :: "json \<Rightarrow> exn + violation list \<times> json" where
  "good v = Inr ([], v)"

text \<open>The parts of a list or table, each at its own location, with all their violations.\<close>

definition gather :: "(exn + violation list \<times> 'a) list \<Rightarrow> exn + violation list \<times> 'a list" where
  "gather rs = and_then (map_res (\<lambda>r. r) rs) (\<lambda>ps. Inr (concat (map fst ps), map snd ps))"

fun validate :: "pydantic \<Rightarrow> string list \<Rightarrow> kind \<Rightarrow> json \<Rightarrow> exn + violation list \<times> json" and
  validate_fields :: "pydantic \<Rightarrow> string list \<Rightarrow> (string \<times> bool \<times> json option \<times> kind) list \<Rightarrow> dict
    \<Rightarrow> exn + violation list \<times> dict" where
  "validate px loc (K_Int lo hi) v = (case px_int px v of
     None \<Rightarrow> bad loc Wrong_Type v
   | Some i \<Rightarrow>
       (case hi of Some h \<Rightarrow> if h < i then bad loc (Too_Big h) v else
          (case lo of Some l \<Rightarrow> if i < l then bad loc (Too_Small l) v else good (JInt i) | None \<Rightarrow> good (JInt i))
        | None \<Rightarrow>
          (case lo of Some l \<Rightarrow> if i < l then bad loc (Too_Small l) v else good (JInt i) | None \<Rightarrow> good (JInt i))))"
| "validate px loc (K_Str n) v = (case px_str px v of
     None \<Rightarrow> bad loc Wrong_Type v
   | Some s \<Rightarrow> if length s < n then bad loc (Too_Short n) v else good (JStr s))"
| "validate px loc K_Bool v = (case px_bool px v of None \<Rightarrow> bad loc Wrong_Type v | Some b \<Rightarrow> good (JBool b))"
| "validate px loc K_Path v = (case px_str px v of None \<Rightarrow> bad loc Wrong_Type v | Some s \<Rightarrow> good (JStr s))"
| "validate px loc K_Email v = (case px_str px v of
     None \<Rightarrow> bad loc Wrong_Type v
   | Some s \<Rightarrow> (case px_email px s of None \<Rightarrow> bad loc Not_An_Email v | Some e \<Rightarrow> good (JStr e)))"
| "validate px loc (K_Literal ls) v = (if v \<in> JStr ` set ls then good v else bad loc Not_Listed v)"
| "validate px loc (K_List k) v = (case v of
     JArr xs \<Rightarrow> and_then (gather (map (\<lambda>(i, x). validate px (loc @ [show_nat i]) k x) (enumerate 0 xs)))
       (\<lambda>(vs, ys). Inr (vs, JArr ys))
   | _ \<Rightarrow> bad loc Wrong_Type v)"
| "validate px loc (K_Dict k) v = (case v of
     JObj d \<Rightarrow> and_then (gather (map (\<lambda>(i, x). validate px (loc @ [i]) k x) d))
       (\<lambda>(vs, ys). Inr (vs, JObj (zip (map fst d) ys)))
   | _ \<Rightarrow> bad loc Wrong_Type v)"
| "validate px loc (K_Optional k) v = (if v = JNull then good JNull else validate px loc k v)"
| "validate px loc (K_Model flds complaint) v = (case v of
     JObj d \<Rightarrow> and_then (validate_fields px loc flds d) (\<lambda>(vs, d').
       let extra = map (\<lambda>k. (loc @ [k], Extra_Forbidden)) (filter (\<lambda>k. k \<notin> fst ` set flds) (map fst d)) in
       if vs @ extra \<noteq> [] then Inr (vs @ extra, v)
       else and_then (complaint (JObj d')) (\<lambda>c. case c of
           None \<Rightarrow> good (JObj d') | Some msg \<Rightarrow> bad loc (Validator_Failed msg) v))
   | _ \<Rightarrow> bad loc Wrong_Type v)"
| "validate_fields px loc [] d = Inr ([], [])"
| "validate_fields px loc ((name, marked, dflt, k) # flds) d =
     and_then (case dict_get d name of
         Some x \<Rightarrow> validate px (loc @ [name]) k x
       | None \<Rightarrow> (case dflt of None \<Rightarrow> bad (loc @ [name]) Missing (JObj d) | Some x \<Rightarrow> good x)) (\<lambda>(vs, x).
     and_then (validate_fields px loc flds d) (\<lambda>(ws, rest). Inr (vs @ ws, (name, x) # rest)))"

section \<open>The schema\<close>

abbreviation required :: "string \<Rightarrow> kind \<Rightarrow> string \<times> bool \<times> json option \<times> kind" where
  "required name k \<equiv> (name, False, None, k)"

abbreviation optional :: "string \<Rightarrow> json \<Rightarrow> kind \<Rightarrow> string \<times> bool \<times> json option \<times> kind" where
  "optional name v k \<equiv> (name, False, Some v, k)"

text \<open>\<open>SubstitutableStr\<close>\<close>

abbreviation substitutable :: "string \<Rightarrow> json option \<Rightarrow> string \<times> bool \<times> json option \<times> kind" where
  "substitutable name v \<equiv> (name, True, v, K_Str 0)"

abbreviation at_least :: "int \<Rightarrow> kind" where
  "at_least n \<equiv> K_Int (Some n) None"

abbreviation between_ints :: "int \<Rightarrow> int \<Rightarrow> kind" where
  "between_ints lo hi \<equiv> K_Int (Some lo) (Some hi)"

definition plain_model :: "(string \<times> bool \<times> json option \<times> kind) list \<Rightarrow> kind" where
  "plain_model flds = K_Model flds (\<lambda>v. Inr None)"

text \<open>\<open>default_factory=SomeModel\<close>: the model built from its own defaults.\<close>

fun model_defaults :: "kind \<Rightarrow> json" where
  "model_defaults (K_Model flds complaint) =
     JObj [(name, v). (name, marked, dflt, k) \<leftarrow> flds, v \<leftarrow> (case dflt of None \<Rightarrow> [] | Some v \<Rightarrow> [v])]"
| "model_defaults k = JNull"

definition grpc_config :: kind where
  "grpc_config = plain_model [optional ''host'' (JStr ''0.0.0.0'') (K_Str 1),
     optional ''port'' (JInt 50051) (between_ints 1 65535), optional ''max_concurrent_rpcs'' (JInt 100) (at_least 1),
     optional ''max_in_flight_rpcs'' (JInt 0) (at_least 0)]"

definition dashboard_config :: kind where
  "dashboard_config = plain_model [optional ''host'' (JStr ''0.0.0.0'') (K_Str 1),
     optional ''port'' (JInt 8080) (between_ints 1 65535), optional ''https_only'' (JBool True) K_Bool]"

definition filesystem_config :: kind where
  "filesystem_config = plain_model [required ''report_directory'' K_Path,
     optional ''report_retention_days'' (JInt 90) (at_least 1),
     optional ''prune_interval_seconds'' (JInt 86400) (at_least 1),
     optional ''max_prunes_per_iteration'' (JInt 1000) (at_least 1)]"

definition persistence_config :: kind where
  "persistence_config = plain_model [required ''sqlite_path'' K_Path, required ''filesystem'' filesystem_config]"

definition template_ref_config :: kind where
  "template_ref_config = plain_model [required ''name'' (K_Str 1), required ''version'' (K_Str 1)]"

definition templates_config :: kind where
  "templates_config = plain_model [required ''manifest_path'' K_Path,
     optional ''max_context_bytes'' (JInt 1048576) (at_least 1024),
     optional ''max_rendered_bytes'' (JInt 10485760) (at_least 1024),
     required ''email_body_template_ref'' template_ref_config]"

definition tags_config :: kind where
  "tags_config = plain_model [required ''vocabulary_path'' K_Path]"

definition disposition_action :: kind where
  "disposition_action = K_Literal [''SEND_PARTIAL_FLAGGED'', ''DISCARD_SILENTLY'', ''NOTIFY_SUBSCRIBERS'',
     ''NOTIFY_ADMINS'']"

text \<open>Access to a validated value: the member of a table, the texts of a list, the keys of a table.\<close>

fun member :: "json \<Rightarrow> string \<Rightarrow> json" where
  "member (JObj d) k = (case dict_get d k of Some v \<Rightarrow> v | None \<Rightarrow> JNull)"
| "member v k = JNull"

fun texts :: "json \<Rightarrow> string list" where
  "texts (JArr xs) = [s. JStr s \<leftarrow> xs]"
| "texts v = []"

fun entries :: "json \<Rightarrow> dict" where
  "entries (JObj d) = d"
| "entries v = []"

text \<open>The messages of the validators are left out; the key they complain about stands for them.\<close>

fun subject_templates_complaint :: "pydantic \<Rightarrow> string list \<Rightarrow> dict \<Rightarrow> exn + string option" where
  "subject_templates_complaint px registered [] = Inr None"
| "subject_templates_complaint px registered ((pipeline, t) # rest) =
     (let template = (case t of JStr s \<Rightarrow> s | _ \<Rightarrow> []) in
      if pipeline \<notin> set registered then Inr (Some pipeline)
      else if CHR 0x0D \<in> set template \<or> CHR 0x0A \<in> set template then Inr (Some pipeline)
      else (case px_format px template of
          Formats \<Rightarrow> subject_templates_complaint px registered rest
        | Not_A_Template \<Rightarrow> Inr (Some pipeline)
        | Format_Escapes e \<Rightarrow> Inl e))"

definition unregistered_key :: "string list \<Rightarrow> dict \<Rightarrow> string option" where
  "unregistered_key registered d = List.find (\<lambda>k. k \<notin> set registered) (map fst d)"

definition pipelines_complaint :: "pydantic \<Rightarrow> json \<Rightarrow> exn + string option" where
  "pipelines_complaint px v =
     (let registered = texts (member v ''registered'') in
      and_then (subject_templates_complaint px registered (entries (member v ''subject_templates''))) (\<lambda>c.
      case c of Some msg \<Rightarrow> Inr (Some msg) | None \<Rightarrow>
      (case unregistered_key registered (entries (member v ''email_body_template_overrides'')) of
         Some k \<Rightarrow> Inr (Some k)
       | None \<Rightarrow> Inr (unregistered_key registered (entries (member v ''orphan_disposition_overrides''))))))"

definition pipelines_config :: "pydantic \<Rightarrow> kind" where
  "pipelines_config px = K_Model
     [optional ''registered'' (JArr []) (K_List (K_Str 0)),
      optional ''subject_templates'' (JObj []) (K_Dict (K_Str 0)),
      optional ''email_body_template_overrides'' (JObj []) (K_Dict template_ref_config),
      optional ''orphan_disposition_overrides'' (JObj []) (K_Dict (K_List disposition_action))]
     (pipelines_complaint px)"

definition sweeper_config :: kind where
  "sweeper_config = plain_model [optional ''run_timeout_seconds'' (JInt 3600) (at_least 1),
     optional ''poll_interval_seconds'' (JInt 60) (at_least 1),
     optional ''max_candidates_per_iteration'' (JInt 1000) (at_least 1),
     optional ''stale_claim_threshold_seconds'' (JInt 300) (at_least 1),
     optional ''max_dispatch_attempts'' (JInt 3) (at_least 1),
     optional ''disposition_actions'' (JStrs [''NOTIFY_ADMINS'', ''DISCARD_SILENTLY'']) (K_List disposition_action)]"

definition smtp_config :: kind where
  "smtp_config = plain_model [required ''host'' (K_Str 1), required ''port'' (between_ints 1 65535),
     substitutable ''username'' (Some (JStr [])), substitutable ''password'' (Some (JStr [])),
     optional ''use_starttls'' (JBool True) K_Bool]"

definition mail_retry_config :: kind where
  "mail_retry_config = plain_model [optional ''max_retries'' (JInt 5) (between_ints 0 20),
     optional ''initial_interval_seconds'' (JInt 2) (at_least 1),
     optional ''max_interval_seconds'' (JInt 300) (at_least 1)]"

definition mail_config :: kind where
  "mail_config = plain_model [required ''from_address'' K_Email,
     optional ''max_email_size_bytes'' (JInt 26214400) (at_least 1024),
     optional ''admin_recipients'' (JArr []) (K_List K_Email), required ''smtp'' smtp_config,
     optional ''retry'' (model_defaults mail_retry_config) mail_retry_config]"

definition argon2_config :: kind where
  "argon2_config = plain_model [optional ''memory_cost'' (JInt 65536) (at_least 8),
     optional ''time_cost'' (JInt 3) (at_least 1), optional ''parallelism'' (JInt 4) (at_least 1),
     optional ''hash_len'' (JInt 32) (at_least 16), optional ''salt_len'' (JInt 16) (at_least 8)]"

definition admin_complaint :: "json \<Rightarrow> exn + string option" where
  "admin_complaint v = Inr (case member v ''password'' of
     JStr s \<Rightarrow> if py_strip s = [] then Some ''password'' else None | _ \<Rightarrow> None)"

definition admin_account_config :: kind where
  "admin_account_config = K_Model [required ''email'' K_Email, substitutable ''password'' None] admin_complaint"

definition auth_config :: kind where
  "auth_config = plain_model [optional ''session_idle_timeout_seconds'' (JInt 3600) (at_least 60),
     optional ''argon2'' (model_defaults argon2_config) argon2_config,
     optional ''admin'' JNull (K_Optional admin_account_config)]"

definition audit_config :: kind where
  "audit_config = plain_model [optional ''retention_days'' (JInt 365) (at_least 1),
     optional ''cleanup_interval_hours'' (JInt 24) (at_least 1),
     optional ''cleanup_batch_size'' (JInt 10000) (between_ints 100 1000000),
     optional ''archive_directory'' JNull (K_Optional K_Path)]"

definition observability_config :: kind where
  "observability_config = plain_model
     [optional ''log_level'' (JStr ''INFO'') (K_Literal [''DEBUG'', ''INFO'', ''WARNING'', ''ERROR'', ''CRITICAL'']),
      optional ''audit'' (model_defaults audit_config) audit_config]"

definition service_config :: kind where
  "service_config = plain_model [optional ''shutdown_grace_period_seconds'' (JInt 30) (between_ints 1 600)]"

definition ports_complaint :: "json \<Rightarrow> exn + string option" where
  "ports_complaint v = Inr (if member (member v ''dashboard'') ''port'' = member (member v ''grpc'') ''port''
     then Some ''port'' else None)"

definition config_schema :: "pydantic \<Rightarrow> kind" where
  "config_schema px = K_Model
     [required ''grpc'' grpc_config, required ''dashboard'' dashboard_config,
      required ''persistence'' persistence_config, required ''templates'' templates_config,
      required ''tags'' tags_config, optional ''sweeper'' (model_defaults sweeper_config) sweeper_config,
      required ''mail'' mail_config, optional ''auth'' (model_defaults auth_config) auth_config,
      optional ''observability'' (model_defaults observability_config) observability_config,
      optional ''service'' (model_defaults service_config) service_config,
      optional ''pipelines'' (model_defaults (pipelines_config px)) (pipelines_config px)]
     ports_complaint"

section \<open>Loading\<close>

text \<open>
  \<open>_collect_substitutable_paths\<close>: the marked fields of the models, also of those one step inside
  an optional, a list or a table.
\<close>

fun marked_paths :: "string list \<Rightarrow> kind \<Rightarrow> string list list" and
  marked_fields :: "string list \<Rightarrow> (string \<times> bool \<times> json option \<times> kind) list \<Rightarrow> string list list" where
  "marked_paths prefix (K_Model flds complaint) = marked_fields prefix flds"
| "marked_paths prefix (K_Optional k) = (case k of K_Model f c \<Rightarrow> marked_paths prefix k | _ \<Rightarrow> [])"
| "marked_paths prefix (K_List k) = (case k of K_Model f c \<Rightarrow> marked_paths prefix k | _ \<Rightarrow> [])"
| "marked_paths prefix (K_Dict k) = (case k of K_Model f c \<Rightarrow> marked_paths prefix k | _ \<Rightarrow> [])"
| "marked_paths prefix k = []"
| "marked_fields prefix [] = []"
| "marked_fields prefix ((name, marked, dflt, k) # flds) =
     (if marked then [prefix @ [name]] else marked_paths (prefix @ [name]) k) @ marked_fields prefix flds"

definition substitutable_paths :: "pydantic \<Rightarrow> string list set" where
  "substitutable_paths px = set (marked_paths [] (config_schema px))"

definition substitute_env_vars :: "pydantic \<Rightarrow> (string \<Rightarrow> string option) \<Rightarrow> json \<Rightarrow> exn + json" where
  "substitute_env_vars px env d = and_then (substitute_at env (substitutable_paths px) [] d) (\<lambda>r. case r of
     JObj _ \<Rightarrow> Inr r | _ \<Rightarrow> Inl (config_error [(''actual_type'', JStr [])]))"

text \<open>What reading and parsing the file gives.\<close>

datatype config_source = No_File | Unreadable | Not_Toml | Not_Utf8 | Parsed json

datatype config_result = Loaded json | Invalid "violation list" | Load_Raised exn

definition load_config :: "pydantic \<Rightarrow> (string \<Rightarrow> string option) \<Rightarrow> path \<Rightarrow> config_source \<Rightarrow> config_result" where
  "load_config px env path src =
     (let file = (''config_path'', JStr (path_text path)); reason = (''reason'', JStr []) in
      case src of
        No_File \<Rightarrow> Load_Raised (config_error [file])
      | Unreadable \<Rightarrow> Load_Raised (config_error [file, reason])
      | Not_Toml \<Rightarrow> Load_Raised (config_error [file, reason])
      | Not_Utf8 \<Rightarrow> Load_Raised (config_error [file, reason])
      | Parsed raw \<Rightarrow>
          (case and_then (substitute_env_vars px env raw) (\<lambda>substituted.
                 validate px [] (config_schema px) (resolve_paths (butlast path) substituted)) of
             Inl e \<Rightarrow> Load_Raised e
           | Inr ([], c) \<Rightarrow> Loaded c
           | Inr (vs, _) \<Rightarrow> Invalid vs))"

text \<open>\<open>format_validation_errors\<close>: one numbered line per violation, with its JSON pointer.\<close>

definition violation_line :: "(problem \<Rightarrow> string) \<Rightarrow> nat \<times> violation \<Rightarrow> string" where
  "violation_line msg p = (case p of (i, loc, problem) \<Rightarrow>
     ''  ['' @ show_nat i @ ''] /'' @ join ''/'' loc @ '': '' @ msg problem)"

definition format_validation_errors :: "(problem \<Rightarrow> string) \<Rightarrow> violation list \<Rightarrow> string" where
  "format_validation_errors msg vs = join [CHR 0x0A] (map (violation_line msg) (enumerate 1 vs))"

definition print_validation_errors :: "(problem \<Rightarrow> string) \<Rightarrow> violation list \<Rightarrow> string list" where
  "print_validation_errors msg vs =
     [''Configuration invalid ('' @ show_nat (length vs) @ '' error'' @ (if length vs \<noteq> 1 then ''s'' else []) @ ''):'',
      format_validation_errors msg vs]"

section \<open>The values of a kind\<close>

fun has_kind :: "pydantic \<Rightarrow> kind \<Rightarrow> json \<Rightarrow> bool" and
  fields_have :: "pydantic \<Rightarrow> (string \<times> bool \<times> json option \<times> kind) list \<Rightarrow> dict \<Rightarrow> bool" where
  "has_kind px (K_Int lo hi) v = (case v of JInt i \<Rightarrow>
     (case lo of None \<Rightarrow> True | Some l \<Rightarrow> l \<le> i) \<and> (case hi of None \<Rightarrow> True | Some h \<Rightarrow> i \<le> h) | _ \<Rightarrow> False)"
| "has_kind px (K_Str n) v = (case v of JStr s \<Rightarrow> n \<le> length s | _ \<Rightarrow> False)"
| "has_kind px K_Bool v = (case v of JBool b \<Rightarrow> True | _ \<Rightarrow> False)"
| "has_kind px K_Path v = (case v of JStr s \<Rightarrow> True | _ \<Rightarrow> False)"
| "has_kind px K_Email v = (case v of JStr s \<Rightarrow> px_email px s = Some s | _ \<Rightarrow> False)"
| "has_kind px (K_Literal ls) v = (v \<in> JStr ` set ls)"
| "has_kind px (K_List k) v = (case v of JArr xs \<Rightarrow> list_all (has_kind px k) xs | _ \<Rightarrow> False)"
| "has_kind px (K_Dict k) v = (case v of JObj d \<Rightarrow> list_all (\<lambda>p. has_kind px k (snd p)) d | _ \<Rightarrow> False)"
| "has_kind px (K_Optional k) v = (v = JNull \<or> has_kind px k v)"
| "has_kind px (K_Model flds complaint) v =
     (case v of JObj d \<Rightarrow> fields_have px flds d \<and> complaint v = Inr None | _ \<Rightarrow> False)"
| "fields_have px [] d = (d = [])"
| "fields_have px ((name, marked, dflt, k) # flds) d =
     (case d of [] \<Rightarrow> False | (n, v) # rest \<Rightarrow> n = name \<and> has_kind px k v \<and> fields_have px flds rest)"

text \<open>A schema whose defaults have their kinds and whose models name each field once.\<close>

fun kind_wf :: "pydantic \<Rightarrow> kind \<Rightarrow> bool" and fields_wf :: "pydantic \<Rightarrow> (string \<times> bool \<times> json option \<times> kind) list \<Rightarrow> bool" where
  "kind_wf px (K_List k) = kind_wf px k"
| "kind_wf px (K_Dict k) = kind_wf px k"
| "kind_wf px (K_Optional k) = (kind_wf px k)"
| "kind_wf px (K_Model flds complaint) = (distinct (map fst flds) \<and> fields_wf px flds)"
| "kind_wf px k = True"
| "fields_wf px [] = True"
| "fields_wf px ((name, marked, dflt, k) # flds) =
     (kind_wf px k \<and> (case dflt of None \<Rightarrow> True | Some v \<Rightarrow> has_kind px k v) \<and> fields_wf px flds)"

lemma map_res_id: "map_res (\<lambda>r. r) rs = Inr ps \<longleftrightarrow> rs = map Inr ps"
  by (induction rs arbitrary: ps) (auto simp: and_then_Inr Cons_eq_map_conv)

lemma gather_Inr: "gather rs = Inr (vs, ys) \<longleftrightarrow>
   (\<exists>ps. rs = map Inr ps \<and> vs = concat (map fst ps) \<and> ys = map snd ps)"
  by (auto simp: gather_def and_then_Inr map_res_id)

lemma gather_good: "gather rs = Inr ([], ys) \<longleftrightarrow> rs = map (\<lambda>y. Inr ([], y)) ys"
proof
  assume "gather rs = Inr ([], ys)"
  then obtain ps where ps: "rs = map Inr ps" "\<forall>p \<in> set ps. fst p = []" "ys = map snd ps"
    by (auto simp: gather_Inr)
  then have "ps = map (\<lambda>y. ([], y)) ys" by (auto simp: map_idI prod_eq_iff)
  with ps(1) show "rs = map (\<lambda>y. Inr ([], y)) ys" by simp
next
  assume "rs = map (\<lambda>y. Inr ([], y)) ys"
  then show "gather rs = Inr ([], ys)"
    by (auto simp: gather_Inr comp_def intro!: exI [of _ "map (\<lambda>y. ([], y)) ys"])
qed

lemma bad_good [simp]: "bad loc p v \<noteq> Inr ([], v')" "good v = Inr (vs, v') \<longleftrightarrow> vs = [] \<and> v' = v"
  by (auto simp: bad_def good_def)

text \<open>Documented behaviour of pydantic: a value of the type is kept, a normalized address is normal.\<close>

definition pydantic_ok :: "pydantic \<Rightarrow> bool" where
  "pydantic_ok px \<longleftrightarrow> (\<forall>i. px_int px (JInt i) = Some i) \<and> (\<forall>s. px_str px (JStr s) = Some s) \<and>
     (\<forall>b. px_bool px (JBool b) = Some b) \<and> (\<forall>s e. px_email px s = Some e \<longrightarrow> px_email px e = Some e)"

lemma validate_sound:
  "pydantic_ok px \<Longrightarrow> validate px loc k v = Inr ([], v') \<Longrightarrow> kind_wf px k \<Longrightarrow> has_kind px k v'"
  "pydantic_ok px \<Longrightarrow> validate_fields px loc flds d = Inr ([], d') \<Longrightarrow> fields_wf px flds \<Longrightarrow> fields_have px flds d'"
proof (induction px loc k v and px loc flds d arbitrary: v' and d' rule: validate_validate_fields.induct)
  case (7 px loc k v)
  then obtain xs ys where v: "v = JArr xs" "v' = JArr ys"
    and ys: "map (\<lambda>(i, x). validate px (loc @ [show_nat i]) k x) (enumerate 0 xs) = map (\<lambda>y. Inr ([], y)) ys"
    by (auto simp: and_then_Inr gather_good split: json.splits)
  have "has_kind px k y" if "y \<in> set ys" for y
  proof -
    have "Inr ([], y) \<in> set (map (\<lambda>(i, x). validate px (loc @ [show_nat i]) k x) (enumerate 0 xs))"
      using that by (auto simp: ys)
    then show ?thesis using 7 v(1) by fastforce
  qed
  with v show ?case by (simp add: list_all_iff)
next
  case (8 px loc k v)
  then obtain d ys where v: "v = JObj d" "v' = JObj (zip (map fst d) ys)"
    and ys: "map (\<lambda>(i, x). validate px (loc @ [i]) k x) d = map (\<lambda>y. Inr ([], y)) ys"
    by (auto simp: and_then_Inr gather_good split: json.splits)
  have "has_kind px k y" if "y \<in> set ys" for y
  proof -
    have "Inr ([], y) \<in> set (map (\<lambda>(i, x). validate px (loc @ [i]) k x) d)"
      using that by (auto simp: ys)
    then show ?thesis using 8 v(1) by fastforce
  qed
  with v show ?case by (auto simp: list_all_iff dest: set_zip_rightD)
next
  case (10 px loc flds complaint v)
  then show ?case
    by (auto simp: and_then_Inr Let_def split: json.splits if_splits option.splits prod.splits)
next
  case (12 px loc name marked dflt k flds d)
  then show ?case
    by (auto simp: and_then_Inr split: option.splits)
qed (auto simp: pydantic_ok_def split: option.splits if_splits)

lemma fields_have_names: "fields_have px flds d \<Longrightarrow> map fst d = map fst flds"
  by (induction flds arbitrary: d) (auto split: list.splits prod.splits)

lemma fields_have_get:
  "fields_have px flds d \<Longrightarrow> distinct (map fst flds) \<Longrightarrow> (name, marked, dflt, k) \<in> set flds \<Longrightarrow>
   \<exists>v. dict_get d name = Some v \<and> has_kind px k v"
proof (induction flds arbitrary: d)
  case (Cons f flds)
  obtain n m df k' where f: "f = (n, m, df, k')" by (metis prod_cases4)
  with Cons(2) obtain v rest where d: "d = (n, v) # rest" "has_kind px k' v" "fields_have px flds rest"
    by (auto split: list.splits prod.splits)
  show ?case
  proof (cases "(name, marked, dflt, k) = f")
    case True
    with f d show ?thesis by (simp add: dict_get_def)
  next
    case False
    with Cons(3,4) f have "name \<noteq> n" by force
    with False Cons f d show ?thesis by (auto simp: dict_get_def)
  qed
qed simp

lemma gather_all_good: "(\<And>x. x \<in> set xs \<Longrightarrow> f x = Inr ([], g x)) \<Longrightarrow> gather (map f xs) = Inr ([], map g xs)"
  by (simp add: gather_good)

lemma validate_complete:
  "pydantic_ok px \<Longrightarrow> kind_wf px k \<Longrightarrow> has_kind px k v \<Longrightarrow> validate px loc k v = Inr ([], v)"
  "pydantic_ok px \<Longrightarrow> fields_wf px flds \<Longrightarrow> fields_have px flds d \<Longrightarrow> (\<And>p. p \<in> set d \<Longrightarrow> dict_get dd (fst p) = Some (snd p)) \<Longrightarrow>
     validate_fields px loc flds dd = Inr ([], d)"
proof (induction px loc k v and px loc flds dd arbitrary: and d rule: validate_validate_fields.induct)
  case (7 px loc k v)
  then obtain xs where v: "v = JArr xs" "\<forall>x \<in> set xs. has_kind px k x" by (auto simp: list_all_iff split: json.splits)
  have "gather (map (\<lambda>(i, x). validate px (loc @ [show_nat i]) k x) (enumerate 0 xs)) = Inr ([], map snd (enumerate 0 xs))"
    using 7(1) [OF v(1)] 7(2,3) v by (intro gather_all_good) (auto simp: in_set_enumerate_eq)
  with v show ?case by simp
next
  case (8 px loc k v)
  then obtain d where v: "v = JObj d" "\<forall>p \<in> set d. has_kind px k (snd p)" by (auto simp: list_all_iff split: json.splits)
  have "gather (map (\<lambda>(i, x). validate px (loc @ [i]) k x) d) = Inr ([], map snd d)"
    using 8(1) [OF v(1)] 8(2,3) v by (intro gather_all_good) auto
  with v show ?case by (simp add: zip_map_fst_snd)
next
  case (10 px loc flds complaint v)
  then obtain d where v: "v = JObj d" "fields_have px flds d" "complaint v = Inr None" by (auto split: json.splits)
  have names: "map fst d = map fst flds" by (rule fields_have_names [OF v(2)])
  then have "dict_get d (fst p) = Some (snd p)" if "p \<in> set d" for p
    using 10(3) that by (cases p) (simp add: dict_get_def)
  then have "validate_fields px loc flds d = Inr ([], d)" using 10 v by simp
  moreover have "filter (\<lambda>k. k \<notin> fst ` set flds) (map fst d) = []" by (simp add: names filter_empty_conv)
  ultimately show ?case using v by (simp add: Let_def good_def)
next
  case (12 px loc name marked dflt k flds dd)
  then obtain v rest where d: "d = (name, v) # rest" "has_kind px k v" "fields_have px flds rest"
    by (auto split: list.splits prod.splits)
  have "dict_get dd name = Some v" using 12(6) d(1) by force
  with 12 d show ?case by simp
qed (auto simp: pydantic_ok_def good_def split: option.splits json.splits)

lemmas schema_defs = config_schema_def grpc_config_def dashboard_config_def persistence_config_def
  filesystem_config_def templates_config_def template_ref_config_def tags_config_def sweeper_config_def
  mail_config_def smtp_config_def mail_retry_config_def auth_config_def argon2_config_def
  admin_account_config_def observability_config_def audit_config_def service_config_def
  pipelines_config_def disposition_action_def plain_model_def

lemma schema_wf: "kind_wf px (config_schema px)"
  by (simp add: schema_defs pipelines_complaint_def unregistered_key_def Let_def dict_get_def)

lemma substitutable_paths_eq:
  "substitutable_paths px = {[''mail'', ''smtp'', ''username''], [''mail'', ''smtp'', ''password''],
     [''auth'', ''admin'', ''password'']}"
  by (auto simp: substitutable_paths_def schema_defs)

section \<open>Looking into a document\<close>

fun value_at :: "string list \<Rightarrow> json \<Rightarrow> json option" where
  "value_at [] v = Some v"
| "value_at (k # ks) (JObj d) = (case dict_get d k of None \<Rightarrow> None | Some v \<Rightarrow> value_at ks v)"
| "value_at (k # ks) v = None"

fun is_leaf :: "json \<Rightarrow> bool" where
  "is_leaf (JObj d) = False"
| "is_leaf (JArr xs) = False"
| "is_leaf v = True"

lemma dict_get_map: "dict_get (map (\<lambda>(k, v). (k, f k v)) d) k = map_option (f k) (dict_get d k)"
  by (induction d) (auto simp: dict_get_def)

lemma dict_get_map_res:
  "map_res (\<lambda>(k, v). and_then (f k v) (\<lambda>v'. Inr (k, v'))) d = Inr d' \<Longrightarrow> dict_get d k = Some v \<Longrightarrow>
   \<exists>v'. f k v = Inr v' \<and> dict_get d' k = Some v'"
  by (induction d arbitrary: d') (auto simp: dict_get_def and_then_Inr split: if_splits)

lemma substitute_leaf:
  "substitute_at env paths path d = Inr r \<Longrightarrow> value_at ks d = Some v \<Longrightarrow> is_leaf v \<Longrightarrow>
   \<exists>v'. (if path @ ks \<in> paths then substitute_text env v else Inr v) = Inr v' \<and> value_at ks r = Some v'"
proof (induction ks arbitrary: d r path)
  case Nil
  then show ?case by (cases d) auto
next
  case (Cons k ks)
  then obtain m w where d: "d = JObj m" and w: "dict_get m k = Some w" "value_at ks w = Some v"
    by (cases d) (auto split: option.splits)
  from Cons(2) d obtain m' where m': "map_res (\<lambda>(k, v). and_then (substitute_at env paths (path @ [k]) v)
      (\<lambda>v'. Inr (k, v'))) m = Inr m'" and r: "r = JObj m'"
    by (auto simp: and_then_Inr)
  from dict_get_map_res [of "\<lambda>k. substitute_at env paths (path @ [k])", OF m' w(1)]
  obtain w' where "substitute_at env paths (path @ [k]) w = Inr w'" "dict_get m' k = Some w'" by blast
  with Cons(1) [OF this(1) w(2) Cons(4)] r show ?case by simp
qed

lemma update_at_value:
  "value_at ks d = Some v \<Longrightarrow> is_leaf v \<Longrightarrow> is_leaf (f v) \<Longrightarrow> (\<And>w. \<not> is_leaf w \<Longrightarrow> f w = w) \<Longrightarrow>
   value_at ks (update_at f qs d) = Some (if qs = ks then f v else v)"
proof (induction ks arbitrary: d qs)
  case Nil
  then show ?case by (cases qs; cases d) auto
next
  case (Cons k ks)
  then obtain m w where d: "d = JObj m" and w: "dict_get m k = Some w" "value_at ks w = Some v"
    by (cases d) (auto split: option.splits)
  show ?case
  proof (cases qs)
    case Nil
    then show ?thesis using Cons d by simp
  next
    case (Cons q rest)
    then show ?thesis using Cons.IH [OF w(2) Cons.prems(2-4)] d w
      by (simp add: dict_get_map [where f = "\<lambda>k' v. if k' = q then update_at f rest v else v"])
  qed
qed

lemma resolve_one_value:
  "value_at ks d = Some v \<Longrightarrow> is_leaf v \<Longrightarrow> value_at ks (resolve_one base qs d) =
     Some (if qs = ks then (case v of JStr s \<Rightarrow> JStr (resolve_config_path base s) | _ \<Rightarrow> v) else v)"
  unfolding resolve_one_def by (subst update_at_value) (auto split: json.split)

lemma resolve_paths_value:
  assumes "value_at ks d = Some v" and "is_leaf v" and "ks \<notin> set path_fields"
  shows "value_at ks (resolve_paths base d) = Some v"
proof -
  have "value_at ks (fold (resolve_one base) qss d) = Some v" if "ks \<notin> set qss" for qss
    using that assms(1)
  proof (induction qss arbitrary: d)
    case (Cons qs qss)
    then have "value_at ks (resolve_one base qs d) = Some v"
      using resolve_one_value [OF Cons(3) assms(2), of base qs] by auto
    with Cons show ?case by simp
  qed simp
  with assms(3) show ?thesis by (simp add: resolve_paths_def)
qed

section \<open>Properties\<close>


text \<open>A document with the required fields only, and a parser of exact types.\<close>

definition sample_pydantic :: pydantic where
  "sample_pydantic = \<lparr> px_int = (\<lambda>v. case v of JInt i \<Rightarrow> Some i | _ \<Rightarrow> None),
     px_str = (\<lambda>v. case v of JStr s \<Rightarrow> Some s | _ \<Rightarrow> None), px_bool = (\<lambda>v. case v of JBool b \<Rightarrow> Some b | _ \<Rightarrow> None),
     px_email = (\<lambda>s. if CHR ''@'' \<in> set s then Some s else None), px_format = (\<lambda>s. Formats) \<rparr>"

definition sample_document :: json where
  "sample_document = JObj
     [(''grpc'', JObj []), (''dashboard'', JObj [(''port'', JInt 443)]),
      (''persistence'', JObj [(''sqlite_path'', JStr ''ms.db''),
         (''filesystem'', JObj [(''report_directory'', JStr ''/reports'')])]),
      (''templates'', JObj [(''manifest_path'', JStr ''m.toml''),
         (''email_body_template_ref'', JObj [(''name'', JStr ''body''), (''version'', JStr ''1'')])]),
      (''tags'', JObj [(''vocabulary_path'', JStr ''tags.toml'')]),
      (''mail'', JObj [(''from_address'', JStr ''ms@x''),
         (''smtp'', JObj [(''host'', JStr ''relay''), (''port'', JInt 25), (''password'', JStr ''${env:PW}'')])])]"

lemma sample_pydantic_ok: "pydantic_ok sample_pydantic"
  by (auto simp: pydantic_ok_def sample_pydantic_def)

lemma sample_document_valid:
  "\<exists>c. validate sample_pydantic [] (config_schema sample_pydantic) sample_document = Inr ([], c) \<and>
     member (member c ''grpc'') ''port'' = JInt 50051 \<and> member (member c ''dashboard'') ''port'' = JInt 443"
  by (simp add: schema_defs sample_document_def dict_get_def bad_def good_def sample_pydantic_def Let_def
      pipelines_complaint_def ports_complaint_def)




end
