(* ===== verification/Boot.thy ===== *)
theory Boot
  imports Config Renderer Mailer Migrations Loops Auth Grpc
begin

text \<open>
  Start-up and shutdown: \<open>infrastructure/persistence/connection.py\<close>, \<open>bootstrap/service.py\<close>
  and \<open>__main__.py\<close>.  The composition root is a sequence of steps on the state of the machine
  (schema, file system, accounts, connection), each of which may raise.  What the operating system,
  SQLite, the TOML parser and Argon2 answer is the record \<open>boot_io\<close>.

  The properties: which valid configurations start the service and which crash it; what a service
  that has started can rely on; that a failed start closes the connection, with one exception; how
  the process ends.
\<close>

section \<open>The connection\<close>

text \<open>The answer of a PRAGMA, or the driver's exception.\<close>

record sqlite_io =
  sq_mkdir_fails :: bool
  sq_connect_fails :: bool
  sq_journal_mode :: "exn + string option"
  sq_synchronous :: "exn + int option"
  sq_foreign_keys :: "exn + int option"
  sq_busy_timeout :: "exn + int option"

definition json_int_opt :: "int option \<Rightarrow> json" where
  "json_int_opt v = (case v of None \<Rightarrow> JNull | Some i \<Rightarrow> JInt i)"

text \<open>The result is the list of warnings logged.\<close>

definition apply_pragmas :: "string \<Rightarrow> sqlite_io \<Rightarrow> exn + string list" where
  "apply_pragmas path sq =
     and_then (sq_journal_mode sq) (\<lambda>mode.
     and_then (sq_synchronous sq) (\<lambda>sync.
     and_then (sq_foreign_keys sq) (\<lambda>fk.
     check (fk \<noteq> Some 1) (err PersistenceError [(''path'', JStr path), (''resolved'', json_int_opt fk)])
     (and_then (sq_busy_timeout sq) (\<lambda>busy. Inr
       ((if mode \<noteq> Some ''wal'' then [''sqlite_journal_mode_not_wal''] else []) @
        (if sync \<noteq> None \<and> sync \<noteq> Some 1 then [''sqlite_synchronous_not_normal''] else []) @
        (if busy \<noteq> Some 5000 then [''sqlite_busy_timeout_not_set''] else [])))))))"

text \<open>The result, and whether a connection is open afterwards.\<close>

definition open_connection :: "string \<Rightarrow> sqlite_io \<Rightarrow> (exn + string list) \<times> bool" where
  "open_connection path sq =
     (let failed = err PersistenceError [(''path'', JStr path), (''reason'', JStr [])] in
      if path \<noteq> '':memory:'' \<and> sq_mkdir_fails sq then (Inl failed, False)
      else if sq_connect_fails sq then (Inl failed, False)
      else (apply_pragmas path sq, True))"

section \<open>Directories and templates\<close>

text \<open>The faults of creating the directory, of writing the probe and of removing it.\<close>

definition probe_of :: "path \<Rightarrow> path" where
  "probe_of dir = dir @ [''.write_probe'']"

definition ensure_writable_directory :: "io_faults \<Rightarrow> bool \<Rightarrow> path \<Rightarrow> files \<Rightarrow> (exn + unit) \<times> files" where
  "ensure_writable_directory fl unlink_fails dir fs =
     (let failed = config_error [(''path'', JStr (path_text dir)), (''os_error'', JStr [])];
          unlink = (\<lambda>fs. if unlink_fails then fs else file_unlink (probe_of dir) fs)
      in case mkdir_parents (io_mkdir fl) (probe_of dir) fs of
        (False, fs1) \<Rightarrow> (Inl failed, fs1)
      | (True, fs1) \<Rightarrow> (case write_text (io_write fl) (probe_of dir) [] fs1 of
          (False, fs2) \<Rightarrow> (Inl failed, unlink fs2)
        | (True, fs2) \<Rightarrow> (Inr (), unlink fs2)))"

fun resolve_body_template_overrides ::
  "(template_ref \<Rightarrow> bool) \<Rightarrow> (string \<times> template_ref) list \<Rightarrow> exn + (string \<times> template_ref) list" where
  "resolve_body_template_overrides exists [] = Inr []"
| "resolve_body_template_overrides exists ((pipeline, ref) # rest) =
     and_then (template_ref_post_init ref) (\<lambda>ref.
     check (\<not> exists ref) (config_error [(''pipeline_type'', JStr pipeline), (''name'', JStr (tpl_name ref)),
        (''version'', JStr (tpl_version ref))])
     (and_then (resolve_body_template_overrides exists rest) (\<lambda>refs. Inr ((pipeline, ref) # refs))))"

section \<open>The administrator account\<close>

definition admin_user :: "string \<Rightarrow> string \<Rightarrow> int \<Rightarrow> user" where
  "admin_user email hash now = \<lparr> user_email = email, user_display_name = email, user_password_hash = hash,
     user_created_at = utc now, user_user_id = None, user_is_admin = True, user_disabled = False \<rparr>"

definition enable_admin :: user_changes where
  "enable_admin = \<lparr> uc_display_name = None, uc_is_admin = Some True, uc_disabled = Some False,
     uc_password_hash = None \<rparr>"

definition reconcile_admin_tx :: "(string \<Rightarrow> exn + string) \<Rightarrow> int \<Rightarrow> string \<Rightarrow> string \<Rightarrow> unit tx" where
  "reconcile_admin_tx hash now email password =
     tx_bind (user_get_by_email email) (\<lambda>existing. case existing of
       None \<Rightarrow>
         tx_bind (tx_lift (and_then (password_post_init password) hash)) (\<lambda>h.
         tx_bind (tx_lift (user_post_init (admin_user email h now))) (\<lambda>u.
         tx_then (user_save u) (tx_return ())))
     | Some u \<Rightarrow> (case user_user_id u of
           None \<Rightarrow> tx_raise (PyExc RuntimeError ''existing admin account is missing a persisted user_id'')
         | Some i \<Rightarrow> tx_then (user_update i enable_admin) (tx_return ())))"

section \<open>Reading the configuration\<close>

definition at_path :: "json \<Rightarrow> string list \<Rightarrow> json" where
  "at_path c ks = fold (\<lambda>k v. member v k) ks c"

definition int_at :: "json \<Rightarrow> string list \<Rightarrow> int" where
  "int_at c ks = (case at_path c ks of JInt i \<Rightarrow> i | _ \<Rightarrow> 0)"

definition text_of :: "json \<Rightarrow> string" where
  "text_of v = (case v of JStr s \<Rightarrow> s | _ \<Rightarrow> [])"

definition text_at :: "json \<Rightarrow> string list \<Rightarrow> string" where
  "text_at c ks = text_of (at_path c ks)"

definition bool_at :: "json \<Rightarrow> string list \<Rightarrow> bool" where
  "bool_at c ks = (at_path c ks = JBool True)"

definition template_ref_of :: "json \<Rightarrow> template_ref" where
  "template_ref_of v = \<lparr> tpl_name = text_of (member v ''name''), tpl_version = text_of (member v ''version'') \<rparr>"

definition body_overrides :: "json \<Rightarrow> (string \<times> template_ref) list" where
  "body_overrides c = map (\<lambda>(k, v). (k, template_ref_of v))
     (entries (at_path c [''pipelines'', ''email_body_template_overrides'']))"

definition disposition_overrides :: "json \<Rightarrow> (string \<times> action_name list) list" where
  "disposition_overrides c = map (\<lambda>(k, v). (k, texts v))
     (entries (at_path c [''pipelines'', ''orphan_disposition_overrides'']))"

definition registered_pipelines :: "json \<Rightarrow> string set" where
  "registered_pipelines c = set (texts (at_path c [''pipelines'', ''registered'']))"

section \<open>The service\<close>

text \<open>
  The parts of \<open>Service\<close> that carry parameters; the other use cases are the functions of the model
  applied to them.
\<close>

record service =
  sv_vocabulary :: "string set"
  sv_renderer :: renderer
  sv_report_root :: path
  sv_mailer :: mailer
  sv_from_address :: string
  sv_email_body_template :: template_ref
  sv_admin_recipients :: "string list"
  sv_subject_templates :: "(string \<times> string) list"
  sv_body_overrides :: "(string \<times> template_ref) list"
  sv_registered :: "string set"
  sv_sweeper :: sweeper
  sv_dispatcher :: dispatcher
  sv_report_pruner :: report_pruner
  sv_audit_pruner :: audit_pruner
  sv_decoy_hash :: string
  sv_runtime :: runtime

text \<open>What start-up changes, and what it is told.\<close>

record 's boot_state =
  bs_schema :: "'s schema_db"
  bs_files :: files
  bs_world :: world

record ('s, 't) boot_io =
  bt_proto_codes :: "string set"
  bt_sqlite :: sqlite_io
  bt_migrations :: "(string \<times> string) list"
  bt_sql :: "string \<Rightarrow> 's \<Rightarrow> 's option"
  bt_sql_fault :: "nat \<Rightarrow> bool"
  bt_sql_clock :: "nat \<Rightarrow> int"
  bt_vocabulary :: "string \<Rightarrow> dict option"
  bt_manifest :: "string \<Rightarrow> (string list \<times> manifest_value) option"
  bt_engine :: "'t engine"
  bt_report_io :: "io_faults \<times> bool"
  bt_archive_io :: "io_faults \<times> bool"
  bt_argon2 :: "int list \<Rightarrow> string \<Rightarrow> exn + string"
  bt_decoy :: string
  bt_now :: int

type_synonym ('s, 'a) boot = "'s boot_state \<Rightarrow> (exn + 'a) \<times> 's boot_state"

definition boot_bind :: "('s, 'a) boot \<Rightarrow> ('a \<Rightarrow> ('s, 'b) boot) \<Rightarrow> ('s, 'b) boot" where
  "boot_bind m k s = (case m s of (Inl e, s') \<Rightarrow> (Inl e, s') | (Inr x, s') \<Rightarrow> k x s')"

definition boot_lift :: "exn + 'a \<Rightarrow> ('s, 'a) boot" where
  "boot_lift r s = (r, s)"

definition boot_migrate :: "('s, 't) boot_io \<Rightarrow> ('s, migration_file list) boot" where
  "boot_migrate io s = (let (r, d) = apply_migrations (bt_sql io) (bt_sql_fault io) (bt_sql_clock io)
       (bt_migrations io) (bs_schema s) in (r, s\<lparr> bs_schema := d \<rparr>))"

definition boot_directory :: "io_faults \<times> bool \<Rightarrow> path \<Rightarrow> ('s, unit) boot" where
  "boot_directory fl dir s = (let (r, fs) = ensure_writable_directory (fst fl) (snd fl) dir (bs_files s)
     in (r, s\<lparr> bs_files := fs \<rparr>))"

definition boot_accounts :: "unit tx \<Rightarrow> ('s, unit) boot" where
  "boot_accounts body s = (let (r, w) = in_uow body (bs_world s) in (r, s\<lparr> bs_world := w \<rparr>))"

definition argon2_params :: "json \<Rightarrow> int list" where
  "argon2_params c = map (\<lambda>k. int_at c [''auth'', ''argon2'', k])
     [''memory_cost'', ''time_cost'', ''parallelism'', ''hash_len'', ''salt_len'']"

definition config_path :: "json \<Rightarrow> string list \<Rightarrow> path" where
  "config_path c ks = path_div [] (text_at c ks)"

definition config_mailer :: "json \<Rightarrow> exn + mailer" where
  "config_mailer c = mailer_init (int_at c [''mail'', ''smtp'', ''port'']) (text_at c [''mail'', ''smtp'', ''username''])
     (text_at c [''mail'', ''smtp'', ''password'']) (bool_at c [''mail'', ''smtp'', ''use_starttls''])
     (int_at c [''mail'', ''max_email_size_bytes'']) (int_at c [''mail'', ''retry'', ''max_retries''])
     (of_int (int_at c [''mail'', ''retry'', ''initial_interval_seconds'']))
     (of_int (int_at c [''mail'', ''retry'', ''max_interval_seconds''])) 30"

definition config_sweeper :: "json \<Rightarrow> exn + sweeper" where
  "config_sweeper c = sweeper_init (int_at c [''sweeper'', ''run_timeout_seconds''])
     (texts (at_path c [''sweeper'', ''disposition_actions''])) (dom handler_registry) (disposition_overrides c)
     (int_at c [''sweeper'', ''max_candidates_per_iteration''])"

definition config_dispatcher :: "json \<Rightarrow> exn + dispatcher" where
  "config_dispatcher c = dispatcher_init 100 (int_at c [''sweeper'', ''stale_claim_threshold_seconds''])
     (int_at c [''sweeper'', ''max_dispatch_attempts''])"

definition config_report_pruner :: "json \<Rightarrow> exn + report_pruner" where
  "config_report_pruner c = report_pruner_init (config_path c [''persistence'', ''filesystem'', ''report_directory''])
     (int_at c [''persistence'', ''filesystem'', ''report_retention_days''])
     (int_at c [''persistence'', ''filesystem'', ''max_prunes_per_iteration''])"

definition archive_dir :: "json \<Rightarrow> string option" where
  "archive_dir c = (case at_path c [''observability'', ''audit'', ''archive_directory''] of
     JStr s \<Rightarrow> Some s | _ \<Rightarrow> None)"

definition config_audit_pruner :: "json \<Rightarrow> exn + audit_pruner" where
  "config_audit_pruner c = audit_pruner_init (int_at c [''observability'', ''audit'', ''retention_days''])
     (int_at c [''observability'', ''audit'', ''cleanup_batch_size'']) (archive_dir c \<noteq> None)"

definition boot_archive :: "('s, 't) boot_io \<Rightarrow> json \<Rightarrow> ('s, unit) boot" where
  "boot_archive io c = (case archive_dir c of None \<Rightarrow> boot_lift (Inr ())
     | Some dir \<Rightarrow> boot_directory (bt_archive_io io) (path_div [] dir))"

definition boot_admin :: "('s, 't) boot_io \<Rightarrow> json \<Rightarrow> ('s, unit) boot" where
  "boot_admin io c = (if at_path c [''auth'', ''admin''] = JNull then boot_lift (Inr ())
     else boot_accounts (reconcile_admin_tx (bt_argon2 io (argon2_params c)) (bt_now io)
       (text_at c [''auth'', ''admin'', ''email'']) (text_at c [''auth'', ''admin'', ''password''])))"

text \<open>\<open>_assemble_service\<close>, in its order.\<close>

definition assemble_service :: "('s, 't) boot_io \<Rightarrow> json \<Rightarrow> ('s, service) boot" where
  "assemble_service io c =
     boot_bind (boot_migrate io) (\<lambda>applied.
     boot_bind (boot_lift (load_tag_vocabulary (bt_vocabulary io (text_at c [''tags'', ''vocabulary_path''])))) (\<lambda>tags.
     boot_bind (boot_lift (load_template_manifest (butlast (config_path c [''templates'', ''manifest_path'']))
        (bt_manifest io (text_at c [''templates'', ''manifest_path''])))) (\<lambda>templates.
     boot_bind (boot_lift (renderer_init (bt_engine io) templates (int_at c [''templates'', ''max_context_bytes''])
        (int_at c [''templates'', ''max_rendered_bytes'']))) (\<lambda>renderer.
     boot_bind (boot_directory (bt_report_io io)
        (config_path c [''persistence'', ''filesystem'', ''report_directory''])) (\<lambda>_.
     boot_bind (boot_lift (config_mailer c)) (\<lambda>mailer.
     boot_bind (boot_lift (template_ref_post_init
        (template_ref_of (at_path c [''templates'', ''email_body_template_ref''])))) (\<lambda>body_template.
     boot_bind (boot_lift (resolve_body_template_overrides (repo_exists templates) (body_overrides c))) (\<lambda>overrides.
     boot_bind (boot_lift (config_sweeper c)) (\<lambda>sweeper.
     boot_bind (boot_lift (config_dispatcher c)) (\<lambda>dispatcher.
     boot_bind (boot_lift (config_report_pruner c)) (\<lambda>report_pruner.
     boot_bind (boot_lift (pruner_loop_init
        (int_at c [''persistence'', ''filesystem'', ''prune_interval_seconds'']))) (\<lambda>report_loop.
     boot_bind (boot_archive io c) (\<lambda>_.
     boot_bind (boot_lift (config_audit_pruner c)) (\<lambda>audit_pruner.
     boot_bind (boot_lift (pruner_loop_init
        (int_at c [''observability'', ''audit'', ''cleanup_interval_hours''] * 3600))) (\<lambda>audit_loop.
     boot_bind (boot_lift (and_then (password_post_init (bt_decoy io)) (bt_argon2 io (argon2_params c)))) (\<lambda>decoy.
     boot_bind (boot_admin io c) (\<lambda>_.
     boot_lift (Inr \<lparr> sv_vocabulary = tags, sv_renderer = renderer,
        sv_report_root = config_path c [''persistence'', ''filesystem'', ''report_directory''],
        sv_mailer = mailer, sv_from_address = text_at c [''mail'', ''from_address''],
        sv_email_body_template = body_template, sv_admin_recipients = texts (at_path c [''mail'', ''admin_recipients'']),
        sv_subject_templates = map (\<lambda>(k, v). (k, text_of v))
          (entries (at_path c [''pipelines'', ''subject_templates''])),
        sv_body_overrides = overrides, sv_registered = registered_pipelines c, sv_sweeper = sweeper,
        sv_dispatcher = dispatcher, sv_report_pruner = report_pruner, sv_audit_pruner = audit_pruner,
        sv_decoy_hash = decoy, sv_runtime =
          \<lparr> rt_scheduler = scheduler_init,
            rt_sweeper_loop = sweeper_loop_init (int_at c [''sweeper'', ''poll_interval_seconds'']),
            rt_report_loop = report_loop, rt_audit_loop = audit_loop, rt_connection_open = True \<rparr> \<rparr>))))))))))))))))))"

text \<open>
  \<open>build_service\<close>: the self-check of the error codes, the connection, the assembly; a failed
  assembly closes the connection.  The second component says whether a connection is open.
\<close>

definition build_service :: "('s, 't) boot_io \<Rightarrow> json \<Rightarrow> 's boot_state \<Rightarrow> (exn + service) \<times> bool \<times> 's boot_state" where
  "build_service io c s = (case assert_error_codes_match_proto_enum (bt_proto_codes io) of
     Inl e \<Rightarrow> (Inl e, False, s)
   | Inr orphan_codes \<Rightarrow> (case open_connection (path_text (config_path c [''persistence'', ''sqlite_path''])) (bt_sqlite io) of
       (Inl e, is_open) \<Rightarrow> (Inl e, is_open, s)
     | (Inr warnings, is_open) \<Rightarrow> (case assemble_service io c s of
         (Inl e, s') \<Rightarrow> (Inl e, False, s') | (Inr sv, s') \<Rightarrow> (Inr sv, is_open, s'))))"

section \<open>What the schema says about a place\<close>

fun kind_at :: "kind \<Rightarrow> string list \<Rightarrow> kind option" where
  "kind_at k [] = Some k"
| "kind_at (K_Model flds complaint) (n # ks) =
     (case map_of (map (\<lambda>(n, marked, dflt, k). (n, k)) flds) n of None \<Rightarrow> None | Some k \<Rightarrow> kind_at k ks)"
| "kind_at k (n # ks) = None"

lemma at_path_simps [simp]: "at_path c [] = c" "at_path c (k # ks) = at_path (member c k) ks"
  by (simp_all add: at_path_def)

lemma has_kind_at:
  "has_kind px k v \<Longrightarrow> kind_wf px k \<Longrightarrow> kind_at k ks = Some k' \<Longrightarrow> has_kind px k' (at_path v ks)"
proof (induction k ks arbitrary: v rule: kind_at.induct)
  case (2 flds complaint n ks)
  then obtain k d where k: "map_of (map (\<lambda>(n, marked, dflt, k). (n, k)) flds) n = Some k" "kind_at k ks = Some k'"
    and d: "v = JObj d" "fields_have px flds d" by (auto split: option.splits json.splits)
  from map_of_SomeD [OF k(1)] obtain marked dflt where f: "(n, marked, dflt, k) \<in> set flds" by auto
  have dist: "distinct (map fst flds)" and wf: "fields_wf px flds" using 2(3) by simp_all
  from wf f have "kind_wf px k" by (induction flds) auto
  moreover from fields_have_get [OF d(2) dist f] d(1) have "has_kind px k (member v n)" by auto
  ultimately show ?case using 2(1) [OF k(1)] k(2) by simp
qed auto

lemma has_int_at: "has_kind px (K_Int lo hi) (at_path c ks) \<Longrightarrow>
   (\<forall>l. lo = Some l \<longrightarrow> l \<le> int_at c ks) \<and> (\<forall>h. hi = Some h \<longrightarrow> int_at c ks \<le> h)"
  by (auto simp: int_at_def split: json.splits option.splits)

lemma has_text_at: "has_kind px (K_Str n) (at_path c ks) \<Longrightarrow> n \<le> length (text_at c ks)"
  by (auto simp: text_at_def text_of_def split: json.splits)

lemma int_floor:
  assumes "has_kind px (config_schema px) c"
    and "case kind_at (config_schema px) ks of Some (K_Int (Some l') hi) \<Rightarrow> l \<le> l' | _ \<Rightarrow> False"
  shows "l \<le> int_at c ks"
proof -
  obtain l' hi where k: "kind_at (config_schema px) ks = Some (K_Int (Some l') hi)" "l \<le> l'"
    using assms(2) by (auto split: option.splits kind.splits)
  from has_int_at [OF has_kind_at [OF assms(1) schema_wf k(1)]] k(2) show ?thesis by auto
qed

lemma int_ceiling:
  assumes "has_kind px (config_schema px) c"
    and "case kind_at (config_schema px) ks of Some (K_Int lo (Some h')) \<Rightarrow> h' \<le> h | _ \<Rightarrow> False"
  shows "int_at c ks \<le> h"
proof -
  obtain lo h' where k: "kind_at (config_schema px) ks = Some (K_Int lo (Some h'))" "h' \<le> h"
    using assms(2) by (auto split: option.splits kind.splits)
  from has_int_at [OF has_kind_at [OF assms(1) schema_wf k(1)]] k(2) show ?thesis by auto
qed

text \<open>The ranges on which the constructors of the service rely.\<close>

lemma config_ranges:
  assumes "has_kind px (config_schema px) c"
  shows "1 \<le> int_at c [''mail'', ''smtp'', ''port'']"
    "1 \<le> int_at c [''mail'', ''max_email_size_bytes'']" "0 \<le> int_at c [''mail'', ''retry'', ''max_retries'']"
    "1 \<le> int_at c [''mail'', ''retry'', ''initial_interval_seconds'']"
    "1 \<le> int_at c [''sweeper'', ''max_candidates_per_iteration'']"
    "1 \<le> int_at c [''sweeper'', ''stale_claim_threshold_seconds'']"
    "1 \<le> int_at c [''sweeper'', ''max_dispatch_attempts'']" "1 \<le> int_at c [''sweeper'', ''run_timeout_seconds'']"
    "1 \<le> int_at c [''persistence'', ''filesystem'', ''report_retention_days'']"
    "1 \<le> int_at c [''persistence'', ''filesystem'', ''max_prunes_per_iteration'']"
    "1 \<le> int_at c [''persistence'', ''filesystem'', ''prune_interval_seconds'']"
    "1 \<le> int_at c [''observability'', ''audit'', ''retention_days'']"
    "1 \<le> int_at c [''observability'', ''audit'', ''cleanup_batch_size'']"
    "1 \<le> int_at c [''observability'', ''audit'', ''cleanup_interval_hours'']"
    "1 \<le> int_at c [''templates'', ''max_context_bytes'']" "1 \<le> int_at c [''templates'', ''max_rendered_bytes'']"
    "0 \<le> int_at c [''grpc'', ''max_in_flight_rpcs'']"
  by (rule int_floor [OF assms], simp add: schema_defs)+

lemma config_port:
  assumes "has_kind px (config_schema px) c"
  shows "int_at c [''mail'', ''smtp'', ''port''] \<le> 65535"
  by (rule int_ceiling [OF assms], simp add: schema_defs)

section \<open>Provisioning\<close>

definition account_rows_ok :: "db \<Rightarrow> bool" where
  "account_rows_ok d \<longleftrightarrow> (\<forall>r \<in> set (db_users d). wr_email r \<noteq> [] \<and> wr_display_name r \<noteq> [])"

definition admin_row :: "user_row \<Rightarrow> user_row" where
  "admin_row = apply_changes enable_admin"

lemma admin_row_simps [simp]:
  "wr_user_id (admin_row r) = wr_user_id r" "wr_email (admin_row r) = wr_email r"
  "wr_password_hash (admin_row r) = wr_password_hash r" "wr_is_admin (admin_row r)" "\<not> wr_disabled (admin_row r)"
  "wr_display_name (admin_row r) = wr_display_name r" "admin_row (admin_row r) = admin_row r"
  by (simp_all add: admin_row_def apply_changes_def enable_admin_def)

text \<open>The result of the transaction, on an account table without malformed rows.\<close>

definition provisioned :: "int \<Rightarrow> string \<Rightarrow> string \<Rightarrow> db \<Rightarrow> db" where
  "provisioned now email h d = (case find_row wr_email email (db_users d) of
     None \<Rightarrow> d\<lparr> db_users := db_users d @ [user_row_of (db_next_user d) (admin_user email h now) now],
                 db_next_user := db_next_user d + 1 \<rparr>
   | Some r \<Rightarrow> db_users_update (update_rows (\<lambda>q. wr_user_id q = wr_user_id r) admin_row) d)"

lemma reconcile_admin_eq:
  assumes "account_rows_ok d" and "email \<noteq> []" and "password \<noteq> []" and h: "hash password = Inr h"
  shows "reconcile_admin_tx hash now email password d = Done () (provisioned now email h d)"
proof (cases "find_row wr_email email (db_users d)")
  case None
  then have "user_get_by_email email d = Done None d" by (simp add: user_get_by_email_Done opt_row_to_user_def)
  moreover have "user_save (admin_user email h now) d =
      Done ((admin_user email h now)\<lparr> user_user_id := Some (db_next_user d) \<rparr>) (provisioned now email h d)"
    using None assms find_row_None [of wr_email email "db_users d"]
    by (simp add: user_save_Done provisioned_def admin_user_def user_ok_def)
  ultimately show ?thesis
    using assms by (simp add: reconcile_admin_tx_def tx_bind_def tx_then_def tx_lift_def tx_read_def tx_return_def
        password_post_init_def check_def user_post_init_def admin_user_def)
next
  case (Some r)
  then have r: "r \<in> set (db_users d)" "wr_email r = email" by (auto dest: find_row_Some)
  with assms(1) have ok: "wr_email r \<noteq> []" "wr_display_name r \<noteq> []" by (auto simp: account_rows_ok_def)
  then obtain u where u: "row_to_user r = Inr u" "user_user_id u = Some (wr_user_id r)" by (simp add: row_to_user_Inr)
  have get: "user_get_by_email email d = Done (Some u) d"
    using Some u by (simp add: user_get_by_email_Done opt_row_to_user_def)
  obtain q where q: "find_row wr_user_id (wr_user_id r) (db_users d) = Some q"
    using r(1) by (cases "find_row wr_user_id (wr_user_id r) (db_users d)") (auto simp: find_row_None)
  then have "q \<in> set (db_users d)" by (auto dest: find_row_Some)
  then have ok: "wr_email q \<noteq> []" "wr_display_name q \<noteq> []" using assms(1) by (auto simp: account_rows_ok_def)
  have "\<exists>v. user_update (wr_user_id r) enable_admin d = Done v (provisioned now email h d)"
    using q Some ok
    by (auto simp: user_update_def no_changes_def enable_admin_def tx_bind_def tx_read_def tx_then_def tx_write_def
        find_row_filter_Nil provisioned_def admin_row_def user_get_by_id_def find_row_update_rows
        opt_row_to_user_def row_to_user_def user_post_init_def check_def apply_changes_def)
  then show ?thesis using get u by (auto simp: reconcile_admin_tx_def tx_bind_def tx_then_def tx_return_def)
qed

text \<open>What a start leaves of the accounts.\<close>

definition admin_ready :: "string \<Rightarrow> string \<Rightarrow> db \<Rightarrow> db \<Rightarrow> bool" where
  "admin_ready email h d d' \<longleftrightarrow>
     (\<exists>r. find_row wr_email email (db_users d') = Some r \<and> wr_is_admin r \<and> \<not> wr_disabled r \<and>
       (case find_row wr_email email (db_users d) of
          None \<Rightarrow> wr_password_hash r = h
        | Some q \<Rightarrow> wr_password_hash r = wr_password_hash q \<and> wr_user_id r = wr_user_id q \<and>
            wr_display_name r = wr_display_name q)) \<and>
     filter (\<lambda>r. wr_email r \<noteq> email) (db_users d') = filter (\<lambda>r. wr_email r \<noteq> email) (db_users d)"

lemma provisioned_new:
  assumes "accounts_wf d" and "account_rows_ok d" and "email \<noteq> []" and None: "find_row wr_email email (db_users d) = None"
  shows "admin_ready email h d (provisioned now email h d) \<and> account_rows_ok (provisioned now email h d) \<and>
    provisioned later email h (provisioned now email h d) = provisioned now email h d"
proof -
  let ?r = "user_row_of (db_next_user d) (admin_user email h now) now"
  have id: "admin_row ?r = ?r" and mail: "wr_email ?r = email"
    by (simp_all add: admin_row_def apply_changes_def enable_admin_def user_row_of_def admin_user_def)
  have "wr_user_id q \<noteq> wr_user_id ?r" if "q \<in> set (db_users d)" for q
    using assms(1) that by (fastforce simp: accounts_wf_def user_row_of_def)
  then have "update_rows (\<lambda>q. wr_user_id q = wr_user_id ?r) admin_row (db_users d @ [?r]) = db_users d @ [?r]"
    using id by (auto simp: update_rows_def intro!: map_idI)
  with assms mail show ?thesis
    by (auto simp: provisioned_def account_rows_ok_def admin_ready_def) (auto simp: user_row_of_def admin_user_def)
qed

lemma provisioned_known:
  assumes "accounts_wf d" and "account_rows_ok d" and Some: "find_row wr_email email (db_users d) = Some q"
  shows "admin_ready email h d (provisioned now email h d) \<and> account_rows_ok (provisioned now email h d) \<and>
    provisioned later email h (provisioned now email h d) = provisioned now email h d"
proof -
  let ?up = "update_rows (\<lambda>x. wr_user_id x = wr_user_id q) admin_row"
  have ids: "distinct (map wr_user_id (db_users d))" and emails: "distinct (map wr_email (db_users d))"
    using assms(1) by (auto simp: accounts_wf_def users.unique_keys_def)
  have q: "q \<in> set (db_users d)" "wr_email q = email" using Some by (auto dest: find_row_Some)
  have "x = q" if "x \<in> set (db_users d)" "wr_user_id x = wr_user_id q" for x
    using inj_onD [OF distinct_map [THEN iffD1, OF ids, THEN conjunct2]] that q(1) by blast
  then have rows: "?up (db_users d) = map (\<lambda>x. if x = q then admin_row q else x) (db_users d)"
    by (auto simp: update_rows_def)
  have "map wr_email (?up (db_users d)) = map wr_email (db_users d)" by (auto simp: rows)
  then have "distinct (map wr_email (?up (db_users d)))" using emails by simp
  moreover have "admin_row q \<in> set (?up (db_users d))" using q(1) by (force simp: rows)
  ultimately have find: "find_row wr_email email (?up (db_users d)) = Some (admin_row q)"
    using find_row_distinct [of wr_email "?up (db_users d)" "admin_row q"] q(2) by simp
  have "?up (?up rows) = ?up rows" for rows by (induction rows) auto
  then have twice: "?up \<circ> ?up = ?up" by (simp add: comp_def)
  have others: "filter (\<lambda>r. wr_email r \<noteq> email) (map (\<lambda>x. if x = q then admin_row q else x) rows) =
      filter (\<lambda>r. wr_email r \<noteq> email) rows" for rows
    using q(2) by (induction rows) auto
  have "account_rows_ok (db_users_update ?up d)"
    using assms(2) by (auto simp: account_rows_ok_def update_rows_def)
  with Some find twice others rows show ?thesis by (simp add: provisioned_def admin_ready_def)
qed

text \<open>
  C31: the configured administrator exists and can log in after a start: a missing account is
  created with the hash of the configured password, an existing one becomes an enabled
  administrator and keeps its password and name; no other account changes, and the next start
  changes nothing.
\<close>

theorem admin_provisioned:
  assumes "accounts_wf d" and "account_rows_ok d" and "email \<noteq> []" and "password \<noteq> []" and "hash password = Inr h"
  shows "\<exists>d'. reconcile_admin_tx hash now email password d = Done () d' \<and>
    (\<exists>r. find_row wr_email email (db_users d') = Some r \<and> wr_is_admin r \<and> \<not> wr_disabled r \<and>
      (case find_row wr_email email (db_users d) of
         None \<Rightarrow> wr_password_hash r = h
       | Some q \<Rightarrow> wr_password_hash r = wr_password_hash q \<and> wr_user_id r = wr_user_id q \<and>
           wr_display_name r = wr_display_name q)) \<and>
    filter (\<lambda>r. wr_email r \<noteq> email) (db_users d') = filter (\<lambda>r. wr_email r \<noteq> email) (db_users d) \<and>
    reconcile_admin_tx hash later email password d' = Done () d'"
proof -
  let ?d = "provisioned now email h d"
  have shape: "admin_ready email h d ?d" "account_rows_ok ?d" "provisioned later email h ?d = ?d"
    using provisioned_new [OF assms(1-3)] provisioned_known [OF assms(1,2)]
    by (cases "find_row wr_email email (db_users d)"; simp)+
  have "reconcile_admin_tx hash now email password d = Done () ?d" by (rule reconcile_admin_eq) (use assms in auto)
  moreover have "reconcile_admin_tx hash later email password ?d = Done () ?d"
    using reconcile_admin_eq [of ?d email password hash h later] assms shape by simp
  ultimately show ?thesis using shape(1) unfolding admin_ready_def by blast
qed

section \<open>Which configurations start\<close>

text \<open>What no validator of the schema looks at.\<close>

definition backoff_ordered :: "json \<Rightarrow> bool" where
  "backoff_ordered c \<longleftrightarrow> int_at c [''mail'', ''retry'', ''initial_interval_seconds''] \<le>
     int_at c [''mail'', ''retry'', ''max_interval_seconds'']"

definition overrides_known :: "template_entries \<Rightarrow> json \<Rightarrow> bool" where
  "overrides_known templates c \<longleftrightarrow> (\<forall>(pipeline, ref) \<in> set (body_overrides c). repo_exists templates ref)"

definition actions_handled :: "json \<Rightarrow> bool" where
  "actions_handled c \<longleftrightarrow> set (texts (at_path c [''sweeper'', ''disposition_actions''])) \<union>
     (\<Union>(pipeline, actions) \<in> set (disposition_overrides c). set actions) \<subseteq> {''DISCARD_SILENTLY'', ''NOTIFY_ADMINS''}"

text \<open>A machine on which nothing goes wrong: files load, directories can be written, Argon2 hashes.\<close>

definition archive_ready :: "('s, 't) boot_io \<Rightarrow> json \<Rightarrow> files \<Rightarrow> bool" where
  "archive_ready io c fs = (case archive_dir c of None \<Rightarrow> True
     | Some dir \<Rightarrow> fst (ensure_writable_directory (fst (bt_archive_io io)) (snd (bt_archive_io io)) (path_div [] dir) fs) = Inr ())"

definition machine_ok :: "('s, 't) boot_io \<Rightarrow> json \<Rightarrow> template_entries \<Rightarrow> 's boot_state \<Rightarrow> bool" where
  "machine_ok io c templates s \<longleftrightarrow>
     (\<exists>applied. fst (boot_migrate io s) = Inr applied) \<and>
     (\<exists>tags. load_tag_vocabulary (bt_vocabulary io (text_at c [''tags'', ''vocabulary_path''])) = Inr tags) \<and>
     load_template_manifest (butlast (config_path c [''templates'', ''manifest_path'']))
       (bt_manifest io (text_at c [''templates'', ''manifest_path''])) = Inr templates \<and>
     (\<exists>vs. build_validators (bt_engine io) (repo_list_all templates) = Inr vs) \<and>
     (let dir = config_path c [''persistence'', ''filesystem'', ''report_directory''];
          (r, fs) = ensure_writable_directory (fst (bt_report_io io)) (snd (bt_report_io io)) dir (bs_files s)
      in r = Inr () \<and> archive_ready io c fs) \<and>
     bt_decoy io \<noteq> [] \<and> (\<forall>password. \<exists>h. bt_argon2 io (argon2_params c) password = Inr h) \<and>
     account_rows_ok (w_db (bs_world s))"

lemma resolve_overrides_Inr:
  "resolve_body_template_overrides exists refs = Inr refs' \<longleftrightarrow> refs' = refs \<and>
     (\<forall>(pipeline, ref) \<in> set refs. tpl_name ref \<noteq> [] \<and> tpl_version ref \<noteq> [] \<and> exists ref)"
  by (induction "exists" refs arbitrary: refs' rule: resolve_body_template_overrides.induct)
    (auto simp: and_then_Inr check_Inr template_ref_post_init_Inr template_ref_ok_def)

lemma config_overrides_named:
  assumes "has_kind px (config_schema px) c" and "(pipeline, ref) \<in> set (body_overrides c)"
  shows "tpl_name ref \<noteq> [] \<and> tpl_version ref \<noteq> []"
proof -
  have "has_kind px (K_Dict template_ref_config) (at_path c [''pipelines'', ''email_body_template_overrides''])"
    by (rule has_kind_at [OF assms(1) schema_wf]) (simp add: schema_defs)
  then obtain d where d: "at_path c [''pipelines'', ''email_body_template_overrides''] = JObj d"
    "\<forall>p \<in> set d. has_kind px template_ref_config (snd p)" by (auto simp: list_all_iff split: json.splits)
  with assms(2) obtain v where v: "has_kind px template_ref_config v" "ref = template_ref_of v"
    by (auto simp: body_overrides_def)
  have wf: "kind_wf px template_ref_config" by (simp add: schema_defs)
  have "has_kind px (K_Str 1) (at_path v [''name''])" "has_kind px (K_Str 1) (at_path v [''version''])"
    by (rule has_kind_at [OF v(1) wf], simp add: schema_defs)+
  from this [THEN has_text_at] v(2) show ?thesis by (auto simp: template_ref_of_def text_at_def)
qed

text \<open>The steps of the assembly, one by one, for a valid configuration.\<close>

lemma config_mailer_cases:
  assumes "has_kind px (config_schema px) c"
  shows "if backoff_ordered c then \<exists>ml. config_mailer c = Inr ml else config_mailer c = Inl value_error"
  using config_ranges(1,2,3,4) [OF assms] config_port [OF assms]
  by (auto simp: config_mailer_def mailer_init_def backoff_ordered_def check_def)

lemma overrides_cases:
  assumes "has_kind px (config_schema px) c"
  shows "if overrides_known templates c
    then resolve_body_template_overrides (repo_exists templates) (body_overrides c) = Inr (body_overrides c)
    else \<exists>e. resolve_body_template_overrides (repo_exists templates) (body_overrides c) = Inl e \<and> exn_is e ConfigurationError"
proof -
  have named: "\<forall>(pipeline, ref) \<in> set (body_overrides c). tpl_name ref \<noteq> [] \<and> tpl_version ref \<noteq> []"
    using config_overrides_named [OF assms] by blast
  have "if \<forall>(pipeline, ref) \<in> set refs. repo_exists templates ref
    then resolve_body_template_overrides (repo_exists templates) refs = Inr refs
    else \<exists>e. resolve_body_template_overrides (repo_exists templates) refs = Inl e \<and> exn_is e ConfigurationError"
    if "\<forall>(pipeline, ref) \<in> set refs. tpl_name ref \<noteq> [] \<and> tpl_version ref \<noteq> []" for refs
    using that by (induction refs) (auto simp: template_ref_post_init_def check_def config_error_def split: if_splits)
  from this [OF named] show ?thesis by (simp add: overrides_known_def)
qed

lemma config_sweeper_cases:
  assumes "has_kind px (config_schema px) c"
  shows "if actions_handled c then \<exists>sw. config_sweeper c = Inr sw \<and>
      sw_actions sw = texts (at_path c [''sweeper'', ''disposition_actions'']) \<and> sw_overrides sw = map_of (disposition_overrides c)
    else \<exists>e. config_sweeper c = Inl e \<and> exn_is e ConfigurationError"
proof -
  let ?missing = "{a \<in> set (texts (at_path c [''sweeper'', ''disposition_actions'']) @ concat (map snd (disposition_overrides c))).
      a \<notin> dom handler_registry}"
  have fin: "finite ?missing" by simp
  have reg: "dom handler_registry = {''DISCARD_SILENTLY'', ''NOTIFY_ADMINS''}" by (auto simp: handler_registry_def)
  have overrides: "(\<Union>(p, ys) \<in> set ps. set ys) = set (concat (map snd ps))"
    for ps :: "(string \<times> action_name list) list" by (induction ps) auto
  have missing: "?missing = {} \<longleftrightarrow> actions_handled c"
    unfolding actions_handled_def overrides reg [symmetric] set_append [symmetric] subset_iff by blast
  show ?thesis
  proof (cases "actions_handled c")
    case True
    then have "sorted_of ?missing = []" using missing by simp
    with True config_ranges(5) [OF assms] show ?thesis by (simp add: config_sweeper_def sweeper_init_def check_def)
  next
    case False
    then have "sorted_of ?missing \<noteq> []" using missing fin sorted_list_of_set_eq_Nil_iff by blast
    with False config_ranges(5) [OF assms] show ?thesis by (simp add: config_sweeper_def sweeper_init_def check_def)
  qed
qed

lemma config_rest:
  assumes "has_kind px (config_schema px) c"
  shows "\<exists>dp. config_dispatcher c = Inr dp" "\<exists>rp. config_report_pruner c = Inr rp" "\<exists>ap. config_audit_pruner c = Inr ap"
    "\<exists>p. pruner_loop_init (int_at c [''persistence'', ''filesystem'', ''prune_interval_seconds'']) = Inr p"
    "\<exists>p. pruner_loop_init (int_at c [''observability'', ''audit'', ''cleanup_interval_hours''] * 3600) = Inr p"
    "template_ref_post_init (template_ref_of (at_path c [''templates'', ''email_body_template_ref''])) =
       Inr (template_ref_of (at_path c [''templates'', ''email_body_template_ref'']))"
proof -
  have "has_kind px (K_Str 1) (at_path c [''templates'', ''email_body_template_ref'', ''name''])"
    "has_kind px (K_Str 1) (at_path c [''templates'', ''email_body_template_ref'', ''version''])"
    by (rule has_kind_at [OF assms schema_wf], simp add: schema_defs)+
  from this [THEN has_text_at] show "template_ref_post_init (template_ref_of (at_path c [''templates'', ''email_body_template_ref''])) =
       Inr (template_ref_of (at_path c [''templates'', ''email_body_template_ref'']))"
    by (auto simp: template_ref_post_init_def template_ref_of_def text_at_def check_def)
qed (use config_ranges [OF assms] in \<open>simp_all add: config_dispatcher_def dispatcher_init_def config_report_pruner_def
      report_pruner_init_def config_audit_pruner_def audit_pruner_init_def pruner_loop_init_def check_def\<close>)

lemma boot_bind_simps [simp]:
  "boot_bind (boot_lift (Inr x)) k s = k x s" "boot_bind (boot_lift (Inl e)) k s = (Inl e, s)"
  by (simp_all add: boot_bind_def boot_lift_def)

lemma boot_accounts_ok:
  assumes "has_kind px (config_schema px) c" and "px_email px [] = None" and "account_rows_ok (w_db (bs_world s))"
    and "\<And>password. \<exists>h. hash password = Inr h" and "at_path c [''auth'', ''admin''] \<noteq> JNull"
  shows "\<exists>h. boot_accounts (reconcile_admin_tx hash now (text_at c [''auth'', ''admin'', ''email''])
      (text_at c [''auth'', ''admin'', ''password''])) s =
    (Inr (), s\<lparr> bs_world := (bs_world s)\<lparr> w_db := provisioned now (text_at c [''auth'', ''admin'', ''email'']) h
      (w_db (bs_world s)) \<rparr> \<rparr>)"
proof -
  let ?a = "at_path c [''auth'', ''admin'']"
  have "has_kind px (K_Optional admin_account_config) ?a"
    by (rule has_kind_at [OF assms(1) schema_wf]) (simp add: schema_defs)
  then have a: "has_kind px admin_account_config ?a" using assms(5) by simp
  have wf: "kind_wf px admin_account_config" by (simp add: schema_defs)
  have "has_kind px K_Email (at_path ?a [''email''])" "has_kind px (K_Str 0) (at_path ?a [''password''])"
    by (rule has_kind_at [OF a wf], simp add: schema_defs)+
  moreover have "admin_complaint ?a = Inr None" using a by (auto simp: admin_account_config_def split: json.splits)
  ultimately have ne: "text_at c [''auth'', ''admin'', ''email''] \<noteq> []" "text_at c [''auth'', ''admin'', ''password''] \<noteq> []"
    using assms(2) by (auto simp: text_at_def text_of_def admin_complaint_def py_strip_def split: json.splits if_splits)
  obtain h where "hash (text_at c [''auth'', ''admin'', ''password'']) = Inr h" using assms(4) by blast
  then have "reconcile_admin_tx hash now (text_at c [''auth'', ''admin'', ''email'']) (text_at c [''auth'', ''admin'', ''password''])
      (w_db (bs_world s)) = Done () (provisioned now (text_at c [''auth'', ''admin'', ''email'']) h (w_db (bs_world s)))"
    by (rule reconcile_admin_eq [OF assms(3) ne])
  then show ?thesis
    by (auto simp: boot_accounts_def in_uow_def uow_def)
qed

text \<open>The steps that change the machine leave a result on a machine that works.\<close>

lemma machine_steps:
  assumes valid: "has_kind px (config_schema px) c" and ok: "machine_ok io c templates s" and "px_email px [] = None"
  obtains applied tags renderer decoy s1 s2 s3 s4 where "boot_migrate io s = (Inr applied, s1)"
    "load_tag_vocabulary (bt_vocabulary io (text_at c [''tags'', ''vocabulary_path''])) = Inr tags"
    "renderer_init (bt_engine io) templates (int_at c [''templates'', ''max_context_bytes''])
       (int_at c [''templates'', ''max_rendered_bytes'']) = Inr renderer" "rn_entries renderer = templates"
    "boot_directory (bt_report_io io) (config_path c [''persistence'', ''filesystem'', ''report_directory'']) s1 = (Inr (), s2)"
    "boot_archive io c s2 = (Inr (), s3)"
    "and_then (password_post_init (bt_decoy io)) (bt_argon2 io (argon2_params c)) = Inr decoy"
    "boot_admin io c s3 = (Inr (), s4)"
proof -
  let ?dir = "config_path c [''persistence'', ''filesystem'', ''report_directory'']"
  from ok obtain applied where "fst (boot_migrate io s) = Inr applied" by (auto simp: machine_ok_def)
  then obtain s1 where s1: "boot_migrate io s = (Inr applied, s1)" by (cases "boot_migrate io s") auto
  then have same: "bs_files s1 = bs_files s" "bs_world s1 = bs_world s"
    by (auto simp: boot_migrate_def split: prod.splits)
  from ok obtain vs where "build_validators (bt_engine io) (repo_list_all templates) = Inr vs" by (auto simp: machine_ok_def)
  then obtain renderer where renderer: "renderer_init (bt_engine io) templates (int_at c [''templates'', ''max_context_bytes''])
       (int_at c [''templates'', ''max_rendered_bytes'']) = Inr renderer" "rn_entries renderer = templates"
    using config_ranges(15,16) [OF valid] by (auto simp: renderer_init_def check_def)
  obtain fs where fs: "ensure_writable_directory (fst (bt_report_io io)) (snd (bt_report_io io)) ?dir (bs_files s) = (Inr (), fs)"
    and archive: "archive_ready io c fs"
    using ok by (auto simp: machine_ok_def Let_def split: prod.splits)
  define s2 where "s2 = s1\<lparr> bs_files := fs \<rparr>"
  have s2: "boot_directory (bt_report_io io) ?dir s1 = (Inr (), s2)"
    using fs same by (simp add: boot_directory_def s2_def)
  have "\<exists>s3. boot_archive io c s2 = (Inr (), s3) \<and> bs_world s3 = bs_world s2"
    using archive by (auto simp: boot_archive_def archive_ready_def boot_lift_def boot_directory_def s2_def split: option.splits prod.splits)
  then obtain s3 where s3: "boot_archive io c s2 = (Inr (), s3)" "bs_world s3 = bs_world s"
    using same by (auto simp: s2_def)
  have hash: "\<exists>h. bt_argon2 io (argon2_params c) password = Inr h" for password using ok by (auto simp: machine_ok_def)
  obtain decoy where decoy: "and_then (password_post_init (bt_decoy io)) (bt_argon2 io (argon2_params c)) = Inr decoy"
    using hash [of "bt_decoy io"] ok by (auto simp: password_post_init_def check_def machine_ok_def)
  have "account_rows_ok (w_db (bs_world s3))" using ok s3(2) by (simp add: machine_ok_def)
  from boot_accounts_ok [where hash = "bt_argon2 io (argon2_params c)" and now = "bt_now io", OF valid assms(3) this hash] have "\<exists>s4. boot_admin io c s3 = (Inr (), s4)"
    by (auto simp: boot_admin_def boot_lift_def simp del: at_path_simps)
  moreover obtain tags where "load_tag_vocabulary (bt_vocabulary io (text_at c [''tags'', ''vocabulary_path''])) = Inr tags"
    using ok by (auto simp: machine_ok_def)
  ultimately show thesis using that s1 renderer s2 s3(1) decoy by blast
qed

lemma assemble_cases:
  assumes "has_kind px (config_schema px) c" and "machine_ok io c templates s" and "px_email px [] = None"
  shows "case fst (assemble_service io c s) of
      Inr sv \<Rightarrow> backoff_ordered c \<and> overrides_known templates c \<and> actions_handled c
    | Inl e \<Rightarrow> if backoff_ordered c then exn_is e ConfigurationError \<and> \<not> (overrides_known templates c \<and> actions_handled c)
        else e = value_error"
proof -
  have manifest: "load_template_manifest (butlast (config_path c [''templates'', ''manifest_path'']))
       (bt_manifest io (text_at c [''templates'', ''manifest_path''])) = Inr templates"
    using assms(2) by (simp add: machine_ok_def)
  from machine_steps [OF assms] obtain applied tags renderer decoy s1 s2 s3 s4 where steps:
    "boot_migrate io s = (Inr applied, s1)"
    "load_tag_vocabulary (bt_vocabulary io (text_at c [''tags'', ''vocabulary_path''])) = Inr tags"
    "renderer_init (bt_engine io) templates (int_at c [''templates'', ''max_context_bytes''])
       (int_at c [''templates'', ''max_rendered_bytes'']) = Inr renderer" "rn_entries renderer = templates"
    "boot_directory (bt_report_io io) (config_path c [''persistence'', ''filesystem'', ''report_directory'']) s1 = (Inr (), s2)"
    "boot_archive io c s2 = (Inr (), s3)"
    "and_then (password_post_init (bt_decoy io)) (bt_argon2 io (argon2_params c)) = Inr decoy"
    "boot_admin io c s3 = (Inr (), s4)" .
  note run = assemble_service_def boot_bind_def boot_lift_def steps(1,2,3) manifest steps(5,6,7,8)
  show ?thesis
  proof (cases "backoff_ordered c \<and> overrides_known templates c")
    case True
    with config_mailer_cases [OF assms(1)] overrides_cases [OF assms(1), of templates] show ?thesis
      using config_sweeper_cases [OF assms(1)] config_rest [OF assms(1)]
      by (auto simp: run simp del: at_path_simps split: if_splits)
  next
    case False
    with config_mailer_cases [OF assms(1)] overrides_cases [OF assms(1), of templates] config_rest [OF assms(1)] show ?thesis
      by (auto simp: run simp del: at_path_simps split: if_splits)
  qed
qed


text \<open>
  C33: a failed start leaves no connection open, with one exception: when a PRAGMA fails after the
  file has been opened, nobody closes it.  The comment of \<open>build_service\<close> promises to close it on
  any failure.
\<close>

theorem failed_start_leaks:
  "case build_service io c s of
      (Inr sv, is_open, s') \<Rightarrow> is_open
    | (Inl e, is_open, s') \<Rightarrow>
        (is_open \<longleftrightarrow> (\<exists>orphans. assert_error_codes_match_proto_enum (bt_proto_codes io) = Inr orphans) \<and>
          \<not> (path_text (config_path c [''persistence'', ''sqlite_path'']) \<noteq> '':memory:'' \<and> sq_mkdir_fails (bt_sqlite io)) \<and>
          \<not> sq_connect_fails (bt_sqlite io) \<and>
          apply_pragmas (path_text (config_path c [''persistence'', ''sqlite_path''])) (bt_sqlite io) = Inl e \<and> s' = s)"
  by (auto simp: build_service_def open_connection_def Let_def split: sum.splits prod.splits if_splits)

section \<open>A service that has started\<close>

lemma build_service_assembled:
  "build_service io c s = (Inr sv, is_open, s') \<Longrightarrow> is_open \<and> assemble_service io c s = (Inr sv, s')"
  by (auto simp: build_service_def open_connection_def Let_def split: sum.splits prod.splits if_splits)

lemma boot_bind_Inr:
  "boot_bind m k s = (Inr y, s'') \<longleftrightarrow> (\<exists>x s'. m s = (Inr x, s') \<and> k x s' = (Inr y, s''))"
  by (auto simp: boot_bind_def split: sum.splits prod.splits)

lemma boot_lift_Inr: "boot_lift r s = (Inr x, s') \<longleftrightarrow> r = Inr x \<and> s' = s"
  by (auto simp: boot_lift_def)

lemma repo_exists_get: "repo_exists templates ref \<longleftrightarrow> (\<exists>m. repo_get templates ref = Inr m)"
proof -
  have "repo_exists templates ref \<longleftrightarrow> map_of templates (tpl_name ref, tpl_version ref) \<noteq> None"
    by (simp add: repo_exists_def map_of_eq_None_iff)
  also have "\<dots> \<longleftrightarrow> (\<exists>m. repo_get templates ref = Inr m)" by (auto simp: repo_get_def split: option.splits)
  finally show ?thesis .
qed

lemma find_row_map: "(\<And>r. key (g r) = key r) \<Longrightarrow> find_row key k (map g rows) = map_option g (find_row key k rows)"
  by (induction rows) auto

text \<open>The account the transaction leaves, whatever the table held before.\<close>

lemma reconcile_admin_Done:
  assumes "reconcile_admin_tx hash now email password d = Done u d'"
  shows "\<exists>r. find_row wr_email email (db_users d') = Some r \<and> wr_is_admin r \<and> \<not> wr_disabled r"
proof (cases "find_row wr_email email (db_users d)")
  case None
  with assms show ?thesis
    by (auto simp: reconcile_admin_tx_def tx_bind_Done tx_then_Done tx_lift_Done tx_return_def user_get_by_email_Done
        opt_row_to_user_Inr user_save_Done user_post_init_Inr)
      (auto simp: user_row_of_def admin_user_def)
next
  case (Some r)
  with assms obtain v where "user_update (wr_user_id r) enable_admin d = Done v d'"
    by (auto simp: reconcile_admin_tx_def tx_bind_Done tx_then_Done tx_return_def tx_raise_def user_get_by_email_Done
        opt_row_to_user_Inr row_to_user_Inr)
  moreover have "find_row wr_user_id (wr_user_id r) (db_users d) \<noteq> None"
    using find_row_Some [OF Some] by (auto simp: find_row_None)
  ultimately have "d' = db_users_update (update_rows (\<lambda>q. wr_user_id q = wr_user_id r) admin_row) d"
    using user_update_Done [of "wr_user_id r" enable_admin d v d'] by (auto simp: admin_row_def split: option.splits)
  with Some show ?thesis by (simp add: update_rows_def find_row_map)
qed

lemma sweeper_actions_handled:
  assumes "config_sweeper c = Inr sw"
  shows "set (resolve_disposition_actions sw pipeline) \<subseteq> dom handler_registry"
proof -
  let ?actions = "texts (at_path c [''sweeper'', ''disposition_actions''])"
  let ?missing = "{a \<in> set (?actions @ concat (map snd (disposition_overrides c))). a \<notin> dom handler_registry}"
  have fin: "finite ?missing" by simp
  from assms have "sorted_of ?missing = []" and sw: "sw_actions sw = ?actions" "sw_overrides sw = map_of (disposition_overrides c)"
    by (auto simp: config_sweeper_def sweeper_init_def Let_def check_Inr)
  then have none: "?missing = {}" using fin sorted_list_of_set_eq_Nil_iff by blast
  then have "set acts \<subseteq> dom handler_registry" if "(k, acts) \<in> set (disposition_overrides c)" for k acts
    using that by fastforce
  then show ?thesis
    using none sw by (auto simp: resolve_disposition_actions_def dest!: map_of_SomeD split: option.splits)
qed

text \<open>The parts of an assembled service, each with the step that made it.\<close>

lemma assembled_parts:
  assumes "assemble_service io c s = (Inr sv, s')"
  shows "load_tag_vocabulary (bt_vocabulary io (text_at c [''tags'', ''vocabulary_path''])) = Inr (sv_vocabulary sv)"
    "resolve_body_template_overrides (repo_exists (rn_entries (sv_renderer sv))) (body_overrides c) = Inr (sv_body_overrides sv)"
    "config_sweeper c = Inr (sv_sweeper sv)" "config_mailer c = Inr (sv_mailer sv)"
    "rt_scheduler (sv_runtime sv) = scheduler_init" "\<exists>s1. boot_admin io c s1 = (Inr (), s')"
    "\<not> po_started (rt_sweeper_loop (sv_runtime sv))" "\<not> po_started (rt_report_loop (sv_runtime sv))"
    "\<not> po_started (rt_audit_loop (sv_runtime sv))"
proof -
  have entries: "renderer_init en templates m n = Inr r \<Longrightarrow> rn_entries r = templates"
    for en :: "'t engine" and templates m n r by (auto simp: renderer_init_def check_Inr and_then_Inr)
  note parts = assms [unfolded assemble_service_def boot_bind_Inr boot_lift_Inr]
  show "load_tag_vocabulary (bt_vocabulary io (text_at c [''tags'', ''vocabulary_path''])) = Inr (sv_vocabulary sv)"
    "resolve_body_template_overrides (repo_exists (rn_entries (sv_renderer sv))) (body_overrides c) = Inr (sv_body_overrides sv)"
    "config_sweeper c = Inr (sv_sweeper sv)" "config_mailer c = Inr (sv_mailer sv)"
    "rt_scheduler (sv_runtime sv) = scheduler_init" "\<exists>s1. boot_admin io c s1 = (Inr (), s')"
    "\<not> po_started (rt_sweeper_loop (sv_runtime sv))" "\<not> po_started (rt_report_loop (sv_runtime sv))"
    "\<not> po_started (rt_audit_loop (sv_runtime sv))"
    using parts by (auto simp: entries sweeper_loop_init_def pruner_loop_init_def check_Inr simp del: at_path_simps)
qed

lemma mailer_init_intervals:
  "mailer_init port user pw tls sz retries initial longest timeout = Inr ml \<Longrightarrow>
   0 < ml_initial_interval ml \<and> ml_initial_interval ml \<le> ml_max_interval ml"
  by (auto simp: mailer_init_def check_Inr)


section \<open>The process\<close>

text \<open>\<open>_resolve_config_path\<close>: the option, then the environment; nothing means that argparse exits with 2.\<close>

definition main_config_path :: "string option \<Rightarrow> (string \<Rightarrow> string option) \<Rightarrow> string option" where
  "main_config_path config_option env = (case config_option of
     Some p \<Rightarrow> Some p
   | None \<Rightarrow> (case env ''MESSAGE_SERVICE_CONFIG'' of
       None \<Rightarrow> None | Some v \<Rightarrow> if v = [] then None else Some v))"

text \<open>\<open>_build_grpc_server\<close>: the concurrency limit of the interceptor, if any, and the address.\<close>

definition build_grpc_server :: "json \<Rightarrow> exn + int option \<times> string" where
  "build_grpc_server c =
     (let limit = int_at c [''grpc'', ''max_in_flight_rpcs''];
          address = text_at c [''grpc'', ''host''] @ '':'' @ show_int (int_at c [''grpc'', ''port'']) in
      if 0 < limit then and_then (limiter_init limit) (\<lambda>_. Inr (Some limit, address)) else Inr (None, address))"

text \<open>What sets the shutdown event: a signal, or the end of the REST task unless it was cancelled.\<close>

datatype rest_end = Rest_Cancelled | Rest_Raised exn | Rest_Returned
datatype run_event = Signal_Received | Rest_Ended rest_end

fun on_event :: "run_event \<Rightarrow> bool \<times> string list \<Rightarrow> bool \<times> string list" where
  "on_event Signal_Received (shutdown, logged) = (True, logged @ [''signal_received''])"
| "on_event (Rest_Ended Rest_Cancelled) (shutdown, logged) = (shutdown, logged)"
| "on_event (Rest_Ended (Rest_Raised e)) (shutdown, logged) =
     (if shutdown then (shutdown, logged) else (True, logged @ [''rest_server_task_failed'']))"
| "on_event (Rest_Ended Rest_Returned) (shutdown, logged) =
     (if shutdown then (shutdown, logged) else (True, logged @ [''rest_server_task_exited_unexpectedly'']))"

definition start_loops :: "runtime \<Rightarrow> (exn + unit) \<times> runtime" where
  "start_loops rt = (case sweeper_loop_start True (rt_sweeper_loop rt, rt_scheduler rt) of
     (Inl e, p, sc) \<Rightarrow> (Inl e, rt\<lparr> rt_sweeper_loop := p, rt_scheduler := sc \<rparr>)
   | (Inr _, p, sc) \<Rightarrow> (case report_loop_start True (rt_report_loop rt, sc) of
       (Inl e, q, sc) \<Rightarrow> (Inl e, rt\<lparr> rt_sweeper_loop := p, rt_report_loop := q, rt_scheduler := sc \<rparr>)
     | (Inr _, q, sc) \<Rightarrow> (case audit_loop_start True (rt_audit_loop rt, sc) of
         (r, a, sc) \<Rightarrow> (r, rt\<lparr> rt_sweeper_loop := p, rt_report_loop := q, rt_audit_loop := a, rt_scheduler := sc \<rparr>))))"

text \<open>
  \<open>_run\<close> of a built service.  \<open>grpc_fails\<close> and \<open>rest_fails\<close> are the exceptions of starting the two
  servers, \<open>events\<close> what happens until the shutdown event is looked at, \<open>serve\<close> what requests and
  loops do to the scheduler in the meantime.  No result: the process is still serving.
\<close>

record run_io =
  ru_grpc_fails :: "exn option"
  ru_rest_fails :: "exn option"
  ru_events :: "run_event list"
  ru_serve :: "scheduler \<Rightarrow> scheduler"
  ru_in_time :: "task \<Rightarrow> task_outcome option"
  ru_on_cancel :: "task \<Rightarrow> task_outcome"
  ru_meanwhile :: "string option list"

definition finish_run :: "run_io \<Rightarrow> exn + unit \<Rightarrow> runtime \<Rightarrow> ((exn + unit) \<times> runtime) option" where
  "finish_run ru r rt = Some (r, shutdown_service (ru_in_time ru) (ru_on_cancel ru) (ru_meanwhile ru) rt)"

definition run_service :: "run_io \<Rightarrow> json \<Rightarrow> runtime \<Rightarrow> ((exn + unit) \<times> runtime) option" where
  "run_service ru c rt = (case build_grpc_server c of
     Inl e \<Rightarrow> finish_run ru (Inl e) rt
   | Inr _ \<Rightarrow> (case ru_grpc_fails ru of
       Some e \<Rightarrow> finish_run ru (Inl e) rt
     | None \<Rightarrow> (case ru_rest_fails ru of
         Some e \<Rightarrow> finish_run ru (Inl e) rt
       | None \<Rightarrow> (case start_loops rt of
           (Inl e, rt') \<Rightarrow> finish_run ru (Inl e) rt'
         | (Inr _, rt') \<Rightarrow>
             if fst (fold on_event (ru_events ru) (False, []))
             then finish_run ru (Inr ()) (rt'\<lparr> rt_scheduler := ru_serve ru (rt_scheduler rt') \<rparr>)
             else None))))"

text \<open>\<open>_async_main\<close>: the exit code, if the process ends.\<close>

definition async_main :: "('s, 't) boot_io \<Rightarrow> run_io \<Rightarrow> config_result \<Rightarrow> 's boot_state \<Rightarrow> int option" where
  "async_main io ru loaded s = (case loaded of
     Load_Raised e \<Rightarrow> Some 2
   | Invalid vs \<Rightarrow> Some 2
   | Loaded c \<Rightarrow> (case build_service io c s of
       (Inl e, _, _) \<Rightarrow> Some 1
     | (Inr sv, _, _) \<Rightarrow> (case run_service ru c (sv_runtime sv) of
         None \<Rightarrow> None | Some (Inl e, _) \<Rightarrow> Some 1 | Some (Inr _, _) \<Rightarrow> Some 0)))"

lemma start_loops_fresh:
  assumes "build_service io c s = (Inr sv, is_open, s')"
  shows "\<exists>rt. start_loops (sv_runtime sv) = (Inr (), rt)"
proof -
  have "assemble_service io c s = (Inr sv, s')" using build_service_assembled [OF assms] by simp
  note parts = assembled_parts [OF this]
  show ?thesis
    using parts(5,7-9) by (simp add: start_loops_def sweeper_loop_start_def report_loop_start_def audit_loop_start_def
        loop_start_def scheduler_schedule_def scheduler_init_def)
qed

lemma build_grpc_server_Inr: "\<exists>p. build_grpc_server c = Inr p"
  by (simp add: build_grpc_server_def Let_def limiter_init_def check_def)

lemma on_event_fold: "fst (fold on_event evs st) \<longleftrightarrow> fst st \<or> (\<exists>ev \<in> set evs. ev \<noteq> Rest_Ended Rest_Cancelled)"
proof (induction evs arbitrary: st)
  case (Cons ev evs)
  have "fst (on_event ev st) \<longleftrightarrow> fst st \<or> ev \<noteq> Rest_Ended Rest_Cancelled"
    by (cases "(ev, st)" rule: on_event.cases) auto
  with Cons show ?case by auto
qed simp

text \<open>
  C32: the exit code of the process.  2: the configuration does not load; 1: the service does not
  start; otherwise it serves until a signal arrives or the dashboard ends, and exits with 0 even
  when the dashboard died of an exception, which a supervisor that restarts on failure does not see.
\<close>

theorem exit_code:
  "async_main io ru loaded s = (case loaded of
      Loaded c \<Rightarrow> (case build_service io c s of
          (Inl e, is_open, s') \<Rightarrow> Some 1
        | (Inr sv, is_open, s') \<Rightarrow>
            if ru_grpc_fails ru = None \<and> ru_rest_fails ru = None
            then (if set (ru_events ru) \<subseteq> {Rest_Ended Rest_Cancelled} then None else Some 0) else Some 1)
    | _ \<Rightarrow> Some 2)"
proof (cases loaded)
  case (Loaded c)
  obtain r is_open s' where b: "build_service io c s = (r, is_open, s')" by (cases "build_service io c s")
  show ?thesis
  proof (cases r)
    case (Inr sv)
    obtain rt where rt: "start_loops (sv_runtime sv) = (Inr (), rt)"
      using start_loops_fresh b unfolding Inr by blast
    obtain p where p: "build_grpc_server c = Inr p" using build_grpc_server_Inr by blast
    show ?thesis using Loaded b Inr rt p on_event_fold [of "ru_events ru" "(False, [])"]
      by (auto simp: async_main_def run_service_def finish_run_def split: option.splits)
  qed (use Loaded b in \<open>simp add: async_main_def\<close>)
qed (simp_all add: async_main_def)

text \<open>
  However a built service ends - a server that cannot start, a signal, a dead dashboard -
  no background task is left, no new one is accepted, the loops are told to stop and the
  connection is closed.
\<close>

theorem process_shuts_down:
  "case run_service ru c rt of None \<Rightarrow> ru_grpc_fails ru = None \<and> ru_rest_fails ru = None
    | Some (r, rt') \<Rightarrow> sc_tasks (rt_scheduler rt') = [] \<and> sc_shutting_down (rt_scheduler rt') \<and>
        po_stop_set (rt_sweeper_loop rt') \<and> po_stop_set (rt_report_loop rt') \<and> po_stop_set (rt_audit_loop rt') \<and>
        \<not> rt_connection_open rt'"
proof -
  have down: "sc_tasks (rt_scheduler (shutdown_service a b m rt)) = [] \<and> sc_shutting_down (rt_scheduler (shutdown_service a b m rt)) \<and>
      po_stop_set (rt_sweeper_loop (shutdown_service a b m rt)) \<and> po_stop_set (rt_report_loop (shutdown_service a b m rt)) \<and>
      po_stop_set (rt_audit_loop (shutdown_service a b m rt)) \<and> \<not> rt_connection_open (shutdown_service a b m rt)" for a b m rt
    by (auto simp: shutdown_service_def Let_def await_all_def begin_shutdown_def loop_stop_def
        schedule_all_shutting tasks_done_eq filter_empty_conv)
  have "build_grpc_server c \<noteq> Inl e" for e using build_grpc_server_Inr [of c] by auto
  then show ?thesis
    using down by (auto simp: run_service_def finish_run_def split: option.splits sum.splits prod.splits)
qed

section \<open>A sample machine\<close>

definition sample_boot_document :: "int \<Rightarrow> json" where
  "sample_boot_document longest = JObj
     [(''grpc'', JObj []), (''dashboard'', JObj []),
      (''persistence'', JObj [(''sqlite_path'', JStr ''/db/ms.db''),
         (''filesystem'', JObj [(''report_directory'', JStr ''/reports'')])]),
      (''templates'', JObj [(''manifest_path'', JStr ''/etc/m.toml''),
         (''email_body_template_ref'', JObj [(''name'', JStr ''body''), (''version'', JStr ''1'')])]),
      (''tags'', JObj [(''vocabulary_path'', JStr ''/etc/tags.toml'')]),
      (''auth'', JObj [(''admin'', JObj [(''email'', JStr ''root@x''), (''password'', JStr ''pw'')])]),
      (''mail'', JObj [(''from_address'', JStr ''ms@x''),
         (''retry'', JObj [(''max_interval_seconds'', JInt longest)]),
         (''smtp'', JObj [(''host'', JStr ''relay''), (''port'', JInt 25)])])]"

definition sample_boot_config :: "int \<Rightarrow> json" where
  "sample_boot_config longest = (case validate sample_pydantic [] (config_schema sample_pydantic)
     (sample_boot_document longest) of Inr (vs, c) \<Rightarrow> c | Inl e \<Rightarrow> JNull)"

definition sample_boot_io :: "(unit, string) boot_io" where
  "sample_boot_io = \<lparr> bt_proto_codes = error_code ` UNIV, bt_sqlite = \<lparr> sq_mkdir_fails = False, sq_connect_fails = False,
       sq_journal_mode = Inr (Some ''wal''), sq_synchronous = Inr (Some 1), sq_foreign_keys = Inr (Some 1),
       sq_busy_timeout = Inr (Some 5000) \<rparr>,
     bt_migrations = [], bt_sql = (\<lambda>script s. Some s), bt_sql_fault = (\<lambda>n. False), bt_sql_clock = (\<lambda>n. 0),
     bt_vocabulary = (\<lambda>p. Some []), bt_manifest = (\<lambda>p. Some ([], Absent)), bt_engine = sample_engine,
     bt_report_io = (no_faults, False), bt_archive_io = (no_faults, False),
     bt_argon2 = (\<lambda>params p. Inr (''hash:'' @ p)), bt_decoy = ''decoy'', bt_now = 0 \<rparr>"

definition sample_boot_state :: "unit boot_state" where
  "sample_boot_state = \<lparr> bs_schema = \<lparr> sd_schema = (), sd_migrations = None \<rparr>, bs_files = \<lparr> fs_files = [], fs_dirs = [] \<rparr>,
     bs_world = empty_world \<rparr>"

lemma sample_boot_valid:
  assumes "1 \<le> longest"
  shows "\<exists>c. validate sample_pydantic [] (config_schema sample_pydantic) (sample_boot_document longest) = Inr ([], c) \<and>
    int_at c [''mail'', ''retry'', ''initial_interval_seconds''] = 2 \<and>
    int_at c [''mail'', ''retry'', ''max_interval_seconds''] = longest \<and>
    archive_dir c = None \<and> body_overrides c = [] \<and> disposition_overrides c = [] \<and>
    texts (at_path c [''sweeper'', ''disposition_actions'']) = [''NOTIFY_ADMINS'', ''DISCARD_SILENTLY''] \<and>
    at_path c [''auth'', ''admin''] \<noteq> JNull \<and> text_at c [''auth'', ''admin'', ''email''] = ''root@x''"
  using assms
  by (simp add: schema_defs sample_boot_document_def dict_get_def bad_def good_def sample_pydantic_def Let_def
      pipelines_complaint_def ports_complaint_def admin_complaint_def py_strip_def py_space_def int_at_def archive_dir_def
      body_overrides_def disposition_overrides_def text_at_def text_of_def unregistered_key_def)

lemma sample_boot_config_ok:
  assumes "1 \<le> longest"
  shows "has_kind sample_pydantic (config_schema sample_pydantic) (sample_boot_config longest)"
    "machine_ok sample_boot_io (sample_boot_config longest) [] sample_boot_state"
    "backoff_ordered (sample_boot_config longest) \<longleftrightarrow> 2 \<le> longest"
    "overrides_known [] (sample_boot_config longest)" "actions_handled (sample_boot_config longest)"
    "at_path (sample_boot_config longest) [''auth'', ''admin''] \<noteq> JNull"
    "text_at (sample_boot_config longest) [''auth'', ''admin'', ''email''] = ''root@x''"
proof -
  obtain c where c: "validate sample_pydantic [] (config_schema sample_pydantic) (sample_boot_document longest) = Inr ([], c)"
    and facts: "int_at c [''mail'', ''retry'', ''initial_interval_seconds''] = 2"
      "int_at c [''mail'', ''retry'', ''max_interval_seconds''] = longest"
      "archive_dir c = None" "body_overrides c = []" "disposition_overrides c = []"
      "texts (at_path c [''sweeper'', ''disposition_actions'']) = [''NOTIFY_ADMINS'', ''DISCARD_SILENTLY'']"
      "at_path c [''auth'', ''admin''] \<noteq> JNull" "text_at c [''auth'', ''admin'', ''email''] = ''root@x''"
    using sample_boot_valid [OF assms] by blast
  have eq: "sample_boot_config longest = c" by (simp add: sample_boot_config_def c)
  show "has_kind sample_pydantic (config_schema sample_pydantic) (sample_boot_config longest)"
    unfolding eq by (rule validate_sound(1) [OF sample_pydantic_ok c schema_wf])
  have fresh: "ensure_writable_directory no_faults False dir \<lparr> fs_files = [], fs_dirs = [] \<rparr> =
      (Inr (), file_unlink (probe_of dir) (file_put (probe_of dir) [] \<lparr> fs_files = [], fs_dirs = parents (probe_of dir) \<rparr>))" for dir
  proof -
    have "length p < length (probe_of dir)" if "p \<in> set (parents (probe_of dir))" for p
      using that by (auto simp: parents_def)
    then have "probe_of dir \<notin> set (parents (probe_of dir))" by blast
    then show ?thesis
      by (simp add: ensure_writable_directory_def mkdir_parents_def write_text_def no_faults_def file_at_def Let_def)
  qed
  show "machine_ok sample_boot_io (sample_boot_config longest) [] sample_boot_state"
    unfolding eq machine_ok_def
  proof (intro conjI)
    show "\<exists>applied. fst (boot_migrate sample_boot_io sample_boot_state) = Inr applied"
      by (simp add: boot_migrate_def sample_boot_io_def apply_migrations_def discover_def Let_def)
    show "\<exists>tags. load_tag_vocabulary (bt_vocabulary sample_boot_io (text_at c [''tags'', ''vocabulary_path''])) = Inr tags"
      by (simp add: sample_boot_io_def load_tag_vocabulary_def dict_get_def check_def)
    show "load_template_manifest (butlast (config_path c [''templates'', ''manifest_path'']))
       (bt_manifest sample_boot_io (text_at c [''templates'', ''manifest_path''])) = Inr []"
      by (simp add: sample_boot_io_def load_template_manifest_def check_def)
    show "\<exists>vs. build_validators (bt_engine sample_boot_io) (repo_list_all []) = Inr vs"
      by (simp add: repo_list_all_def)
    show "let dir = config_path c [''persistence'', ''filesystem'', ''report_directory''];
          (r, fs) = ensure_writable_directory (fst (bt_report_io sample_boot_io)) (snd (bt_report_io sample_boot_io)) dir
            (bs_files sample_boot_state)
      in r = Inr () \<and> archive_ready sample_boot_io c fs"
      by (simp add: sample_boot_io_def sample_boot_state_def fresh archive_ready_def facts(3) Let_def)
    show "bt_decoy sample_boot_io \<noteq> []"
      "\<forall>password. \<exists>h. bt_argon2 sample_boot_io (argon2_params c) password = Inr h"
      "account_rows_ok (w_db (bs_world sample_boot_state))"
      by (simp_all add: sample_boot_io_def sample_boot_state_def account_rows_ok_def empty_world_def empty_db_def)
  qed
  show "backoff_ordered (sample_boot_config longest) \<longleftrightarrow> 2 \<le> longest" "overrides_known [] (sample_boot_config longest)"
    "actions_handled (sample_boot_config longest)" "at_path (sample_boot_config longest) [''auth'', ''admin''] \<noteq> JNull"
    "text_at (sample_boot_config longest) [''auth'', ''admin'', ''email''] = ''root@x''"
    using facts unfolding eq
    by (simp_all add: backoff_ordered_def overrides_known_def actions_handled_def del: at_path_simps)
qed

lemma sample_boot_starts:
  "\<exists>sv s'. build_service sample_boot_io (sample_boot_config 300) sample_boot_state = (Inr sv, True, s')"
proof -
  have "px_email sample_pydantic [] = None" by (simp add: sample_pydantic_def)
  from assemble_cases [OF sample_boot_config_ok(1,2) this, of 300] sample_boot_config_ok(3,4,5) [of 300]
  obtain sv s' where "assemble_service sample_boot_io (sample_boot_config 300) sample_boot_state = (Inr sv, s')"
    by (cases "assemble_service sample_boot_io (sample_boot_config 300) sample_boot_state") (auto split: sum.splits)
  moreover have "\<exists>ks. assert_error_codes_match_proto_enum (bt_proto_codes sample_boot_io) = Inr ks"
    by (simp add: assert_error_codes_match_proto_enum_def sample_boot_io_def used_codes_all)
  moreover have "open_connection path (bt_sqlite sample_boot_io) = (Inr [], True)" for path
    by (simp add: open_connection_def apply_pragmas_def sample_boot_io_def check_def)
  ultimately show ?thesis by (auto simp: build_service_def)
qed



theorem admin_provisioned_witness:
  "\<exists>d'. reconcile_admin_tx (\<lambda>p. Inr (''hash:'' @ p)) 0 ''root@x'' ''pw'' empty_db = Done () d' \<and>
     (\<exists>r. find_row wr_email ''root@x'' (db_users d') = Some r \<and> wr_password_hash r = ''hash:pw'') \<and>
     reconcile_admin_tx (\<lambda>p. Inr (''hash:'' @ p)) 5 ''root@x'' ''pw'' d' = Done () d'"
proof -
  have "accounts_wf empty_db" "account_rows_ok empty_db"
    by (simp_all add: accounts_wf_def account_rows_ok_def empty_db_def users.unique_keys_def sessions.unique_keys_def)
  from admin_provisioned [OF this, of "''root@x''" "''pw''" "\<lambda>p. Inr (''hash:'' @ p)" "''hash:pw''" 0 5]
  show ?thesis by (auto simp: empty_db_def)
qed

end
