(* ===== verification/Spec2Isabelle.thy ===== *)
theory Spec2Isabelle
  imports Dispatcher Admin_Users Subscriptions Report_Pruner Audit_Pruner Migrations Mailer Run_Queries Grpc System Steps Loops Boot
begin

text \<open>
  A model of the message service (\<open>src/message_service\<close>).
\<close>

end
